theory Spec2Isabelle
  imports Main "HOL-Library.Word" "HOL-Library.Monad_Syntax"
begin

chapter \<open>The model of kmer\_stats.c\<close>

section \<open>Data\<close>

text \<open>
  The structures \<open>KmerCounts\<close>, \<open>KmerStatsReadCounts\<close>, \<open>KmerStatsBothReads\<close>,
  \<open>KmerStats\<close> and \<open>CmdLine\<close> and the capacities \<open>MAX_CONTAMINANTS\<close> and
  \<open>MAX_READ_LENGTH\<close> are declared in headers (kmer\_stats.h, cmd\_line.h, kmer\_reader.h)
  that are not among the sources. The records below hold the fields kmer\_stats.c reads
  and writes, under the names it uses. What the headers alone fix is left open:
  \<^item> the integer type of the counters is the type parameter \<open>'c\<close>; the functions ask
    only for \<open>0\<close>, \<open>1\<close> and a cancellative \<open>+\<close>, so that \<open>nat\<close> (no overflow) and
    \<open>32 word\<close> (a \<open>uint32_t\<close> that wraps around) are both instances, and \<open>x++\<close> is
    \<open>x + 1\<close> in that type;
  \<^item> \<open>MAX_CONTAMINANTS\<close> and \<open>MAX_READ_LENGTH\<close> are parameters of the functions that
    use them;
  \<^item> an array is a list; the per-read hit counts and the thresholds are C \<open>int\<close>s,
    modelled as \<open>int\<close> (the hit counts are counts of k-mers of one read, not negative
    and far from overflow); \<open>n_contaminants\<close>, \<open>number_of_files\<close> and the loop indices
    are \<open>nat\<close>.

  A \<open>double\<close> that holds a percentage is a value of \<open>'c pc\<close>: the quotient of two
  counters when the denominator is not zero, and the results IEEE 754 division gives for a
  zero denominator otherwise.
\<close>

datatype 'c pc =
    Zero                \<comment> \<open>the literal \<open>0\<close>, also the state of a calloc'ed field\<close>
  | Percent 'c 'c       \<comment> \<open>\<open>Percent x n\<close>: the double \<open>(100.0 * x) / n\<close>, with \<open>n \<noteq> 0\<close>\<close>
  | Infinity            \<comment> \<open>\<open>(100.0 * x) / 0.0\<close> with \<open>x > 0\<close>\<close>
  | NaN                 \<comment> \<open>\<open>0.0 / 0.0\<close>\<close>

record KmerCounts =
  kmers_loaded :: int
  contaminants_detected :: int
  kmers_from_contaminant :: "int list"
  unique_kmers_from_contaminant :: "int list"
  assigned_contaminant :: int
  unique_assigned_contaminant :: int

record CmdLine =
  kmer_threshold_read :: int
  kmer_threshold_overall :: int
  filter_unique :: bool
  output_prefix :: string
  progress_dir :: string

record 'c KmerStatsReadCounts =
  lock :: bool
  number_of_reads :: 'c
  k1_contaminated_reads :: 'c
  kn_contaminated_reads :: 'c
  contaminant_kmers_seen :: "'c list"
  k1_contaminated_reads_by_contaminant :: "'c list"
  k1_unique_contaminated_reads_by_contaminant :: "'c list"
  kn_contaminated_reads_by_contaminant :: "'c list"
  kn_unique_contaminated_reads_by_contaminant :: "'c list"
  species_read_counts :: "'c list"
  species_unclassified :: 'c
  reads_with_highest_contaminant :: "'c list"
  reads_unclassified :: 'c
  contaminated_kmers_per_read :: "'c list"
  k1_contaminaned_reads_pc :: "'c pc"
  kn_contaminaned_reads_pc :: "'c pc"
  k1_contaminated_reads_by_contaminant_pc :: "'c pc list"
  k1_unique_contaminated_reads_by_contaminant_pc :: "'c pc list"
  kn_contaminated_reads_by_contaminant_pc :: "'c pc list"
  kn_unique_contaminated_reads_by_contaminant_pc :: "'c pc list"
  contaminant_kmers_seen_pc :: "'c pc list"
  species_read_counts_pc :: "'c pc list"
  species_unclassified_pc :: "'c pc"

text \<open>
  The fields of \<open>KmerStatsBothReads\<close> that share a name with a field of
  \<open>KmerStatsReadCounts\<close> (\<open>lock\<close>, \<open>number_of_reads\<close>, \<open>contaminant_kmers_seen\<close>,
  \<open>contaminant_kmers_seen_pc\<close>) carry the prefix \<open>both_\<close>, and the lock of
  \<open>KmerStats\<close> is \<open>stats_lock\<close>.
\<close>

record 'c KmerStatsBothReads =
  both_lock :: bool
  both_number_of_reads :: 'c
  threshold_passed_reads :: 'c
  k1_both_reads_not_threshold :: 'c
  k1_either_read_not_threshold :: 'c
  threshold_passed_reads_unique :: 'c
  k1_both_reads_not_threshold_unique :: 'c
  k1_either_read_not_threshold_unique :: 'c
  both_contaminant_kmers_seen :: "'c list"
  threshold_passed_reads_by_contaminant :: "'c list"
  k1_both_reads_not_threshold_by_contaminant :: "'c list"
  k1_either_read_not_threshold_by_contaminant :: "'c list"
  threshold_passed_reads_unique_by_contaminant :: "'c list"
  k1_both_reads_not_threshold_unique_by_contaminant :: "'c list"
  k1_either_read_not_threshold_unique_by_contaminant :: "'c list"
  filter_read :: bool
  threshold_passed_reads_pc :: "'c pc"
  k1_both_reads_not_threshold_pc :: "'c pc"
  k1_either_read_not_threshold_pc :: "'c pc"
  threshold_passed_reads_pc_unique :: "'c pc"
  k1_both_reads_not_threshold_pc_unique :: "'c pc"
  k1_either_read_not_threshold_pc_unique :: "'c pc"
  both_contaminant_kmers_seen_pc :: "'c pc list"
  threshold_passed_reads_by_contaminant_pc :: "'c pc list"
  k1_both_reads_not_threshold_by_contaminant_pc :: "'c pc list"
  k1_either_read_not_threshold_by_contaminant_pc :: "'c pc list"
  threshold_passed_reads_unique_by_contaminant_pc :: "'c pc list"
  k1_both_reads_not_threshold_unique_by_contaminant_pc :: "'c pc list"
  k1_either_read_not_threshold_unique_by_contaminant_pc :: "'c pc list"

record 'c KmerStats =
  stats_lock :: bool
  n_contaminants :: nat
  number_of_files :: nat
  contaminant_ids :: "string list"
  contaminant_kmers :: "'c list"
  unique_kmers :: "'c list"
  kmers_in_common :: "'c list list"
  read :: "'c KmerStatsReadCounts list"
  both_reads :: "'c KmerStatsBothReads"

section \<open>Array cells, locks and the running best\<close>

text \<open>
  \<open>xs[i]++\<close>. Every index the functions below pass is either below \<open>n_contaminants\<close>
  or a read-length bucket; the theorems assume the arrays at least that long, as the C
  declarations must make them (a write past the end of a C array has no defined result;
  the list is then left as it is).
\<close>

definition incr :: "nat \<Rightarrow> 'c::semiring_1_cancel list \<Rightarrow> 'c list" where
  "incr i xs = xs[i := xs ! i + 1]"

text \<open>\<open>for (i=0; i<n; i++) a[i] = 0;\<close>\<close>

definition zero_cells :: "nat \<Rightarrow> 'c::zero list \<Rightarrow> 'c list" where
  "zero_cells n xs = fold (\<lambda>i ys. ys[i := 0]) [0..<n] xs"

text \<open>
  A \<open>pthread_mutex_t\<close> in the execution of one thread: the field says whether the mutex
  is held. Locking a mutex that is held does not return (\<open>None\<close>); unlocking releases it.
\<close>

definition pthread_mutex_lock :: "'c KmerStatsReadCounts \<Rightarrow> 'c KmerStatsReadCounts option" where
  "pthread_mutex_lock rd = (if lock rd then None else Some (rd\<lparr>lock := True\<rparr>))"

definition pthread_mutex_unlock :: "'c KmerStatsReadCounts \<Rightarrow> 'c KmerStatsReadCounts" where
  "pthread_mutex_unlock rd = rd\<lparr>lock := False\<rparr>"

definition pthread_mutex_lock_both :: "'c KmerStatsBothReads \<Rightarrow> 'c KmerStatsBothReads option" where
  "pthread_mutex_lock_both b = (if both_lock b then None else Some (b\<lparr>both_lock := True\<rparr>))"

definition pthread_mutex_unlock_both :: "'c KmerStatsBothReads \<Rightarrow> 'c KmerStatsBothReads" where
  "pthread_mutex_unlock_both b = b\<lparr>both_lock := False\<rparr>"

text \<open>A \<open>for\<close> loop whose body may fail to return.\<close>

primrec for_each :: "'i list \<Rightarrow> ('i \<Rightarrow> 's \<Rightarrow> 's option) \<Rightarrow> 's \<Rightarrow> 's option" where
  "for_each [] body s = Some s"
| "for_each (i # is) body s = (case body i s of None \<Rightarrow> None | Some s' \<Rightarrow> for_each is body s')"

text \<open>
  The locals \<open>largest_contaminant\<close> and \<open>largest_kmers\<close> (and their \<open>unique_\<close> twins),
  both initialised to 0, and the update the source writes eight times:
  \<open>if (t > largest_kmers) { largest_kmers = t; largest_contaminant = i; }\<close>
\<close>

record best =
  largest_contaminant :: nat
  largest_kmers :: int

definition no_best :: best where
  "no_best = \<lparr>largest_contaminant = 0, largest_kmers = 0\<rparr>"

definition best_yet :: "nat \<Rightarrow> int \<Rightarrow> best \<Rightarrow> best" where
  "best_yet i t b = (if t > largest_kmers b then \<lparr>largest_contaminant = i, largest_kmers = t\<rparr> else b)"

section \<open>Initialisation\<close>

text \<open>
  \<open>calloc(1, sizeof(KmerStatsReadCounts))\<close>: every field zero. The per-contaminant
  arrays have \<open>MAX_CONTAMINANTS\<close> cells, as the loops of the initialisers say; the
  read-length histogram has \<open>MAX_READ_LENGTH + 1\<close>, index \<open>MAX_READ_LENGTH\<close> being the
  overflow bucket that \<open>update_stats\<close> writes.
\<close>

definition calloc_KmerStatsReadCounts :: "nat \<Rightarrow> nat \<Rightarrow> 'c::zero KmerStatsReadCounts" where
  "calloc_KmerStatsReadCounts MAX_CONTAMINANTS MAX_READ_LENGTH =
     \<lparr>lock = False, number_of_reads = 0, k1_contaminated_reads = 0, kn_contaminated_reads = 0,
      contaminant_kmers_seen = replicate MAX_CONTAMINANTS 0,
      k1_contaminated_reads_by_contaminant = replicate MAX_CONTAMINANTS 0,
      k1_unique_contaminated_reads_by_contaminant = replicate MAX_CONTAMINANTS 0,
      kn_contaminated_reads_by_contaminant = replicate MAX_CONTAMINANTS 0,
      kn_unique_contaminated_reads_by_contaminant = replicate MAX_CONTAMINANTS 0,
      species_read_counts = replicate MAX_CONTAMINANTS 0,
      species_unclassified = 0,
      reads_with_highest_contaminant = replicate MAX_CONTAMINANTS 0,
      reads_unclassified = 0,
      contaminated_kmers_per_read = replicate (MAX_READ_LENGTH + 1) 0,
      k1_contaminaned_reads_pc = Zero, kn_contaminaned_reads_pc = Zero,
      k1_contaminated_reads_by_contaminant_pc = replicate MAX_CONTAMINANTS Zero,
      k1_unique_contaminated_reads_by_contaminant_pc = replicate MAX_CONTAMINANTS Zero,
      kn_contaminated_reads_by_contaminant_pc = replicate MAX_CONTAMINANTS Zero,
      kn_unique_contaminated_reads_by_contaminant_pc = replicate MAX_CONTAMINANTS Zero,
      contaminant_kmers_seen_pc = replicate MAX_CONTAMINANTS Zero,
      species_read_counts_pc = replicate MAX_CONTAMINANTS Zero,
      species_unclassified_pc = Zero\<rparr>"

definition calloc_KmerStatsBothReads :: "nat \<Rightarrow> 'c::zero KmerStatsBothReads" where
  "calloc_KmerStatsBothReads MAX_CONTAMINANTS =
     \<lparr>both_lock = False, both_number_of_reads = 0, threshold_passed_reads = 0,
      k1_both_reads_not_threshold = 0, k1_either_read_not_threshold = 0,
      threshold_passed_reads_unique = 0, k1_both_reads_not_threshold_unique = 0,
      k1_either_read_not_threshold_unique = 0,
      both_contaminant_kmers_seen = replicate MAX_CONTAMINANTS 0,
      threshold_passed_reads_by_contaminant = replicate MAX_CONTAMINANTS 0,
      k1_both_reads_not_threshold_by_contaminant = replicate MAX_CONTAMINANTS 0,
      k1_either_read_not_threshold_by_contaminant = replicate MAX_CONTAMINANTS 0,
      threshold_passed_reads_unique_by_contaminant = replicate MAX_CONTAMINANTS 0,
      k1_both_reads_not_threshold_unique_by_contaminant = replicate MAX_CONTAMINANTS 0,
      k1_either_read_not_threshold_unique_by_contaminant = replicate MAX_CONTAMINANTS 0,
      filter_read = False,
      threshold_passed_reads_pc = Zero, k1_both_reads_not_threshold_pc = Zero,
      k1_either_read_not_threshold_pc = Zero, threshold_passed_reads_pc_unique = Zero,
      k1_both_reads_not_threshold_pc_unique = Zero, k1_either_read_not_threshold_pc_unique = Zero,
      both_contaminant_kmers_seen_pc = replicate MAX_CONTAMINANTS Zero,
      threshold_passed_reads_by_contaminant_pc = replicate MAX_CONTAMINANTS Zero,
      k1_both_reads_not_threshold_by_contaminant_pc = replicate MAX_CONTAMINANTS Zero,
      k1_either_read_not_threshold_by_contaminant_pc = replicate MAX_CONTAMINANTS Zero,
      threshold_passed_reads_unique_by_contaminant_pc = replicate MAX_CONTAMINANTS Zero,
      k1_both_reads_not_threshold_unique_by_contaminant_pc = replicate MAX_CONTAMINANTS Zero,
      k1_either_read_not_threshold_unique_by_contaminant_pc = replicate MAX_CONTAMINANTS Zero\<rparr>"

definition kmer_stats_read_counts_initialise ::
  "nat \<Rightarrow> nat \<Rightarrow> 'c::zero KmerStatsReadCounts \<Rightarrow> 'c KmerStatsReadCounts" where
  "kmer_stats_read_counts_initialise MAX_CONTAMINANTS MAX_READ_LENGTH r =
     r\<lparr>lock := False,
       number_of_reads := 0,
       k1_contaminated_reads := 0,
       kn_contaminated_reads := 0,
       contaminant_kmers_seen := zero_cells MAX_CONTAMINANTS (contaminant_kmers_seen r),
       k1_contaminated_reads_by_contaminant :=
         zero_cells MAX_CONTAMINANTS (k1_contaminated_reads_by_contaminant r),
       k1_unique_contaminated_reads_by_contaminant :=
         zero_cells MAX_CONTAMINANTS (k1_unique_contaminated_reads_by_contaminant r),
       species_read_counts := zero_cells MAX_CONTAMINANTS (species_read_counts r),
       contaminated_kmers_per_read := zero_cells MAX_READ_LENGTH (contaminated_kmers_per_read r),
       species_unclassified := 0\<rparr>"

definition kmer_stats_both_reads_initialise ::
  "nat \<Rightarrow> 'c::zero KmerStatsBothReads \<Rightarrow> 'c KmerStatsBothReads" where
  "kmer_stats_both_reads_initialise MAX_CONTAMINANTS r =
     r\<lparr>both_lock := False,
       both_number_of_reads := 0,
       threshold_passed_reads := 0,
       k1_both_reads_not_threshold := 0,
       k1_either_read_not_threshold := 0,
       threshold_passed_reads_unique := 0,
       k1_both_reads_not_threshold_unique := 0,
       k1_either_read_not_threshold_unique := 0,
       threshold_passed_reads_by_contaminant :=
         zero_cells MAX_CONTAMINANTS (threshold_passed_reads_by_contaminant r),
       k1_both_reads_not_threshold_by_contaminant :=
         zero_cells MAX_CONTAMINANTS (k1_both_reads_not_threshold_by_contaminant r),
       k1_either_read_not_threshold_by_contaminant :=
         zero_cells MAX_CONTAMINANTS (k1_either_read_not_threshold_by_contaminant r),
       threshold_passed_reads_unique_by_contaminant :=
         zero_cells MAX_CONTAMINANTS (threshold_passed_reads_unique_by_contaminant r),
       k1_both_reads_not_threshold_unique_by_contaminant :=
         zero_cells MAX_CONTAMINANTS (k1_both_reads_not_threshold_unique_by_contaminant r),
       k1_either_read_not_threshold_unique_by_contaminant :=
         zero_cells MAX_CONTAMINANTS (k1_either_read_not_threshold_unique_by_contaminant r),
       filter_read := False\<rparr>"

text \<open>
  \<open>kmer_stats_initialise\<close>. \<open>calloc_ok k\<close> says whether the \<open>k\<close>-th \<open>calloc\<close> of the
  call returns memory; when one does not, the function prints an error and calls
  \<open>exit(2)\<close>, which is the result \<open>Inl 2\<close>. \<open>stats->read\<close> is the list of the two
  structures its two pointers point to.
\<close>

definition kmer_stats_initialise ::
  "nat \<Rightarrow> nat \<Rightarrow> (nat \<Rightarrow> bool) \<Rightarrow> 'c::zero KmerStats \<Rightarrow> CmdLine \<Rightarrow> nat + 'c KmerStats" where
  "kmer_stats_initialise MAX_CONTAMINANTS MAX_READ_LENGTH calloc_ok stats cmd_line =
     (let stats = stats\<lparr>stats_lock := False, n_contaminants := 0, number_of_files := 0,
                         contaminant_kmers := zero_cells MAX_CONTAMINANTS (contaminant_kmers stats),
                         unique_kmers := zero_cells MAX_CONTAMINANTS (unique_kmers stats),
                         kmers_in_common :=
                           map (zero_cells MAX_CONTAMINANTS) (take MAX_CONTAMINANTS (kmers_in_common stats))
                           @ drop MAX_CONTAMINANTS (kmers_in_common stats)\<rparr>
      in if \<not> calloc_ok 0 then Inl 2
         else if \<not> calloc_ok 1 then Inl 2
         else if \<not> calloc_ok 2 then Inl 2
         else Inr (stats\<lparr>
           read := [kmer_stats_read_counts_initialise MAX_CONTAMINANTS MAX_READ_LENGTH
                      (calloc_KmerStatsReadCounts MAX_CONTAMINANTS MAX_READ_LENGTH),
                    kmer_stats_read_counts_initialise MAX_CONTAMINANTS MAX_READ_LENGTH
                      (calloc_KmerStatsReadCounts MAX_CONTAMINANTS MAX_READ_LENGTH)],
           both_reads := kmer_stats_both_reads_initialise MAX_CONTAMINANTS
                      (calloc_KmerStatsBothReads MAX_CONTAMINANTS)\<rparr>))"

section \<open>Single-read classification\<close>

text \<open>
  \<open>update_stats\<close> and \<open>update_stats_parallel\<close> work on \<open>stats->read[r]\<close> alone; they
  are modelled on that structure (\<open>rd\<close>), block by block, and put together at the end
  of the section. \<open>n\<close> is \<open>stats->n_contaminants\<close>.
\<close>

text \<open>
  \<open>number_of_reads++\<close> and the read-length bucket
  \<open>contaminated_kmers_per_read[kmers_loaded < MAX_READ_LENGTH ? kmers_loaded : MAX_READ_LENGTH]++\<close>
  (\<open>kmers_loaded\<close> is a count, so that the index is its value as a \<open>nat\<close>).
\<close>

definition count_read ::
  "nat \<Rightarrow> KmerCounts \<Rightarrow> 'c::semiring_1_cancel KmerStatsReadCounts \<Rightarrow> 'c KmerStatsReadCounts" where
  "count_read MAX_READ_LENGTH counts rd =
     (let rd = rd\<lparr>number_of_reads := number_of_reads rd + 1\<rparr>
      in rd\<lparr>contaminated_kmers_per_read :=
              incr (nat (if kmers_loaded counts < int MAX_READ_LENGTH
                         then kmers_loaded counts else int MAX_READ_LENGTH))
                   (contaminated_kmers_per_read rd)\<rparr>)"

definition count_read_parallel ::
  "nat \<Rightarrow> KmerCounts \<Rightarrow> 'c::semiring_1_cancel KmerStatsReadCounts \<Rightarrow> 'c KmerStatsReadCounts option" where
  "count_read_parallel MAX_READ_LENGTH counts rd =
     do {
       rd \<leftarrow> pthread_mutex_lock rd;
       let rd = rd\<lparr>number_of_reads := number_of_reads rd + 1\<rparr>;
       let rd = rd\<lparr>contaminated_kmers_per_read :=
              incr (nat (if kmers_loaded counts < int MAX_READ_LENGTH
                         then kmers_loaded counts else int MAX_READ_LENGTH))
                   (contaminated_kmers_per_read rd)\<rparr>;
       Some (pthread_mutex_unlock rd)
     }"

text \<open>
  The body of the first loop, on the locals \<open>(largest, unique_largest)\<close> and the
  structure.
\<close>

definition k1_body ::
  "KmerCounts \<Rightarrow> nat \<Rightarrow> best \<times> best \<times> 'c::semiring_1_cancel KmerStatsReadCounts
     \<Rightarrow> best \<times> best \<times> 'c KmerStatsReadCounts" where
  "k1_body counts i s =
     (case s of (largest, unique_largest, rd) \<Rightarrow>
        if kmers_from_contaminant counts ! i > 0 then
          let largest = best_yet i (kmers_from_contaminant counts ! i) largest;
              unique_largest = best_yet i (unique_kmers_from_contaminant counts ! i) unique_largest;
              rd = rd\<lparr>k1_contaminated_reads_by_contaminant :=
                        incr i (k1_contaminated_reads_by_contaminant rd)\<rparr>;
              rd = (if contaminants_detected counts = 1
                    then rd\<lparr>k1_unique_contaminated_reads_by_contaminant :=
                              incr i (k1_unique_contaminated_reads_by_contaminant rd)\<rparr>
                    else rd)
          in (largest, unique_largest, rd)
        else s)"

definition k1_body_parallel ::
  "KmerCounts \<Rightarrow> nat \<Rightarrow> best \<times> best \<times> 'c::semiring_1_cancel KmerStatsReadCounts
     \<Rightarrow> (best \<times> best \<times> 'c KmerStatsReadCounts) option" where
  "k1_body_parallel counts i s =
     (case s of (largest, unique_largest, rd) \<Rightarrow>
        if kmers_from_contaminant counts ! i > 0 then
          do {
            let largest = best_yet i (kmers_from_contaminant counts ! i) largest;
            let unique_largest = best_yet i (unique_kmers_from_contaminant counts ! i) unique_largest;
            rd \<leftarrow> pthread_mutex_lock rd;
            let rd = rd\<lparr>k1_contaminated_reads_by_contaminant :=
                        incr i (k1_contaminated_reads_by_contaminant rd)\<rparr>;
            let rd = pthread_mutex_unlock rd;
            rd \<leftarrow> (if contaminants_detected counts = 1
                   then do {
                     rd \<leftarrow> pthread_mutex_lock rd;
                     let rd = rd\<lparr>k1_unique_contaminated_reads_by_contaminant :=
                                 incr i (k1_unique_contaminated_reads_by_contaminant rd)\<rparr>;
                     Some (pthread_mutex_unlock rd)
                   }
                   else Some rd);
            Some (largest, unique_largest, rd)
          }
        else Some s)"

text \<open>\<open>if (counts->kmers_loaded > 0) { for ... ; k1_contaminated_reads++; }\<close>\<close>

definition k1_pass ::
  "nat \<Rightarrow> KmerCounts \<Rightarrow> 'c::semiring_1_cancel KmerStatsReadCounts
     \<Rightarrow> best \<times> best \<times> 'c KmerStatsReadCounts" where
  "k1_pass n counts rd =
     (if kmers_loaded counts > 0 then
        (case fold (k1_body counts) [0..<n] (no_best, no_best, rd) of
           (largest, unique_largest, rd) \<Rightarrow>
             (largest, unique_largest, rd\<lparr>k1_contaminated_reads := k1_contaminated_reads rd + 1\<rparr>))
      else (no_best, no_best, rd))"

definition k1_pass_parallel ::
  "nat \<Rightarrow> KmerCounts \<Rightarrow> 'c::semiring_1_cancel KmerStatsReadCounts
     \<Rightarrow> (best \<times> best \<times> 'c KmerStatsReadCounts) option" where
  "k1_pass_parallel n counts rd =
     (if kmers_loaded counts > 0 then
        do {
          (largest, unique_largest, rd) \<leftarrow> for_each [0..<n] (k1_body_parallel counts) (no_best, no_best, rd);
          rd \<leftarrow> pthread_mutex_lock rd;
          let rd = rd\<lparr>k1_contaminated_reads := k1_contaminated_reads rd + 1\<rparr>;
          Some (largest, unique_largest, pthread_mutex_unlock rd)
        }
      else Some (no_best, no_best, rd))"

text \<open>
  The assignment: unclassified when \<open>largest_kmers == 0\<close>, else the count of the
  largest contaminant; then the unique assignment, which touches no counter.
\<close>

definition assign_read ::
  "best \<Rightarrow> KmerCounts \<times> 'c::semiring_1_cancel KmerStatsReadCounts
     \<Rightarrow> KmerCounts \<times> 'c KmerStatsReadCounts" where
  "assign_read largest s =
     (case s of (counts, rd) \<Rightarrow>
        if largest_kmers largest = 0 then
          (counts\<lparr>assigned_contaminant := - 1\<rparr>,
           rd\<lparr>reads_unclassified := reads_unclassified rd + 1\<rparr>)
        else
          (counts\<lparr>assigned_contaminant := int (largest_contaminant largest)\<rparr>,
           rd\<lparr>reads_with_highest_contaminant :=
                incr (largest_contaminant largest) (reads_with_highest_contaminant rd)\<rparr>))"

definition assign_read_parallel ::
  "best \<Rightarrow> KmerCounts \<times> 'c::semiring_1_cancel KmerStatsReadCounts
     \<Rightarrow> (KmerCounts \<times> 'c KmerStatsReadCounts) option" where
  "assign_read_parallel largest s =
     (case s of (counts, rd) \<Rightarrow>
        if largest_kmers largest = 0 then
          do {
            rd \<leftarrow> pthread_mutex_lock rd;
            let rd = rd\<lparr>reads_unclassified := reads_unclassified rd + 1\<rparr>;
            Some (counts\<lparr>assigned_contaminant := - 1\<rparr>, pthread_mutex_unlock rd)
          }
        else
          do {
            rd \<leftarrow> pthread_mutex_lock rd;
            let rd = rd\<lparr>reads_with_highest_contaminant :=
                incr (largest_contaminant largest) (reads_with_highest_contaminant rd)\<rparr>;
            Some (counts\<lparr>assigned_contaminant := int (largest_contaminant largest)\<rparr>,
                  pthread_mutex_unlock rd)
          })"

definition assign_unique :: "best \<Rightarrow> KmerCounts \<Rightarrow> KmerCounts" where
  "assign_unique unique_largest counts =
     (if largest_kmers unique_largest = 0 then counts\<lparr>unique_assigned_contaminant := - 1\<rparr>
      else counts\<lparr>unique_assigned_contaminant := int (largest_contaminant unique_largest)\<rparr>)"

text \<open>The threshold block and the body of its loop.\<close>

definition kn_body ::
  "KmerCounts \<Rightarrow> CmdLine \<Rightarrow> nat \<Rightarrow> 'c::semiring_1_cancel KmerStatsReadCounts
     \<Rightarrow> 'c KmerStatsReadCounts" where
  "kn_body counts cmd_line i rd =
     (if kmers_from_contaminant counts ! i > kmer_threshold_read cmd_line then
        let rd = rd\<lparr>kn_contaminated_reads_by_contaminant :=
                      incr i (kn_contaminated_reads_by_contaminant rd)\<rparr>
        in if contaminants_detected counts = 1
           then rd\<lparr>kn_unique_contaminated_reads_by_contaminant :=
                     incr i (kn_unique_contaminated_reads_by_contaminant rd)\<rparr>
           else rd
      else rd)"

definition kn_body_parallel ::
  "KmerCounts \<Rightarrow> CmdLine \<Rightarrow> nat \<Rightarrow> 'c::semiring_1_cancel KmerStatsReadCounts
     \<Rightarrow> 'c KmerStatsReadCounts option" where
  "kn_body_parallel counts cmd_line i rd =
     (if kmers_from_contaminant counts ! i > kmer_threshold_read cmd_line then
        do {
          rd \<leftarrow> pthread_mutex_lock rd;
          let rd = rd\<lparr>kn_contaminated_reads_by_contaminant :=
                      incr i (kn_contaminated_reads_by_contaminant rd)\<rparr>;
          let rd = pthread_mutex_unlock rd;
          if contaminants_detected counts = 1
          then do {
            rd \<leftarrow> pthread_mutex_lock rd;
            let rd = rd\<lparr>kn_unique_contaminated_reads_by_contaminant :=
                     incr i (kn_unique_contaminated_reads_by_contaminant rd)\<rparr>;
            Some (pthread_mutex_unlock rd)
          }
          else Some rd
        }
      else Some rd)"

definition kn_pass ::
  "nat \<Rightarrow> KmerCounts \<Rightarrow> CmdLine \<Rightarrow> 'c::semiring_1_cancel KmerStatsReadCounts
     \<Rightarrow> 'c KmerStatsReadCounts" where
  "kn_pass n counts cmd_line rd =
     (if kmers_loaded counts \<ge> kmer_threshold_read cmd_line then
        let rd = fold (kn_body counts cmd_line) [0..<n] rd
        in rd\<lparr>kn_contaminated_reads := kn_contaminated_reads rd + 1\<rparr>
      else rd)"

definition kn_pass_parallel ::
  "nat \<Rightarrow> KmerCounts \<Rightarrow> CmdLine \<Rightarrow> 'c::semiring_1_cancel KmerStatsReadCounts
     \<Rightarrow> 'c KmerStatsReadCounts option" where
  "kn_pass_parallel n counts cmd_line rd =
     (if kmers_loaded counts \<ge> kmer_threshold_read cmd_line then
        do {
          rd \<leftarrow> for_each [0..<n] (kn_body_parallel counts cmd_line) rd;
          rd \<leftarrow> pthread_mutex_lock rd;
          let rd = rd\<lparr>kn_contaminated_reads := kn_contaminated_reads rd + 1\<rparr>;
          Some (pthread_mutex_unlock rd)
        }
      else Some rd)"

text \<open>The two functions on \<open>stats->read[r]\<close>, and on \<open>stats\<close>.\<close>

definition update_stats_read ::
  "nat \<Rightarrow> nat \<Rightarrow> KmerCounts \<Rightarrow> CmdLine \<Rightarrow> 'c::semiring_1_cancel KmerStatsReadCounts
     \<Rightarrow> KmerCounts \<times> 'c KmerStatsReadCounts" where
  "update_stats_read MAX_READ_LENGTH n counts cmd_line rd =
     (case k1_pass n counts (count_read MAX_READ_LENGTH counts rd) of
        (largest, unique_largest, rd) \<Rightarrow>
          (case assign_read largest (counts, rd) of
             (counts, rd) \<Rightarrow>
               (let counts = assign_unique unique_largest counts
                in (counts, kn_pass n counts cmd_line rd))))"

definition update_stats_parallel_read ::
  "nat \<Rightarrow> nat \<Rightarrow> KmerCounts \<Rightarrow> CmdLine \<Rightarrow> 'c::semiring_1_cancel KmerStatsReadCounts
     \<Rightarrow> (KmerCounts \<times> 'c KmerStatsReadCounts) option" where
  "update_stats_parallel_read MAX_READ_LENGTH n counts cmd_line rd =
     do {
       rd \<leftarrow> count_read_parallel MAX_READ_LENGTH counts rd;
       (largest, unique_largest, rd) \<leftarrow> k1_pass_parallel n counts rd;
       (counts, rd) \<leftarrow> assign_read_parallel largest (counts, rd);
       let counts = assign_unique unique_largest counts;
       rd \<leftarrow> kn_pass_parallel n counts cmd_line rd;
       Some (counts, rd)
     }"

definition update_stats ::
  "nat \<Rightarrow> nat \<Rightarrow> KmerCounts \<Rightarrow> 'c::semiring_1_cancel KmerStats \<Rightarrow> CmdLine
     \<Rightarrow> KmerCounts \<times> 'c KmerStats" where
  "update_stats MAX_READ_LENGTH r counts stats cmd_line =
     (case update_stats_read MAX_READ_LENGTH (n_contaminants stats) counts cmd_line (read stats ! r) of
        (counts, rd) \<Rightarrow> (counts, stats\<lparr>read := (read stats)[r := rd]\<rparr>))"

definition update_stats_parallel ::
  "nat \<Rightarrow> nat \<Rightarrow> KmerCounts \<Rightarrow> 'c::semiring_1_cancel KmerStats \<Rightarrow> CmdLine
     \<Rightarrow> (KmerCounts \<times> 'c KmerStats) option" where
  "update_stats_parallel MAX_READ_LENGTH r counts stats cmd_line =
     do {
       (counts, rd) \<leftarrow> update_stats_parallel_read MAX_READ_LENGTH (n_contaminants stats) counts
                         cmd_line (read stats ! r);
       Some (counts, stats\<lparr>read := (read stats)[r := rd]\<rparr>)
     }"

section \<open>Paired classification\<close>

text \<open>
  The loop of \<open>update_stats_for_both\<close> runs the same block twice for each contaminant,
  on the raw counts and then on the unique counts, with two sets of locals
  (\<open>threshold_met\<close>, \<open>largest_contaminant\<close>, \<open>largest_kmers\<close>, \<open>one_in_both\<close>,
  \<open>one_in_either\<close>, and their \<open>unique_\<close> twins). A \<open>tier\<close> is one set of these locals
  and \<open>tier_body\<close> is the block; the loop of \<open>update_stats_for_both_parallel\<close> is the
  same text.
\<close>

record tier =
  threshold_met :: bool
  largest :: best
  one_in_both :: int
  one_in_either :: int

definition no_tier :: tier where
  "no_tier = \<lparr>threshold_met = False, largest = no_best, one_in_both = 0, one_in_either = 0\<rparr>"

text \<open>
  \<open>(a >= kmer_threshold_read) && (b >= kmer_threshold_read) && (t >= kmer_threshold_overall)\<close>
\<close>

definition meets_thresholds :: "CmdLine \<Rightarrow> int \<Rightarrow> int \<Rightarrow> bool" where
  "meets_thresholds cmd_line a b \<longleftrightarrow>
     a \<ge> kmer_threshold_read cmd_line \<and> b \<ge> kmer_threshold_read cmd_line \<and>
     a + b \<ge> kmer_threshold_overall cmd_line"

definition tier_body :: "CmdLine \<Rightarrow> int \<Rightarrow> int \<Rightarrow> nat \<Rightarrow> tier \<Rightarrow> tier" where
  "tier_body cmd_line a b i st =
     (let t = a + b in
      if meets_thresholds cmd_line a b then
        st\<lparr>largest := best_yet i t (largest st), threshold_met := True\<rparr>
      else if \<not> threshold_met st then
        if a \<ge> 1 \<and> b \<ge> 1 then
          st\<lparr>one_in_both := one_in_both st + 1, largest := best_yet i t (largest st)\<rparr>
        else if (a \<ge> 1 \<and> b = 0) \<or> (a = 0 \<and> b \<ge> 1) then
          let st = st\<lparr>one_in_either := one_in_either st + 1\<rparr>
          in if one_in_both st = 0 then st\<lparr>largest := best_yet i t (largest st)\<rparr> else st
        else st
      else st)"

definition pair_body :: "CmdLine \<Rightarrow> KmerCounts \<Rightarrow> KmerCounts \<Rightarrow> nat \<Rightarrow> tier \<times> tier \<Rightarrow> tier \<times> tier" where
  "pair_body cmd_line counts_a counts_b i s =
     (case s of (raw, unique) \<Rightarrow>
        (tier_body cmd_line (kmers_from_contaminant counts_a ! i)
                            (kmers_from_contaminant counts_b ! i) i raw,
         tier_body cmd_line (unique_kmers_from_contaminant counts_a ! i)
                            (unique_kmers_from_contaminant counts_b ! i) i unique))"

definition pair_scan :: "nat \<Rightarrow> CmdLine \<Rightarrow> KmerCounts \<Rightarrow> KmerCounts \<Rightarrow> tier \<times> tier" where
  "pair_scan n cmd_line counts_a counts_b =
     fold (pair_body cmd_line counts_a counts_b) [0..<n] (no_tier, no_tier)"

text \<open>
  ``Update read counts'': the two \<open>if\<close> ... \<open>else if\<close> ... \<open>else if\<close> chains, on the
  local \<open>filter_read\<close> (here \<open>flag\<close>; the field of that name is not used) and
  \<open>stats->both_reads\<close>.
\<close>

definition count_raw ::
  "CmdLine \<Rightarrow> tier \<Rightarrow> bool \<times> 'c::semiring_1_cancel KmerStatsBothReads \<Rightarrow> bool \<times> 'c KmerStatsBothReads" where
  "count_raw cmd_line raw s =
     (case s of (flag, b) \<Rightarrow>
        if threshold_met raw then
          (if filter_unique cmd_line = False then True else flag,
           b\<lparr>threshold_passed_reads := threshold_passed_reads b + 1,
             threshold_passed_reads_by_contaminant :=
               incr (largest_contaminant (largest raw)) (threshold_passed_reads_by_contaminant b)\<rparr>)
        else if one_in_both raw > 0 then
          (flag,
           b\<lparr>k1_both_reads_not_threshold := k1_both_reads_not_threshold b + 1,
             k1_both_reads_not_threshold_by_contaminant :=
               incr (largest_contaminant (largest raw)) (k1_both_reads_not_threshold_by_contaminant b)\<rparr>)
        else if one_in_either raw > 0 then
          (flag,
           b\<lparr>k1_either_read_not_threshold := k1_either_read_not_threshold b + 1,
             k1_either_read_not_threshold_by_contaminant :=
               incr (largest_contaminant (largest raw)) (k1_either_read_not_threshold_by_contaminant b)\<rparr>)
        else s)"

definition count_unique ::
  "tier \<Rightarrow> bool \<times> 'c::semiring_1_cancel KmerStatsBothReads \<Rightarrow> bool \<times> 'c KmerStatsBothReads" where
  "count_unique unique s =
     (case s of (flag, b) \<Rightarrow>
        if threshold_met unique then
          (True,
           b\<lparr>threshold_passed_reads_unique := threshold_passed_reads_unique b + 1,
             threshold_passed_reads_unique_by_contaminant :=
               incr (largest_contaminant (largest unique))
                    (threshold_passed_reads_unique_by_contaminant b)\<rparr>)
        else if one_in_both unique > 0 then
          (flag,
           b\<lparr>k1_both_reads_not_threshold_unique := k1_both_reads_not_threshold_unique b + 1,
             k1_both_reads_not_threshold_unique_by_contaminant :=
               incr (largest_contaminant (largest unique))
                    (k1_both_reads_not_threshold_unique_by_contaminant b)\<rparr>)
        else if one_in_either unique > 0 then
          (flag,
           b\<lparr>k1_either_read_not_threshold_unique := k1_either_read_not_threshold_unique b + 1,
             k1_either_read_not_threshold_unique_by_contaminant :=
               incr (largest_contaminant (largest unique))
                    (k1_either_read_not_threshold_unique_by_contaminant b)\<rparr>)
        else s)"

definition count_raw_parallel ::
  "CmdLine \<Rightarrow> tier \<Rightarrow> bool \<times> 'c::semiring_1_cancel KmerStatsBothReads
     \<Rightarrow> (bool \<times> 'c KmerStatsBothReads) option" where
  "count_raw_parallel cmd_line raw s =
     (case s of (flag, b) \<Rightarrow>
        if threshold_met raw then
          do {
            b \<leftarrow> pthread_mutex_lock_both b;
            let b = b\<lparr>threshold_passed_reads := threshold_passed_reads b + 1\<rparr>;
            let b = b\<lparr>threshold_passed_reads_by_contaminant :=
               incr (largest_contaminant (largest raw)) (threshold_passed_reads_by_contaminant b)\<rparr>;
            let b = pthread_mutex_unlock_both b;
            Some (if filter_unique cmd_line = False then True else flag, b)
          }
        else if one_in_both raw > 0 then
          do {
            b \<leftarrow> pthread_mutex_lock_both b;
            let b = b\<lparr>k1_both_reads_not_threshold := k1_both_reads_not_threshold b + 1\<rparr>;
            let b = b\<lparr>k1_both_reads_not_threshold_by_contaminant :=
               incr (largest_contaminant (largest raw)) (k1_both_reads_not_threshold_by_contaminant b)\<rparr>;
            Some (flag, pthread_mutex_unlock_both b)
          }
        else if one_in_either raw > 0 then
          do {
            b \<leftarrow> pthread_mutex_lock_both b;
            let b = b\<lparr>k1_either_read_not_threshold := k1_either_read_not_threshold b + 1\<rparr>;
            let b = b\<lparr>k1_either_read_not_threshold_by_contaminant :=
               incr (largest_contaminant (largest raw)) (k1_either_read_not_threshold_by_contaminant b)\<rparr>;
            Some (flag, pthread_mutex_unlock_both b)
          }
        else Some s)"

definition count_unique_parallel ::
  "tier \<Rightarrow> bool \<times> 'c::semiring_1_cancel KmerStatsBothReads
     \<Rightarrow> (bool \<times> 'c KmerStatsBothReads) option" where
  "count_unique_parallel unique s =
     (case s of (flag, b) \<Rightarrow>
        if threshold_met unique then
          do {
            b \<leftarrow> pthread_mutex_lock_both b;
            let b = b\<lparr>threshold_passed_reads_unique := threshold_passed_reads_unique b + 1\<rparr>;
            let b = b\<lparr>threshold_passed_reads_unique_by_contaminant :=
               incr (largest_contaminant (largest unique))
                    (threshold_passed_reads_unique_by_contaminant b)\<rparr>;
            let b = pthread_mutex_unlock_both b;
            Some (True, b)
          }
        else if one_in_both unique > 0 then
          do {
            b \<leftarrow> pthread_mutex_lock_both b;
            let b = b\<lparr>k1_both_reads_not_threshold_unique := k1_both_reads_not_threshold_unique b + 1\<rparr>;
            let b = b\<lparr>k1_both_reads_not_threshold_unique_by_contaminant :=
               incr (largest_contaminant (largest unique))
                    (k1_both_reads_not_threshold_unique_by_contaminant b)\<rparr>;
            Some (flag, pthread_mutex_unlock_both b)
          }
        else if one_in_either unique > 0 then
          do {
            b \<leftarrow> pthread_mutex_lock_both b;
            let b = b\<lparr>k1_either_read_not_threshold_unique := k1_either_read_not_threshold_unique b + 1\<rparr>;
            let b = b\<lparr>k1_either_read_not_threshold_unique_by_contaminant :=
               incr (largest_contaminant (largest unique))
                    (k1_either_read_not_threshold_unique_by_contaminant b)\<rparr>;
            Some (flag, pthread_mutex_unlock_both b)
          }
        else Some s)"

text \<open>The two functions: the returned boolean and the updated \<open>stats\<close>.\<close>

definition update_stats_for_both ::
  "'c::semiring_1_cancel KmerStats \<Rightarrow> CmdLine \<Rightarrow> KmerCounts \<Rightarrow> KmerCounts \<Rightarrow> bool \<times> 'c KmerStats" where
  "update_stats_for_both stats cmd_line counts_a counts_b =
     (case pair_scan (n_contaminants stats) cmd_line counts_a counts_b of
        (raw, unique) \<Rightarrow>
          (case count_unique unique (count_raw cmd_line raw (False, both_reads stats)) of
             (flag, b) \<Rightarrow> (flag, stats\<lparr>both_reads := b\<rparr>)))"

definition update_stats_for_both_parallel ::
  "'c::semiring_1_cancel KmerStats \<Rightarrow> CmdLine \<Rightarrow> KmerCounts \<Rightarrow> KmerCounts
     \<Rightarrow> (bool \<times> 'c KmerStats) option" where
  "update_stats_for_both_parallel stats cmd_line counts_a counts_b =
     (case pair_scan (n_contaminants stats) cmd_line counts_a counts_b of
        (raw, unique) \<Rightarrow>
          do {
            s \<leftarrow> count_raw_parallel cmd_line raw (False, both_reads stats);
            (flag, b) \<leftarrow> count_unique_parallel unique s;
            Some (flag, stats\<lparr>both_reads := b\<rparr>)
          })"

section \<open>Percentages\<close>

text \<open>
  \<open>(100.0 * (double)x) / (double)n\<close> on two counters. The conversion of an integer to
  \<open>double\<close> is zero exactly when the integer is; a zero denominator gives \<open>NaN\<close> for a
  zero numerator and \<open>+inf\<close> for a positive one (IEEE 754). The rounding of the quotient
  is not modelled: \<open>Percent x n\<close> stands for the double the division returns.
\<close>

definition percent :: "'c::zero \<Rightarrow> 'c \<Rightarrow> 'c pc" where
  "percent x n = (if n = 0 then (if x = 0 then NaN else Infinity) else Percent x n)"

text \<open>
  \<open>kmer_stats_calculate_read\<close>: the body of its loop and the function, on its
  parameter \<open>read\<close> (here \<open>rd\<close>). The counters are counts, never negative, so that
  \<open>x > 0\<close> is \<open>x \<noteq> 0\<close>.
\<close>

definition calculate_read_body ::
  "'c::zero KmerStats \<Rightarrow> nat \<Rightarrow> 'c KmerStatsReadCounts \<Rightarrow> 'c KmerStatsReadCounts" where
  "calculate_read_body stats i rd =
     (let rd = rd\<lparr>k1_contaminated_reads_by_contaminant_pc :=
                   (k1_contaminated_reads_by_contaminant_pc rd)
                     [i := percent (k1_contaminated_reads_by_contaminant rd ! i) (number_of_reads rd)]\<rparr>;
          rd = rd\<lparr>k1_unique_contaminated_reads_by_contaminant_pc :=
                   (k1_unique_contaminated_reads_by_contaminant_pc rd)
                     [i := percent (k1_unique_contaminated_reads_by_contaminant rd ! i)
                                   (number_of_reads rd)]\<rparr>;
          rd = rd\<lparr>kn_contaminated_reads_by_contaminant_pc :=
                   (kn_contaminated_reads_by_contaminant_pc rd)
                     [i := percent (kn_contaminated_reads_by_contaminant rd ! i) (number_of_reads rd)]\<rparr>;
          rd = rd\<lparr>kn_unique_contaminated_reads_by_contaminant_pc :=
                   (kn_unique_contaminated_reads_by_contaminant_pc rd)
                     [i := percent (kn_unique_contaminated_reads_by_contaminant rd ! i)
                                   (number_of_reads rd)]\<rparr>;
          rd = rd\<lparr>contaminant_kmers_seen_pc :=
                   (contaminant_kmers_seen_pc rd)
                     [i := percent (contaminant_kmers_seen rd ! i) (contaminant_kmers stats ! i)]\<rparr>;
          rd = (if species_read_counts rd ! i \<noteq> 0
                  then rd\<lparr>species_read_counts_pc :=
                         (species_read_counts_pc rd)
                           [i := percent (species_read_counts rd ! i) (number_of_reads rd)]\<rparr>
                  else rd\<lparr>species_read_counts_pc := (species_read_counts_pc rd)[i := Zero]\<rparr>)
      in if species_unclassified rd \<noteq> 0
         then rd\<lparr>species_unclassified_pc :=
                     percent (species_unclassified rd) (number_of_reads rd)\<rparr>
         else rd\<lparr>species_unclassified := 0\<rparr>)"

definition kmer_stats_calculate_read ::
  "'c::zero KmerStats \<Rightarrow> 'c KmerStatsReadCounts \<Rightarrow> 'c KmerStatsReadCounts" where
  "kmer_stats_calculate_read stats rd =
     (let rd = rd\<lparr>k1_contaminaned_reads_pc :=
                   percent (k1_contaminated_reads rd) (number_of_reads rd)\<rparr>;
          rd = rd\<lparr>kn_contaminaned_reads_pc :=
                   percent (kn_contaminated_reads rd) (number_of_reads rd)\<rparr>
      in fold (calculate_read_body stats) [0..<n_contaminants stats] rd)"

text \<open>\<open>kmer_stats_calculate_both\<close>, on \<open>b = stats->both_reads\<close>.\<close>

definition calculate_both_body ::
  "'c::zero KmerStats \<Rightarrow> nat \<Rightarrow> 'c KmerStatsBothReads \<Rightarrow> 'c KmerStatsBothReads" where
  "calculate_both_body stats i b =
     (let b = b\<lparr>both_contaminant_kmers_seen_pc :=
                (both_contaminant_kmers_seen_pc b)
                  [i := percent (both_contaminant_kmers_seen b ! i) (contaminant_kmers stats ! i)]\<rparr>;
          b = b\<lparr>threshold_passed_reads_by_contaminant_pc :=
                (threshold_passed_reads_by_contaminant_pc b)
                  [i := percent (threshold_passed_reads_by_contaminant b ! i) (both_number_of_reads b)]\<rparr>;
          b = b\<lparr>k1_both_reads_not_threshold_by_contaminant_pc :=
                (k1_both_reads_not_threshold_by_contaminant_pc b)
                  [i := percent (k1_both_reads_not_threshold_by_contaminant b ! i)
                                (both_number_of_reads b)]\<rparr>;
          b = b\<lparr>k1_either_read_not_threshold_by_contaminant_pc :=
                (k1_either_read_not_threshold_by_contaminant_pc b)
                  [i := percent (k1_either_read_not_threshold_by_contaminant b ! i)
                                (both_number_of_reads b)]\<rparr>;
          b = b\<lparr>threshold_passed_reads_unique_by_contaminant_pc :=
                (threshold_passed_reads_unique_by_contaminant_pc b)
                  [i := percent (threshold_passed_reads_unique_by_contaminant b ! i)
                                (both_number_of_reads b)]\<rparr>;
          b = b\<lparr>k1_both_reads_not_threshold_unique_by_contaminant_pc :=
                (k1_both_reads_not_threshold_unique_by_contaminant_pc b)
                  [i := percent (k1_both_reads_not_threshold_unique_by_contaminant b ! i)
                                (both_number_of_reads b)]\<rparr>
      in b\<lparr>k1_either_read_not_threshold_unique_by_contaminant_pc :=
             (k1_either_read_not_threshold_unique_by_contaminant_pc b)
               [i := percent (k1_either_read_not_threshold_unique_by_contaminant b ! i)
                             (both_number_of_reads b)]\<rparr>)"

definition kmer_stats_calculate_both :: "'c::zero KmerStats \<Rightarrow> 'c KmerStats" where
  "kmer_stats_calculate_both stats =
     (let b = both_reads stats;
          b = b\<lparr>threshold_passed_reads_pc :=
                percent (threshold_passed_reads b) (both_number_of_reads b)\<rparr>;
          b = b\<lparr>k1_both_reads_not_threshold_pc :=
                percent (k1_both_reads_not_threshold b) (both_number_of_reads b)\<rparr>;
          b = b\<lparr>k1_either_read_not_threshold_pc :=
                percent (k1_either_read_not_threshold b) (both_number_of_reads b)\<rparr>;
          b = b\<lparr>threshold_passed_reads_pc_unique :=
                percent (threshold_passed_reads_unique b) (both_number_of_reads b)\<rparr>;
          b = b\<lparr>k1_both_reads_not_threshold_pc_unique :=
                percent (k1_both_reads_not_threshold_unique b) (both_number_of_reads b)\<rparr>;
          b = b\<lparr>k1_either_read_not_threshold_pc_unique :=
                percent (k1_either_read_not_threshold_unique b) (both_number_of_reads b)\<rparr>
      in stats\<lparr>both_reads := fold (calculate_both_body stats) [0..<n_contaminants stats] b\<rparr>)"

definition kmer_stats_calculate :: "'c::zero KmerStats \<Rightarrow> 'c KmerStats" where
  "kmer_stats_calculate stats =
     (let stats = stats\<lparr>read := (read stats)[0 := kmer_stats_calculate_read stats (read stats ! 0)]\<rparr>;
          stats = stats\<lparr>read := (read stats)[1 := kmer_stats_calculate_read stats (read stats ! 1)]\<rparr>
      in kmer_stats_calculate_both stats)"

section \<open>The similarity scan\<close>

text \<open>
  Modelled from the spec: \<open>Element\<close>, \<open>element_get_contaminant_bit\<close> (element.h) and
  \<open>HashTable\<close>, \<open>hash_table_traverse_with_data\<close> (hash\_table.h) are not among the
  sources. The spec gives a stored k-mer a contaminant-membership bitset, here the set of
  the contaminant indices whose bit is set, and has the traversal visit every distinct
  stored k-mer once: the table is the list of its elements, and the traversal applies the
  callback to each, threading \<open>data\<close>.
\<close>

type_synonym Element = "nat set"

type_synonym HashTable = "Element list"

definition element_get_contaminant_bit :: "Element \<Rightarrow> nat \<Rightarrow> int" where
  "element_get_contaminant_bit node i = (if i \<in> node then 1 else 0)"

definition hash_table_traverse_with_data :: "(Element \<Rightarrow> 'd \<Rightarrow> 'd) \<Rightarrow> 'd \<Rightarrow> HashTable \<Rightarrow> 'd" where
  "hash_table_traverse_with_data f data hash = fold f hash data"

text \<open>\<open>m[i][j]++\<close> on a two-dimensional array.\<close>

definition incr2 :: "nat \<Rightarrow> nat \<Rightarrow> 'c::semiring_1_cancel list list \<Rightarrow> 'c list list" where
  "incr2 i j m = m[i := incr j (m ! i)]"

text \<open>
  \<open>check_kmers_in_common\<close>: the body of the inner loop (on \<open>j\<close>), the body of the outer
  loop (on \<open>i\<close>), both on \<open>stats->kmers_in_common\<close>, and the function.
\<close>

definition common_inner :: "Element \<Rightarrow> nat \<Rightarrow> nat \<Rightarrow> 'c::semiring_1_cancel list list \<Rightarrow> 'c list list" where
  "common_inner node i j m =
     (if element_get_contaminant_bit node j > 0 then
        let m = incr2 i j m
        in if i \<noteq> j then incr2 j i m else m
      else m)"

definition common_outer :: "nat \<Rightarrow> Element \<Rightarrow> nat \<Rightarrow> 'c::semiring_1_cancel list list \<Rightarrow> 'c list list" where
  "common_outer n node i m =
     (if element_get_contaminant_bit node i > 0 then fold (common_inner node i) [i..<n] m else m)"

definition check_kmers_in_common :: "Element \<Rightarrow> 'c::semiring_1_cancel KmerStats \<Rightarrow> 'c KmerStats" where
  "check_kmers_in_common node stats =
     stats\<lparr>kmers_in_common :=
       fold (common_outer (n_contaminants stats) node) [0..<n_contaminants stats]
            (kmers_in_common stats)\<rparr>"

text \<open>
  \<open>check_unique_kmers\<close>: its loop on the locals \<open>(index, count)\<close>, which a second set
  bit leaves (\<open>break\<close>), and the function.
\<close>

fun unique_loop :: "Element \<Rightarrow> nat list \<Rightarrow> nat \<times> int \<Rightarrow> nat \<times> int" where
  "unique_loop node [] s = s"
| "unique_loop node (i # is) (index, count) =
     (if element_get_contaminant_bit node i > 0 then
        (if count + 1 > 1 then (i, count + 1) else unique_loop node is (i, count + 1))
      else unique_loop node is (index, count))"

definition check_unique_kmers :: "Element \<Rightarrow> 'c::semiring_1_cancel KmerStats \<Rightarrow> 'c KmerStats" where
  "check_unique_kmers node stats =
     (case unique_loop node [0..<n_contaminants stats] (0, 0) of
        (index, count) \<Rightarrow>
          if count = 1 then stats\<lparr>unique_kmers := incr index (unique_kmers stats)\<rparr> else stats)"

text \<open>The two traversals that \<open>kmer_stats_compare_contaminant_kmers\<close> makes.\<close>

definition scan_contaminant_kmers :: "HashTable \<Rightarrow> 'c::semiring_1_cancel KmerStats \<Rightarrow> 'c KmerStats" where
  "scan_contaminant_kmers hash stats =
     hash_table_traverse_with_data check_unique_kmers
       (hash_table_traverse_with_data check_kmers_in_common stats hash) hash"

section \<open>Output files\<close>

text \<open>
  What the two writers see of the C library, and what they do to the outside.
  \<open>malloc_ok k\<close> says whether the \<open>k\<close>-th \<open>malloc\<close> of a call returns memory and
  \<open>fopen_ok f\<close> whether \<open>fopen(f, "w")\<close> returns a stream. A call leaves a list of
  events, in order: a \<open>printf\<close>, or a file with the lines it holds when it is closed (a
  file that was opened and is still empty when \<open>exit\<close> closes it holds no line). A line is
  its cells, which the source separates with tabs or pads with \<open>%15s\<close>; the widths and
  the digits of \<open>%d\<close> and \<open>%.2f\<close> on counters are not modelled. The result is
  \<open>Inl code\<close> for \<open>exit(code)\<close> and \<open>Inr\<close> for a return.
\<close>

record libc =
  malloc_ok :: "nat \<Rightarrow> bool"
  fopen_ok :: "string \<Rightarrow> bool"

datatype 'c cell = Text string | Count 'c | Pc "'c pc"

datatype 'c event = Printed "'c cell list" | Wrote string "'c cell list list"

definition nl :: string where
  "nl = [CHR 0x0A]"

text \<open>\<open>%d\<close> on an \<open>int\<close>.\<close>

function decimal :: "nat \<Rightarrow> string" where
  "decimal n = (if n < 10 then [char_of (48 + n)] else decimal (n div 10) @ [char_of (48 + n mod 10)])"
  by pat_completeness auto
termination
  by (relation "measure id") auto

definition show_int :: "int \<Rightarrow> string" where
  "show_int k = (if k < 0 then CHR ''-'' # decimal (nat (- k)) else decimal (nat k))"

text \<open>The names \<open>sprintf\<close> builds.\<close>

definition similarity_files :: "CmdLine \<Rightarrow> string list" where
  "similarity_files cmd_line =
     [output_prefix cmd_line @ ''kmer_similarity_absolute.txt'',
      output_prefix cmd_line @ ''kmer_similarity_pc.txt'',
      output_prefix cmd_line @ ''kmer_unique_absolute.txt'',
      output_prefix cmd_line @ ''kmer_unique_pc.txt'']"

definition progress_files :: "CmdLine \<Rightarrow> nat \<Rightarrow> string list" where
  "progress_files cmd_line r =
     [progress_dir cmd_line @ ''/data_overall_r'' @ show_int (int r + 1) @ ''.txt'',
      progress_dir cmd_line @ ''/data_per_contaminant_r'' @ show_int (int r + 1) @ ''.txt'',
      progress_dir cmd_line @ ''/largest_contaminant_r'' @ show_int (int r + 1) @ ''.txt'']"

definition cannot_open :: "string \<Rightarrow> 'c event" where
  "cannot_open filename = Printed [Text (''Error: can'' @ [CHR 0x27] @ ''t open '' @ filename @ nl)]"

text \<open>
  \<open>kmer_stats_write_progress\<close>. One block of it:
  \<open>fp = fopen(filename, "w"); if (fp) { printf("Opening ..."); fprintf ...; fclose(fp); }
  else { printf("Error: can't open ..."); }\<close>
\<close>

definition write_or_report :: "libc \<Rightarrow> string \<Rightarrow> 'c cell list list \<Rightarrow> 'c event list" where
  "write_or_report c filename lines =
     (if fopen_ok c filename
      then [Printed [Text (''Opening '' @ filename @ nl)], Wrote filename lines]
      else [cannot_open filename])"

definition progress_of_read :: "libc \<Rightarrow> 'c KmerStats \<Rightarrow> CmdLine \<Rightarrow> nat \<Rightarrow> 'c event list" where
  "progress_of_read c stats cmd_line r =
     (let rd = read stats ! r;
          ids = map (\<lambda>i. contaminant_ids stats ! i) [0..<n_contaminants stats]
      in write_or_report c (progress_files cmd_line r ! 0)
           [[Text ''name'', Text ''value''],
            [Text ''Number of reads'', Count (number_of_reads rd)],
            [Text ''Number with k1 contaminants'', Count (k1_contaminated_reads rd)],
            [Text (''Number with k'' @ show_int (kmer_threshold_read cmd_line) @ '' contaminants''),
             Count (kn_contaminated_reads rd)]]
         @ write_or_report c (progress_files cmd_line r ! 1)
           ([Text ''name'', Text ''value'']
            # map (\<lambda>i. [Text (contaminant_ids stats ! i),
                          Count (kn_contaminated_reads_by_contaminant rd ! i)])
                  [0..<n_contaminants stats])
         @ write_or_report c (progress_files cmd_line r ! 2)
           ([Text ''name'', Text ''value'']
            # map (\<lambda>i. [Text (contaminant_ids stats ! i),
                          Count (reads_with_highest_contaminant rd ! i)])
                  [0..<n_contaminants stats]
            @ [[Text ''Unclassified'', Count (reads_unclassified rd)]]))"

definition kmer_stats_write_progress ::
  "libc \<Rightarrow> 'c KmerStats \<Rightarrow> CmdLine \<Rightarrow> 'c event list \<times> (nat + unit)" where
  "kmer_stats_write_progress c stats cmd_line =
     (let log = [Printed [Text (''Updating...'' @ nl)]]
      in if \<not> malloc_ok c 0
         then (log @ [Printed [Text (''Error: no room for filename'' @ nl)]], Inl 1)
         else (log @ concat (map (progress_of_read c stats cmd_line) [0..<number_of_files stats]),
               Inr ()))"

text \<open>
  \<open>kmer_stats_compare_contaminant_kmers\<close>: the four allocations, the four \<open>fopen\<close>s
  (each failure prints and calls \<open>exit(1)\<close>, which closes the files opened so far), and,
  once all four files are open, the scan and the tables.
\<close>

definition open_or_exit ::
  "libc \<Rightarrow> 'c event list \<Rightarrow> string list \<Rightarrow> 'c event list \<times> bool" where
  "open_or_exit c log filenames =
     fold (\<lambda>filename (log, ok).
             if \<not> ok then (log, ok)
             else if \<not> fopen_ok c filename then (log @ [cannot_open filename], False)
             else (log @ [Printed [Text (''Opened '' @ filename @ nl)]], True))
          filenames (log, True)"

definition similarity_tables :: "'c::zero KmerStats \<Rightarrow> CmdLine \<Rightarrow> 'c event list" where
  "similarity_tables stats cmd_line =
     (let n = n_contaminants stats;
          ids = map (\<lambda>i. Text (contaminant_ids stats ! i)) [0..<n];
          m = kmers_in_common stats;
          pc = (\<lambda>x i. if x \<noteq> 0 then percent x (contaminant_kmers stats ! i) else Zero)
      in [Printed (Text [] # ids)]
         @ map (\<lambda>i. Printed (Text (contaminant_ids stats ! i) # map (\<lambda>j. Count (m ! i ! j)) [0..<n]))
               [0..<n]
         @ [Wrote (similarity_files cmd_line ! 2)
              [Text [] # ids, map (\<lambda>i. Count (unique_kmers stats ! i)) [0..<n]],
            Wrote (similarity_files cmd_line ! 3)
              [Text [] # ids, map (\<lambda>i. Pc (pc (unique_kmers stats ! i) i)) [0..<n]],
            Wrote (similarity_files cmd_line ! 0)
              ((Text ''Contaminant'' # ids)
               # map (\<lambda>i. Text (contaminant_ids stats ! i) # map (\<lambda>j. Count (m ! i ! j)) [0..<n])
                     [0..<n]),
            Wrote (similarity_files cmd_line ! 1)
              ((Text ''Contaminant'' # ids)
               # map (\<lambda>i. Text (contaminant_ids stats ! i) # map (\<lambda>j. Pc (pc (m ! i ! j) i)) [0..<n])
                     [0..<n])])"

definition kmer_stats_compare_contaminant_kmers ::
  "libc \<Rightarrow> HashTable \<Rightarrow> 'c::semiring_1_cancel KmerStats \<Rightarrow> CmdLine
     \<Rightarrow> 'c event list \<times> (nat + 'c KmerStats)" where
  "kmer_stats_compare_contaminant_kmers c hash stats cmd_line =
     (if n_contaminants stats < 2 then ([], Inr stats)
      else
        let log = [Printed [Text (nl @ ''Comparing contaminant kmers...'' @ nl)]];
            no_room = Printed [Text (''Error: No room to store filename!'' @ nl)]
        in if \<not> malloc_ok c 0 then (log @ [no_room], Inl 1)
           else if \<not> malloc_ok c 1 then (log @ [no_room], Inl 1)
           else if \<not> malloc_ok c 2 then (log @ [no_room], Inl 1)
           else if \<not> malloc_ok c 3 then (log @ [no_room], Inl 1)
           else
             (case open_or_exit c log (similarity_files cmd_line) of
                (log, ok) \<Rightarrow>
                  if \<not> ok
                  then (log @ map (\<lambda>filename. Wrote filename [])
                                  (takeWhile (fopen_ok c) (similarity_files cmd_line)),
                        Inl 1)
                  else
                    let stats = scan_contaminant_kmers hash stats
                    in (log @ similarity_tables stats cmd_line, Inr stats)))"

chapter \<open>Vocabulary of the statements\<close>

section \<open>Runs of single-read classifications\<close>

text \<open>
  The callers of \<open>update_stats\<close> and \<open>update_stats_parallel\<close> are in other files. A
  run is a list of calls, each naming the variant (\<open>True\<close> for the parallel one), the mate
  index \<open>r\<close> and the hit counts of the read; \<open>classify_reads\<close> makes the calls in turn on
  one \<open>KmerStats\<close>.
\<close>

definition classify_read ::
  "nat \<Rightarrow> CmdLine \<Rightarrow> bool \<times> nat \<times> KmerCounts \<Rightarrow> 'c::semiring_1_cancel KmerStats
     \<Rightarrow> 'c KmerStats option" where
  "classify_read MAX_READ_LENGTH cmd_line call stats =
     (case call of (parallel, r, counts) \<Rightarrow>
        if parallel
        then map_option snd (update_stats_parallel MAX_READ_LENGTH r counts stats cmd_line)
        else Some (snd (update_stats MAX_READ_LENGTH r counts stats cmd_line)))"

definition classify_reads ::
  "nat \<Rightarrow> CmdLine \<Rightarrow> (bool \<times> nat \<times> KmerCounts) list \<Rightarrow> 'c::semiring_1_cancel KmerStats
     \<Rightarrow> 'c KmerStats option" where
  "classify_reads MAX_READ_LENGTH cmd_line calls stats =
     for_each calls (classify_read MAX_READ_LENGTH cmd_line) stats"

text \<open>The calls of a run that are for mate \<open>r\<close>.\<close>

definition calls_for :: "nat \<Rightarrow> (bool \<times> nat \<times> KmerCounts) list \<Rightarrow> nat" where
  "calls_for r calls = length (filter (\<lambda>call. fst (snd call) = r) calls)"

text \<open>
  The invariant of \<open>KmerStatsReadCounts\<close>: the unclassified reads and the reads assigned
  to a contaminant add up to the reads counted.
\<close>

definition reads_accounted :: "'c::semiring_1_cancel KmerStatsReadCounts \<Rightarrow> bool" where
  "reads_accounted rd \<longleftrightarrow>
     reads_unclassified rd + sum_list (reads_with_highest_contaminant rd) = number_of_reads rd"

text \<open>Two states of the structure with the same assignment counters.\<close>

definition same_assignment_counts ::
  "'c KmerStatsReadCounts \<Rightarrow> 'c KmerStatsReadCounts \<Rightarrow> bool" where
  "same_assignment_counts rd rd' \<longleftrightarrow>
     number_of_reads rd' = number_of_reads rd \<and>
     reads_unclassified rd' = reads_unclassified rd \<and>
     reads_with_highest_contaminant rd' = reads_with_highest_contaminant rd"

text \<open>
  What a call needs of the structure: its mutex is free, and the assignment array has a cell
  for every contaminant. \<open>stats_ready\<close> asks it of both mates, with the invariant.
\<close>

definition read_ready :: "nat \<Rightarrow> 'c::semiring_1_cancel KmerStatsReadCounts \<Rightarrow> bool" where
  "read_ready n rd \<longleftrightarrow> \<not> lock rd \<and> n \<le> length (reads_with_highest_contaminant rd)"

definition stats_ready :: "nat \<Rightarrow> 'c::semiring_1_cancel KmerStats \<Rightarrow> bool" where
  "stats_ready n stats \<longleftrightarrow> n_contaminants stats = n \<and> length (read stats) = 2 \<and>
     (\<forall>r<2. read_ready n (read stats ! r) \<and> reads_accounted (read stats ! r))"

text \<open>
  A \<open>KmerStats\<close> before \<open>kmer_stats_initialise\<close>: its own arrays have
  \<open>MAX_CONTAMINANTS\<close> cells, and nothing is allocated for the counters yet.
\<close>

definition blank_stats :: "nat \<Rightarrow> 'c::zero KmerStats" where
  "blank_stats MAX_CONTAMINANTS =
     \<lparr>stats_lock = False, n_contaminants = 0, number_of_files = 0,
      contaminant_ids = replicate MAX_CONTAMINANTS [],
      contaminant_kmers = replicate MAX_CONTAMINANTS 0,
      unique_kmers = replicate MAX_CONTAMINANTS 0,
      kmers_in_common = replicate MAX_CONTAMINANTS (replicate MAX_CONTAMINANTS 0),
      read = [], both_reads = calloc_KmerStatsBothReads 0\<rparr>"

text \<open>Two states of the structure with the same threshold counters.\<close>

definition same_threshold_counts ::
  "'c KmerStatsReadCounts \<Rightarrow> 'c KmerStatsReadCounts \<Rightarrow> bool" where
  "same_threshold_counts rd rd' \<longleftrightarrow>
     kn_contaminated_reads rd' = kn_contaminated_reads rd \<and>
     kn_contaminated_reads_by_contaminant rd' = kn_contaminated_reads_by_contaminant rd"

text \<open>
  The \<open>KmerStats\<close> that \<open>kmer_stats_initialise\<close> makes of a blank one, with
  \<open>n\<close> contaminants loaded (the loader, in another file, sets \<open>n_contaminants\<close>).
\<close>

definition loaded_stats :: "nat \<Rightarrow> nat \<Rightarrow> nat \<Rightarrow> 'c::zero KmerStats" where
  "loaded_stats MAX_CONTAMINANTS MAX_READ_LENGTH n =
     (case kmer_stats_initialise MAX_CONTAMINANTS MAX_READ_LENGTH (\<lambda>k. True)
             (blank_stats MAX_CONTAMINANTS)
             \<lparr>kmer_threshold_read = 0, kmer_threshold_overall = 0, filter_unique = False,
              output_prefix = [], progress_dir = []\<rparr> of
        Inr stats \<Rightarrow> stats\<lparr>n_contaminants := n\<rparr>
      | Inl code \<Rightarrow> blank_stats MAX_CONTAMINANTS)"

section \<open>What a pair does to the tier counters\<close>

text \<open>One set of locals of the paired loop, run over a list of contaminant indices.\<close>

definition tier_scan :: "CmdLine \<Rightarrow> int list \<Rightarrow> int list \<Rightarrow> nat list \<Rightarrow> tier \<Rightarrow> tier" where
  "tier_scan cmd_line as bs is st = fold (\<lambda>i. tier_body cmd_line (as ! i) (bs ! i) i) is st"

text \<open>
  A contaminant that the block of \<open>tier_body\<close> can count: it meets the thresholds, or
  one of the two \<open>one or more in ...\<close> conditions holds of it. For counts that are not
  negative this is: it meets the thresholds or has a k-mer in at least one mate.
\<close>

definition has_hit :: "CmdLine \<Rightarrow> int \<Rightarrow> int \<Rightarrow> bool" where
  "has_hit cmd_line a b \<longleftrightarrow>
     meets_thresholds cmd_line a b \<or> (a \<ge> 1 \<and> b \<ge> 1) \<or> (a \<ge> 1 \<and> b = 0) \<or> (a = 0 \<and> b \<ge> 1)"

definition any_hit :: "nat \<Rightarrow> CmdLine \<Rightarrow> int list \<Rightarrow> int list \<Rightarrow> bool" where
  "any_hit n cmd_line as bs \<longleftrightarrow> list_ex (\<lambda>i. has_hit cmd_line (as ! i) (bs ! i)) [0..<n]"

text \<open>
  The three scalar counters of the raw tier and of the unique tier; ``exactly one of the
  three went up by one''; and what the chain of \<open>if\<close>s after the loop does to them.
\<close>

definition raw_counters :: "'c KmerStatsBothReads \<Rightarrow> 'c \<times> 'c \<times> 'c" where
  "raw_counters b =
     (threshold_passed_reads b, k1_both_reads_not_threshold b, k1_either_read_not_threshold b)"

definition unique_counters :: "'c KmerStatsBothReads \<Rightarrow> 'c \<times> 'c \<times> 'c" where
  "unique_counters b =
     (threshold_passed_reads_unique b, k1_both_reads_not_threshold_unique b,
      k1_either_read_not_threshold_unique b)"

definition one_incremented :: "'c::semiring_1_cancel \<times> 'c \<times> 'c \<Rightarrow> 'c \<times> 'c \<times> 'c \<Rightarrow> bool" where
  "one_incremented old new \<longleftrightarrow>
     (case old of (x, y, z) \<Rightarrow>
        new = (x + 1, y, z) \<or> new = (x, y + 1, z) \<or> new = (x, y, z + 1))"

definition tier_count :: "tier \<Rightarrow> 'c::semiring_1_cancel \<times> 'c \<times> 'c \<Rightarrow> 'c \<times> 'c \<times> 'c" where
  "tier_count t c =
     (case c of (x, y, z) \<Rightarrow>
        if threshold_met t then (x + 1, y, z)
        else if one_in_both t > 0 then (x, y + 1, z)
        else if one_in_either t > 0 then (x, y, z + 1)
        else (x, y, z))"

section \<open>Runs of paired classifications\<close>

text \<open>
  A run of calls of \<open>update_stats_for_both\<close> and \<open>update_stats_for_both_parallel\<close>
  (\<open>True\<close> for the parallel one) on one \<open>KmerStats\<close>, each with the hit counts of the
  two mates.
\<close>

definition classify_pair ::
  "CmdLine \<Rightarrow> bool \<times> KmerCounts \<times> KmerCounts \<Rightarrow> 'c::semiring_1_cancel KmerStats
     \<Rightarrow> 'c KmerStats option" where
  "classify_pair cmd_line call stats =
     (case call of (parallel, counts_a, counts_b) \<Rightarrow>
        if parallel
        then map_option snd (update_stats_for_both_parallel stats cmd_line counts_a counts_b)
        else Some (snd (update_stats_for_both stats cmd_line counts_a counts_b)))"

definition classify_pairs ::
  "CmdLine \<Rightarrow> (bool \<times> KmerCounts \<times> KmerCounts) list \<Rightarrow> 'c::semiring_1_cancel KmerStats
     \<Rightarrow> 'c KmerStats option" where
  "classify_pairs cmd_line calls stats = for_each calls (classify_pair cmd_line) stats"

section \<open>The pair-level percentages\<close>

text \<open>
  The six per-contaminant counter arrays of \<open>KmerStatsBothReads\<close>, each with the array
  of its percentages; and two states of the structure with the same pair count and scalar
  percentages.
\<close>

definition pair_percentages :: "'c KmerStatsBothReads \<Rightarrow> ('c list \<times> 'c pc list) list" where
  "pair_percentages b =
     [(threshold_passed_reads_by_contaminant b, threshold_passed_reads_by_contaminant_pc b),
      (k1_both_reads_not_threshold_by_contaminant b, k1_both_reads_not_threshold_by_contaminant_pc b),
      (k1_either_read_not_threshold_by_contaminant b, k1_either_read_not_threshold_by_contaminant_pc b),
      (threshold_passed_reads_unique_by_contaminant b, threshold_passed_reads_unique_by_contaminant_pc b),
      (k1_both_reads_not_threshold_unique_by_contaminant b,
       k1_both_reads_not_threshold_unique_by_contaminant_pc b),
      (k1_either_read_not_threshold_unique_by_contaminant b,
       k1_either_read_not_threshold_unique_by_contaminant_pc b)]"

definition same_pair_totals :: "'c KmerStatsBothReads \<Rightarrow> 'c KmerStatsBothReads \<Rightarrow> bool" where
  "same_pair_totals b b' \<longleftrightarrow>
     both_number_of_reads b' = both_number_of_reads b \<and>
     threshold_passed_reads_pc b' = threshold_passed_reads_pc b \<and>
     k1_both_reads_not_threshold_pc b' = k1_both_reads_not_threshold_pc b \<and>
     k1_either_read_not_threshold_pc b' = k1_either_read_not_threshold_pc b \<and>
     threshold_passed_reads_pc_unique b' = threshold_passed_reads_pc_unique b \<and>
     k1_both_reads_not_threshold_pc_unique b' = k1_both_reads_not_threshold_pc_unique b \<and>
     k1_either_read_not_threshold_pc_unique b' = k1_either_read_not_threshold_pc_unique b"

section \<open>The co-occurrence matrix\<close>

text \<open>
  The matrix has at least \<open>n\<close> rows, and its first \<open>n\<close> rows at least \<open>n\<close> cells
  (\<open>kmers_in_common[MAX_CONTAMINANTS][MAX_CONTAMINANTS]\<close> with
  \<open>n_contaminants \<le> MAX_CONTAMINANTS\<close>).
\<close>

definition square_at_least :: "nat \<Rightarrow> 'c list list \<Rightarrow> bool" where
  "square_at_least n m \<longleftrightarrow> n \<le> length m \<and> list_all (\<lambda>row. n \<le> length row) (take n m)"

chapter \<open>Verification\<close>

section \<open>Cells, loops and locks\<close>

lemma length_incr [simp]: "length (incr i xs) = length xs"
  by (simp add: incr_def)

lemma nth_incr: "i < length xs \<Longrightarrow> incr i xs ! j = (if j = i then xs ! j + 1 else xs ! j)"
  by (simp add: incr_def)

lemma nth_incr_neq [simp]: "j \<noteq> i \<Longrightarrow> incr i xs ! j = xs ! j"
  by (simp add: incr_def)

lemma sum_list_incr: "i < length xs \<Longrightarrow> sum_list (incr i xs) = sum_list xs + 1"
  unfolding incr_def
proof (induction xs arbitrary: i)
  case Nil
  then show ?case by simp
next
  case (Cons x xs)
  then show ?case by (cases i) (simp_all add: ac_simps)
qed

lemma fold_invariant:
  "P s \<Longrightarrow> (\<And>i s. i \<in> set is \<Longrightarrow> P s \<Longrightarrow> P (f i s)) \<Longrightarrow> P (fold f is s)"
  by (induction "is" arbitrary: s) simp_all

lemma for_each_fold:
  "P s \<Longrightarrow> (\<And>i s. i \<in> set is \<Longrightarrow> P s \<Longrightarrow> bodyp i s = Some (body i s) \<and> P (body i s))
     \<Longrightarrow> for_each is bodyp s = Some (fold body is s) \<and> P (fold body is s)"
  by (induction "is" arbitrary: s) simp_all

lemma unlock_free: "\<not> lock rd \<Longrightarrow> rd\<lparr>lock := False\<rparr> = rd"
  by (cases rd) simp

lemma lock_count_read [simp]: "lock (count_read M c rd) = lock rd"
  by (simp add: count_read_def Let_def)

lemma count_read_parallel_eq:
  "\<not> lock rd \<Longrightarrow> count_read_parallel M c rd = Some (count_read M c rd)"
  by (cases rd) (simp add: count_read_parallel_def count_read_def pthread_mutex_lock_def pthread_mutex_unlock_def Let_def)

lemma k1_body_parallel_eq:
  "\<not> lock (snd (snd s)) \<Longrightarrow> k1_body_parallel c i s = Some (k1_body c i s) \<and> \<not> lock (snd (snd (k1_body c i s)))"
  by (cases s) (simp add: k1_body_parallel_def k1_body_def pthread_mutex_lock_def pthread_mutex_unlock_def Let_def unlock_free)

lemma k1_pass_parallel_eq:
  assumes "\<not> lock rd"
  shows "k1_pass_parallel n c rd = Some (k1_pass n c rd) \<and> \<not> lock (snd (snd (k1_pass n c rd)))"
proof -
  have "for_each [0..<n] (k1_body_parallel c) (no_best, no_best, rd)
          = Some (fold (k1_body c) [0..<n] (no_best, no_best, rd))
        \<and> \<not> lock (snd (snd (fold (k1_body c) [0..<n] (no_best, no_best, rd))))"
    by (rule for_each_fold [where P = "\<lambda>s. \<not> lock (snd (snd s))"])
       (simp_all add: assms k1_body_parallel_eq)
  then show ?thesis
    using assms
    by (auto simp add: k1_pass_parallel_def k1_pass_def pthread_mutex_lock_def
        pthread_mutex_unlock_def unlock_free split: prod.splits)
qed

lemma assign_read_parallel_eq:
  "\<not> lock rd \<Longrightarrow> assign_read_parallel l (c, rd) = Some (assign_read l (c, rd))
      \<and> \<not> lock (snd (assign_read l (c, rd)))"
  by (simp add: assign_read_parallel_def assign_read_def pthread_mutex_lock_def
        pthread_mutex_unlock_def unlock_free)

lemma kn_body_parallel_eq:
  "\<not> lock rd \<Longrightarrow> kn_body_parallel c cl i rd = Some (kn_body c cl i rd) \<and> \<not> lock (kn_body c cl i rd)"
  by (simp add: kn_body_parallel_def kn_body_def pthread_mutex_lock_def pthread_mutex_unlock_def Let_def unlock_free)

lemma kn_pass_parallel_eq:
  assumes "\<not> lock rd"
  shows "kn_pass_parallel n c cl rd = Some (kn_pass n c cl rd) \<and> \<not> lock (kn_pass n c cl rd)"
proof -
  have "for_each [0..<n] (kn_body_parallel c cl) rd = Some (fold (kn_body c cl) [0..<n] rd)
        \<and> \<not> lock (fold (kn_body c cl) [0..<n] rd)"
    by (rule for_each_fold [where P = "\<lambda>s. \<not> lock s"]) (simp_all add: assms kn_body_parallel_eq)
  then show ?thesis
    using assms
    by (simp add: kn_pass_parallel_def kn_pass_def pthread_mutex_lock_def
        pthread_mutex_unlock_def unlock_free Let_def)
qed

lemma update_stats_parallel_read_eq:
  assumes "\<not> lock rd"
  shows "update_stats_parallel_read M n c cl rd = Some (update_stats_read M n c cl rd)
         \<and> \<not> lock (snd (update_stats_read M n c cl rd))"
proof -
  obtain l u rd1 where k1: "k1_pass n c (count_read M c rd) = (l, u, rd1)"
    by (cases "k1_pass n c (count_read M c rd)") auto
  have l1: "\<not> lock (count_read M c rd)" using assms by simp
  from k1_pass_parallel_eq [OF l1, of n c] k1
  have p1: "k1_pass_parallel n c (count_read M c rd) = Some (l, u, rd1)" and l2: "\<not> lock rd1"
    by simp_all
  obtain c2 rd2 where a: "assign_read l (c, rd1) = (c2, rd2)"
    by (cases "assign_read l (c, rd1)") auto
  from assign_read_parallel_eq [OF l2, of l c] a
  have p2: "assign_read_parallel l (c, rd1) = Some (c2, rd2)" and l3: "\<not> lock rd2"
    by simp_all
  from kn_pass_parallel_eq [OF l3]
  have p3: "kn_pass_parallel n (assign_unique u c2) cl rd2 = Some (kn_pass n (assign_unique u c2) cl rd2)"
    and l4: "\<not> lock (kn_pass n (assign_unique u c2) cl rd2)"
    by simp_all
  show ?thesis
    using assms k1 p1 a p2 p3 l4
    by (simp add: update_stats_parallel_read_def update_stats_read_def count_read_parallel_eq Let_def)
qed

lemma update_stats_parallel_eq:
  "\<not> lock (read stats ! r) \<Longrightarrow>
   update_stats_parallel M r c stats cl = Some (update_stats M r c stats cl)"
  by (simp add: update_stats_parallel_def update_stats_def update_stats_parallel_read_eq split: prod.splits)

lemma k1_body_frame:
  "same_assignment_counts rd (snd (snd s)) \<Longrightarrow> same_assignment_counts rd (snd (snd (k1_body c i s)))"
  by (cases s) (simp add: k1_body_def same_assignment_counts_def Let_def)

lemma k1_body_bound:
  fixes s :: "best \<times> best \<times> 'c::semiring_1_cancel KmerStatsReadCounts"
  shows "i < n \<Longrightarrow> largest_kmers (fst s) = 0 \<or> largest_contaminant (fst s) < n \<Longrightarrow>
   largest_kmers (fst (k1_body c i s)) = 0 \<or> largest_contaminant (fst (k1_body c i s)) < n"
  by (cases s) (auto simp add: k1_body_def Let_def best_yet_def)

lemma k1_pass_frame:
  fixes rd :: "'c::semiring_1_cancel KmerStatsReadCounts"
  shows "same_assignment_counts rd (snd (snd (k1_pass n c rd))) \<and>
   (largest_kmers (fst (k1_pass n c rd)) = 0 \<or> largest_contaminant (fst (k1_pass n c rd)) < n)"
proof -
  let ?P = "\<lambda>s :: best \<times> best \<times> 'c KmerStatsReadCounts. same_assignment_counts rd (snd (snd s)) \<and>
                 (largest_kmers (fst s) = 0 \<or> largest_contaminant (fst s) < n)"
  have "?P (fold (k1_body c) [0..<n] (no_best, no_best, rd))"
  proof (rule fold_invariant [where P = ?P])
    show "?P (no_best, no_best, rd)"
      by (simp add: same_assignment_counts_def no_best_def)
  next
    fix i s assume "i \<in> set [0..<n]" and "?P s"
    then show "?P (k1_body c i s)"
      using k1_body_frame [of rd s c i] k1_body_bound [of i n s c] by simp
  qed
  then show ?thesis
    by (auto simp add: k1_pass_def same_assignment_counts_def no_best_def split: prod.splits)
qed

lemma kn_body_frame:
  "same_assignment_counts rd s \<Longrightarrow> same_assignment_counts rd (kn_body c cl i s)"
  by (simp add: kn_body_def same_assignment_counts_def Let_def)

lemma kn_pass_frame: "same_assignment_counts rd (kn_pass n c cl rd)"
proof -
  have "same_assignment_counts rd (fold (kn_body c cl) [0..<n] rd)"
    by (rule fold_invariant [where P = "same_assignment_counts rd"])
       (simp_all add: kn_body_frame, simp add: same_assignment_counts_def)
  then show ?thesis
    by (simp add: kn_pass_def same_assignment_counts_def Let_def)
qed

lemma update_stats_read_step:
  fixes rd :: "'c::semiring_1_cancel KmerStatsReadCounts"
  shows "\<exists>counts' rd'. update_stats_read M n counts cl rd = (counts', rd') \<and>
     number_of_reads rd' = number_of_reads rd + 1 \<and>
     ((reads_unclassified rd' = reads_unclassified rd + 1 \<and>
       reads_with_highest_contaminant rd' = reads_with_highest_contaminant rd \<and>
       assigned_contaminant counts' = - 1)
      \<or> (\<exists>b<n. reads_unclassified rd' = reads_unclassified rd \<and>
             reads_with_highest_contaminant rd' = incr b (reads_with_highest_contaminant rd) \<and>
             assigned_contaminant counts' = int b))"
proof -
  obtain l u rd1 where k1: "k1_pass n counts (count_read M counts rd) = (l, u, rd1)"
    by (cases "k1_pass n counts (count_read M counts rd)") auto
  from k1_pass_frame [of "count_read M counts rd" n counts] k1
  have f1: "same_assignment_counts (count_read M counts rd) rd1"
    and b: "largest_kmers l = 0 \<or> largest_contaminant l < n"
    by simp_all
  obtain c2 rd2 where a: "assign_read l (counts, rd1) = (c2, rd2)"
    by (cases "assign_read l (counts, rd1)") auto
  have f3: "same_assignment_counts rd2 (kn_pass n (assign_unique u c2) cl rd2)"
    by (rule kn_pass_frame)
  have u: "assigned_contaminant (assign_unique u c2) = assigned_contaminant c2"
    by (simp add: assign_unique_def)
  have res: "update_stats_read M n counts cl rd
               = (assign_unique u c2, kn_pass n (assign_unique u c2) cl rd2)"
    by (simp add: update_stats_read_def k1 a Let_def)
  show ?thesis
  proof (cases "largest_kmers l = 0")
    case True
    with a f1 f3 u show ?thesis
      unfolding res
      by (auto simp add: assign_read_def same_assignment_counts_def count_read_def Let_def)
  next
    case False
    with b have "largest_contaminant l < n" by simp
    with False a f1 f3 u show ?thesis
      unfolding res
      by (auto simp add: assign_read_def same_assignment_counts_def count_read_def Let_def)
  qed
qed

section \<open>Single-read classification keeps its books\<close>

lemma replicate_update_same: "(replicate m x)[i := x] = replicate m x"
  by (induction m arbitrary: i) (simp_all split: nat.splits)

lemma zero_cells_replicate [simp]: "zero_cells n (replicate m 0) = replicate m 0"
  unfolding zero_cells_def
  by (rule fold_invariant [where P = "\<lambda>ys. ys = replicate m 0"]) (simp_all add: replicate_update_same)

lemma update_stats_read_ready:
  "read_ready n rd \<Longrightarrow> read_ready n (snd (update_stats_read M n c cl rd))"
  using update_stats_read_step [of M n c cl rd] update_stats_parallel_read_eq [of rd M n c cl]
  by (auto simp add: read_ready_def)

lemma update_stats_read_accounted:
  assumes "read_ready n rd" "reads_accounted rd"
  shows "reads_accounted (snd (update_stats_read M n c cl rd))"
  using update_stats_read_step [of M n c cl rd] assms
  by (auto simp add: read_ready_def reads_accounted_def sum_list_incr ac_simps)

lemma initial_read_counts:
  "n \<le> MAXC \<Longrightarrow>
   read_ready n (kmer_stats_read_counts_initialise MAXC MAXR (calloc_KmerStatsReadCounts MAXC MAXR) :: 'c::semiring_1_cancel KmerStatsReadCounts)
   \<and> reads_accounted (kmer_stats_read_counts_initialise MAXC MAXR (calloc_KmerStatsReadCounts MAXC MAXR) :: 'c KmerStatsReadCounts)
   \<and> number_of_reads (kmer_stats_read_counts_initialise MAXC MAXR (calloc_KmerStatsReadCounts MAXC MAXR) :: 'c KmerStatsReadCounts) = 0"
  by (simp add: read_ready_def reads_accounted_def kmer_stats_read_counts_initialise_def calloc_KmerStatsReadCounts_def sum_list_replicate)

lemma classify_read_step:
  assumes "stats_ready n stats" "fst (snd call) < 2"
  shows "\<exists>stats'. classify_read M cl call stats = Some stats' \<and> stats_ready n stats' \<and>
           (\<forall>r<2. number_of_reads (read stats' ! r)
                     = number_of_reads (read stats ! r) + (if fst (snd call) = r then 1 else 0))"
proof -
  obtain p r c where call: "call = (p, r, c)" by (cases call) auto
  with assms have r: "r < 2" by simp
  let ?rd = "read stats ! r"
  obtain c' rd' where u: "update_stats_read M n c cl ?rd = (c', rd')"
    by (cases "update_stats_read M n c cl ?rd") auto
  from assms(1) r have rdy: "read_ready n ?rd" and acc: "reads_accounted ?rd"
    and n: "n_contaminants stats = n" and len: "length (read stats) = 2"
    by (simp_all add: stats_ready_def)
  have rdy': "read_ready n rd'" using update_stats_read_ready [OF rdy, of M c cl] u by simp
  have acc': "reads_accounted rd'" using update_stats_read_accounted [OF rdy acc, of M c cl] u by simp
  have nr: "number_of_reads rd' = number_of_reads ?rd + 1"
    using update_stats_read_step [of M n c cl ?rd] u by auto
  have res: "classify_read M cl call stats = Some (stats\<lparr>read := (read stats)[r := rd']\<rparr>)"
    using rdy u n
    by (cases p) (simp_all add: classify_read_def call update_stats_parallel_eq read_ready_def update_stats_def)
  have "stats_ready n (stats\<lparr>read := (read stats)[r := rd']\<rparr>)"
    using assms(1) rdy' acc' r len
    by (auto simp add: stats_ready_def nth_list_update)
  moreover have "\<forall>q<2. number_of_reads ((read stats)[r := rd'] ! q)
                     = number_of_reads (read stats ! q) + (if r = q then 1 else 0)"
    using nr len r by (auto simp add: nth_list_update)
  ultimately show ?thesis
    unfolding res by (simp add: call)
qed

lemma classify_reads_run:
  assumes "stats_ready n stats" "\<forall>call\<in>set calls. fst (snd call) < 2"
  shows "\<exists>stats'. classify_reads M cl calls stats = Some stats' \<and> stats_ready n stats' \<and>
           (\<forall>r<2. number_of_reads (read stats' ! r)
                     = number_of_reads (read stats ! r) + of_nat (calls_for r calls))"
  using assms
proof (induction calls arbitrary: stats)
  case Nil
  then show ?case by (simp add: classify_reads_def calls_for_def)
next
  case (Cons call calls)
  from Cons.prems have "fst (snd call) < 2" by simp
  from classify_read_step [OF Cons.prems(1) this, of M cl]
  obtain s1 where s1: "classify_read M cl call stats = Some s1" "stats_ready n s1"
    and n1: "\<forall>r<2. number_of_reads (read s1 ! r)
                     = number_of_reads (read stats ! r) + (if fst (snd call) = r then 1 else 0)"
    by blast
  from Cons.prems have "\<forall>call\<in>set calls. fst (snd call) < 2" by simp
  from Cons.IH [OF s1(2) this]
  obtain s2 where s2: "classify_reads M cl calls s1 = Some s2" "stats_ready n s2"
    and n2: "\<forall>r<2. number_of_reads (read s2 ! r)
                     = number_of_reads (read s1 ! r) + of_nat (calls_for r calls)"
    by blast
  have "classify_reads M cl (call # calls) stats = Some s2"
    using s1(1) s2(1) by (simp add: classify_reads_def)
  moreover have "\<forall>r<2. number_of_reads (read s2 ! r)
                     = number_of_reads (read stats ! r) + of_nat (calls_for r (call # calls))"
    using n1 n2 by (auto simp add: calls_for_def ac_simps)
  ultimately show ?case using s2(2) by blast
qed

lemma kmer_stats_initialise_ready:
  fixes stats0 :: "'c::semiring_1_cancel KmerStats"
  assumes "calloc_ok 0" "calloc_ok 1" "calloc_ok 2" "n \<le> MAXC"
  shows "\<exists>stats1. kmer_stats_initialise MAXC MAXR calloc_ok stats0 cmd0 = Inr stats1 \<and>
           stats_ready n (stats1\<lparr>n_contaminants := n\<rparr>) \<and>
           (\<forall>r<2. number_of_reads (read stats1 ! r) = 0)"
  using assms initial_read_counts [of n MAXC MAXR, where 'c = 'c]
  by (simp add: kmer_stats_initialise_def stats_ready_def Let_def nth_Cons split: nat.splits)

text \<open>
  C1. Start from \<open>kmer_stats_initialise\<close> (its three allocations succeeding) with at most
  \<open>MAX_CONTAMINANTS\<close> contaminants loaded, and make any run of calls of \<open>update_stats\<close>
  and \<open>update_stats_parallel\<close> on mates 0 and 1, then one more call on mate \<open>r\<close>. Every
  call returns; after the last one both structures satisfy
  \<open>reads_unclassified + (\<Sum> reads_with_highest_contaminant) = number_of_reads\<close>, with
  \<open>number_of_reads\<close> the number of calls made for that mate; and the last call has added
  one to \<open>number_of_reads\<close> of mate \<open>r\<close> and one to exactly one of
  \<open>reads_unclassified\<close> (the read is then annotated \<open>-1\<close>) and
  \<open>reads_with_highest_contaminant[best]\<close> (the read is then annotated \<open>best\<close>).
\<close>

theorem update_stats_accounts_for_every_read:
  fixes stats0 :: "'c::semiring_1_cancel KmerStats"
  assumes "calloc_ok 0 \<and> calloc_ok 1 \<and> calloc_ok 2"
    and "n \<le> MAX_CONTAMINANTS"
    and "\<forall>call\<in>set calls. fst (snd call) < 2"
    and "r < 2"
  shows "\<exists>stats1 s s'.
      kmer_stats_initialise MAX_CONTAMINANTS MAX_READ_LENGTH calloc_ok stats0 cmd0 = Inr stats1 \<and>
      classify_reads MAX_READ_LENGTH cmd_line calls (stats1\<lparr>n_contaminants := n\<rparr>) = Some s \<and>
      classify_read MAX_READ_LENGTH cmd_line (parallel, r, counts) s = Some s' \<and>
      classify_reads MAX_READ_LENGTH cmd_line (calls @ [(parallel, r, counts)])
        (stats1\<lparr>n_contaminants := n\<rparr>) = Some s' \<and>
      (\<forall>q<2. reads_accounted (read s' ! q) \<and>
              number_of_reads (read s' ! q) = of_nat (calls_for q (calls @ [(parallel, r, counts)]))) \<and>
      number_of_reads (read s' ! r) = number_of_reads (read s ! r) + 1 \<and>
      ((reads_unclassified (read s' ! r) = reads_unclassified (read s ! r) + 1 \<and>
        reads_with_highest_contaminant (read s' ! r) = reads_with_highest_contaminant (read s ! r) \<and>
        assigned_contaminant (fst (update_stats MAX_READ_LENGTH r counts s cmd_line)) = - 1)
       \<or> (\<exists>best<n.
             reads_unclassified (read s' ! r) = reads_unclassified (read s ! r) \<and>
             reads_with_highest_contaminant (read s' ! r)
               = incr best (reads_with_highest_contaminant (read s ! r)) \<and>
             assigned_contaminant (fst (update_stats MAX_READ_LENGTH r counts s cmd_line)) = int best))"
proof -
  let ?M = MAX_READ_LENGTH
  let ?call = "(parallel, r, counts)"
  from kmer_stats_initialise_ready [of calloc_ok n MAX_CONTAMINANTS ?M stats0 cmd0] assms(1,2)
  obtain stats1 where
    i: "kmer_stats_initialise MAX_CONTAMINANTS ?M calloc_ok stats0 cmd0 = Inr stats1"
    and rdy: "stats_ready n (stats1\<lparr>n_contaminants := n\<rparr>)"
    and z: "\<forall>r<2. number_of_reads (read stats1 ! r) = 0"
    by blast
  let ?init = "stats1\<lparr>n_contaminants := n\<rparr>"
  from classify_reads_run [OF rdy assms(3), of ?M cmd_line]
  obtain s where s: "classify_reads ?M cmd_line calls ?init = Some s" and srdy: "stats_ready n s"
    and sn: "\<forall>q<2. number_of_reads (read s ! q) = number_of_reads (read ?init ! q) + of_nat (calls_for q calls)"
    by blast
  have "\<forall>call\<in>set (calls @ [?call]). fst (snd call) < 2"
    using assms(3,4) by simp
  from classify_reads_run [OF rdy this, of ?M cmd_line]
  obtain s' where s': "classify_reads ?M cmd_line (calls @ [?call]) ?init = Some s'"
    and s'rdy: "stats_ready n s'"
    and s'n: "\<forall>q<2. number_of_reads (read s' ! q)
                 = number_of_reads (read ?init ! q) + of_nat (calls_for q (calls @ [?call]))"
    by blast
  have app: "for_each (xs @ ys) f a = (case for_each xs f a of None \<Rightarrow> None | Some b \<Rightarrow> for_each ys f b)"
    for xs ys :: "'x list" and f :: "'x \<Rightarrow> 'y \<Rightarrow> 'y option" and a
    by (induction xs arbitrary: a) (simp_all split: option.splits)
  have last: "classify_read ?M cmd_line ?call s = Some s'"
    using s s' by (simp add: classify_reads_def app split: option.splits)
  have acc: "\<forall>q<2. reads_accounted (read s' ! q) \<and>
              number_of_reads (read s' ! q) = of_nat (calls_for q (calls @ [?call]))"
    using s'rdy s'n z by (simp add: stats_ready_def)
  let ?rd = "read s ! r"
  from srdy assms(4) have sr: "n_contaminants s = n" "length (read s) = 2" "\<not> lock ?rd"
    by (simp_all add: stats_ready_def read_ready_def)
  from update_stats_read_step [of ?M n counts cmd_line ?rd]
  obtain c' rd' where u: "update_stats_read ?M n counts cmd_line ?rd = (c', rd')"
    and nr: "number_of_reads rd' = number_of_reads ?rd + 1"
    and ex: "(reads_unclassified rd' = reads_unclassified ?rd + 1 \<and>
       reads_with_highest_contaminant rd' = reads_with_highest_contaminant ?rd \<and>
       assigned_contaminant c' = - 1)
      \<or> (\<exists>b<n. reads_unclassified rd' = reads_unclassified ?rd \<and>
             reads_with_highest_contaminant rd' = incr b (reads_with_highest_contaminant ?rd) \<and>
             assigned_contaminant c' = int b)"
    by blast
  have us: "update_stats ?M r counts s cmd_line = (c', s\<lparr>read := (read s)[r := rd']\<rparr>)"
    using u sr by (simp add: update_stats_def)
  have "classify_read ?M cmd_line ?call s = Some (s\<lparr>read := (read s)[r := rd']\<rparr>)"
    using us sr by (cases parallel) (simp_all add: classify_read_def update_stats_parallel_eq)
  with last have s'eq: "s' = s\<lparr>read := (read s)[r := rd']\<rparr>" by simp
  have rd'eq: "read s' ! r = rd'"
    using sr assms(4) by (simp add: s'eq)
  have "kmer_stats_initialise MAX_CONTAMINANTS ?M calloc_ok stats0 cmd0 = Inr stats1 \<and>
      classify_reads ?M cmd_line calls ?init = Some s \<and>
      classify_read ?M cmd_line ?call s = Some s' \<and>
      classify_reads ?M cmd_line (calls @ [?call]) ?init = Some s' \<and>
      (\<forall>q<2. reads_accounted (read s' ! q) \<and>
              number_of_reads (read s' ! q) = of_nat (calls_for q (calls @ [?call]))) \<and>
      number_of_reads (read s' ! r) = number_of_reads (read s ! r) + 1 \<and>
      ((reads_unclassified (read s' ! r) = reads_unclassified (read s ! r) + 1 \<and>
        reads_with_highest_contaminant (read s' ! r) = reads_with_highest_contaminant (read s ! r) \<and>
        assigned_contaminant (fst (update_stats ?M r counts s cmd_line)) = - 1)
       \<or> (\<exists>best<n.
             reads_unclassified (read s' ! r) = reads_unclassified (read s ! r) \<and>
             reads_with_highest_contaminant (read s' ! r)
               = incr best (reads_with_highest_contaminant (read s ! r)) \<and>
             assigned_contaminant (fst (update_stats ?M r counts s cmd_line)) = int best))"
    using i s last s' acc nr ex
    unfolding rd'eq us fst_conv
    by blast
  then show ?thesis by blast
qed

theorem update_stats_accounts_for_every_read_witness:
  "((\<lambda>k::nat. True) 0 \<and> (\<lambda>k::nat. True) 1 \<and> (\<lambda>k::nat. True) 2) \<and>
   (2::nat) \<le> 2 \<and>
   list_all (\<lambda>call. fst (snd call) < 2) [(False, 1::nat, \<lparr>kmers_loaded = 0, contaminants_detected = 0,
        kmers_from_contaminant = [0, 0], unique_kmers_from_contaminant = [0, 0],
        assigned_contaminant = 0, unique_assigned_contaminant = 0\<rparr>)] \<and>
   (0::nat) < 2 \<and>
   (\<exists>stats1 s s'.
      kmer_stats_initialise 2 4 (\<lambda>k. True) (blank_stats 2 :: 32 word KmerStats)
        \<lparr>kmer_threshold_read = 1, kmer_threshold_overall = 2, filter_unique = False,
         output_prefix = [], progress_dir = []\<rparr> = Inr stats1 \<and>
      classify_reads 4 \<lparr>kmer_threshold_read = 1, kmer_threshold_overall = 2, filter_unique = False,
         output_prefix = [], progress_dir = []\<rparr>
        [(False, 1::nat, \<lparr>kmers_loaded = 0, contaminants_detected = 0,
        kmers_from_contaminant = [0, 0], unique_kmers_from_contaminant = [0, 0],
        assigned_contaminant = 0, unique_assigned_contaminant = 0\<rparr>)] (stats1\<lparr>n_contaminants := 2\<rparr>) = Some s \<and>
      classify_read 4 \<lparr>kmer_threshold_read = 1, kmer_threshold_overall = 2, filter_unique = False,
         output_prefix = [], progress_dir = []\<rparr> (True, 0, \<lparr>kmers_loaded = 3, contaminants_detected = 1,
        kmers_from_contaminant = [0, 3], unique_kmers_from_contaminant = [0, 3],
        assigned_contaminant = 0, unique_assigned_contaminant = 0\<rparr>) s = Some s' \<and>
      reads_accounted (read s' ! 0) \<and> reads_accounted (read s' ! 1) \<and>
      number_of_reads (read s' ! 0) = 1 \<and> number_of_reads (read s' ! 1) = 1)"
proof -
  let ?cmd = "\<lparr>kmer_threshold_read = 1, kmer_threshold_overall = 2, filter_unique = False,
         output_prefix = [], progress_dir = []\<rparr>"
  let ?c1 = "\<lparr>kmers_loaded = 0, contaminants_detected = 0,
        kmers_from_contaminant = [0, 0], unique_kmers_from_contaminant = [0, 0],
        assigned_contaminant = 0, unique_assigned_contaminant = 0\<rparr>"
  let ?c2 = "\<lparr>kmers_loaded = 3, contaminants_detected = 1,
        kmers_from_contaminant = [0, 3], unique_kmers_from_contaminant = [0, 3],
        assigned_contaminant = 0, unique_assigned_contaminant = 0\<rparr>"
  have h1: "(\<lambda>k::nat. True) 0 \<and> (\<lambda>k::nat. True) 1 \<and> (\<lambda>k::nat. True) 2" by simp
  have h2: "(2::nat) \<le> 2" by simp
  have h3: "\<forall>call\<in>set [(False, 1::nat, ?c1)]. fst (snd call) < 2" by simp
  have h4: "(0::nat) < 2" by simp
  from update_stats_accounts_for_every_read [OF h1 h2 h3 h4, of 4 "blank_stats 2 :: 32 word KmerStats" ?cmd ?cmd True ?c2]
  obtain stats1 s s' where
    a: "kmer_stats_initialise 2 4 (\<lambda>k. True) (blank_stats 2 :: 32 word KmerStats) ?cmd = Inr stats1"
       "classify_reads 4 ?cmd [(False, 1::nat, ?c1)] (stats1\<lparr>n_contaminants := 2\<rparr>) = Some s"
       "classify_read 4 ?cmd (True, 0, ?c2) s = Some s'"
    and b: "\<forall>q<2. reads_accounted (read s' ! q) \<and>
              number_of_reads (read s' ! q) = of_nat (calls_for q ([(False, 1::nat, ?c1)] @ [(True, 0, ?c2)]))"
    by blast
  from b have "reads_accounted (read s' ! 0) \<and> reads_accounted (read s' ! 1) \<and>
      number_of_reads (read s' ! 0) = 1 \<and> number_of_reads (read s' ! 1) = 1"
    by (simp add: calls_for_def)
  moreover have "list_all (\<lambda>call. fst (snd call) < 2) [(False, 1::nat, ?c1)]" by simp
  ultimately show ?thesis using a h1 h2 h4 by blast
qed

section \<open>The threshold tier of single-read classification\<close>

lemma kn_body_effect:
  fixes rd :: "'c::semiring_1_cancel KmerStatsReadCounts"
  assumes "j < length (kn_contaminated_reads_by_contaminant rd)"
  shows "kn_contaminated_reads_by_contaminant (kn_body c cl j rd) ! i
           = kn_contaminated_reads_by_contaminant rd ! i
             + (if i = j \<and> kmers_from_contaminant c ! j > kmer_threshold_read cl then 1 else 0)"
    and "length (kn_contaminated_reads_by_contaminant (kn_body c cl j rd))
           = length (kn_contaminated_reads_by_contaminant rd)"
    and "kn_contaminated_reads (kn_body c cl j rd) = kn_contaminated_reads rd"
  using assms by (simp_all add: kn_body_def Let_def nth_incr)

lemma kn_loop_effect:
  fixes rd :: "'c::semiring_1_cancel KmerStatsReadCounts"
  assumes "n \<le> length (kn_contaminated_reads_by_contaminant rd)"
  shows "length (kn_contaminated_reads_by_contaminant (fold (kn_body c cl) [0..<n] rd))
           = length (kn_contaminated_reads_by_contaminant rd)
       \<and> kn_contaminated_reads (fold (kn_body c cl) [0..<n] rd) = kn_contaminated_reads rd
       \<and> (\<forall>i. kn_contaminated_reads_by_contaminant (fold (kn_body c cl) [0..<n] rd) ! i
           = kn_contaminated_reads_by_contaminant rd ! i
             + (if i < n \<and> kmers_from_contaminant c ! i > kmer_threshold_read cl then 1 else 0))"
  using assms
proof (induction n)
  case 0
  then show ?case by simp
next
  case (Suc n)
  let ?rd = "fold (kn_body c cl) [0..<n] rd"
  from Suc have IH: "length (kn_contaminated_reads_by_contaminant ?rd)
           = length (kn_contaminated_reads_by_contaminant rd)"
       "kn_contaminated_reads ?rd = kn_contaminated_reads rd"
       "\<And>i. kn_contaminated_reads_by_contaminant ?rd ! i
           = kn_contaminated_reads_by_contaminant rd ! i
             + (if i < n \<and> kmers_from_contaminant c ! i > kmer_threshold_read cl then 1 else 0)"
    by simp_all
  have n: "n < length (kn_contaminated_reads_by_contaminant ?rd)"
    using Suc.prems IH(1) by simp
  show ?case
    using kn_body_effect [OF n, of c cl] IH
    by (auto simp add: less_Suc_eq)
qed

lemma k1_pass_threshold_frame:
  fixes rd :: "'c::semiring_1_cancel KmerStatsReadCounts"
  shows "same_threshold_counts rd (snd (snd (k1_pass n c rd)))"
proof -
  let ?P = "\<lambda>s :: best \<times> best \<times> 'c KmerStatsReadCounts. same_threshold_counts rd (snd (snd s))"
  have "?P (fold (k1_body c) [0..<n] (no_best, no_best, rd))"
    by (rule fold_invariant [where P = ?P])
       (auto simp add: same_threshold_counts_def k1_body_def Let_def)
  then show ?thesis
    by (auto simp add: k1_pass_def same_threshold_counts_def split: prod.splits)
qed

lemma update_stats_read_threshold:
  fixes rd :: "'c::semiring_1_cancel KmerStatsReadCounts"
  assumes "n \<le> length (kn_contaminated_reads_by_contaminant rd)"
  shows "kn_contaminated_reads (snd (update_stats_read M n c cl rd))
           = kn_contaminated_reads rd + (if kmers_loaded c \<ge> kmer_threshold_read cl then 1 else 0)"
    and "length (kn_contaminated_reads_by_contaminant (snd (update_stats_read M n c cl rd)))
           = length (kn_contaminated_reads_by_contaminant rd)"
    and "kn_contaminated_reads_by_contaminant (snd (update_stats_read M n c cl rd)) ! i
           = kn_contaminated_reads_by_contaminant rd ! i
             + (if kmers_loaded c \<ge> kmer_threshold_read cl \<and> i < n \<and>
                   kmers_from_contaminant c ! i > kmer_threshold_read cl then 1 else 0)"
proof -
  obtain l u rd1 where k1: "k1_pass n c (count_read M c rd) = (l, u, rd1)"
    by (cases "k1_pass n c (count_read M c rd)") auto
  from k1_pass_threshold_frame [of "count_read M c rd" n c] k1
  have f1: "kn_contaminated_reads rd1 = kn_contaminated_reads rd"
           "kn_contaminated_reads_by_contaminant rd1 = kn_contaminated_reads_by_contaminant rd"
    by (simp_all add: same_threshold_counts_def count_read_def Let_def)
  obtain c2 rd2 where a: "assign_read l (c, rd1) = (c2, rd2)"
    by (cases "assign_read l (c, rd1)") auto
  then have f2: "kn_contaminated_reads rd2 = kn_contaminated_reads rd"
           "kn_contaminated_reads_by_contaminant rd2 = kn_contaminated_reads_by_contaminant rd"
    and c2: "kmers_loaded c2 = kmers_loaded c" "kmers_from_contaminant c2 = kmers_from_contaminant c"
    using f1 by (auto simp add: assign_read_def split: if_splits)
  let ?c = "assign_unique u c2"
  have c3: "kmers_loaded ?c = kmers_loaded c" "kmers_from_contaminant ?c = kmers_from_contaminant c"
    using c2 by (simp_all add: assign_unique_def)
  have res: "snd (update_stats_read M n c cl rd) = kn_pass n ?c cl rd2"
    by (simp add: update_stats_read_def k1 a Let_def)
  have n: "n \<le> length (kn_contaminated_reads_by_contaminant rd2)"
    using assms f2 by simp
  note loop = kn_loop_effect [OF n, of ?c cl]
  show "kn_contaminated_reads (snd (update_stats_read M n c cl rd))
           = kn_contaminated_reads rd + (if kmers_loaded c \<ge> kmer_threshold_read cl then 1 else 0)"
    using loop f2 c3 by (simp add: res kn_pass_def Let_def)
  show "length (kn_contaminated_reads_by_contaminant (snd (update_stats_read M n c cl rd)))
           = length (kn_contaminated_reads_by_contaminant rd)"
    using loop f2 c3 by (simp add: res kn_pass_def Let_def)
  show "kn_contaminated_reads_by_contaminant (snd (update_stats_read M n c cl rd)) ! i
           = kn_contaminated_reads_by_contaminant rd ! i
             + (if kmers_loaded c \<ge> kmer_threshold_read cl \<and> i < n \<and>
                   kmers_from_contaminant c ! i > kmer_threshold_read cl then 1 else 0)"
    using loop f2 c3 by (simp add: res kn_pass_def Let_def)
qed

text \<open>
  C6. In \<open>update_stats\<close>, and in \<open>update_stats_parallel\<close> which returns the same
  result: \<open>kn_contaminated_reads\<close> goes up by one exactly when
  \<open>kmers_loaded \<ge> kmer_threshold_read\<close>, whatever the contaminants' counts; and
  \<open>kn_contaminated_reads_by_contaminant[i]\<close> goes up by one exactly when that gate passed,
  \<open>i < n_contaminants\<close> and \<open>kmers_from_contaminant[i] > kmer_threshold_read\<close>
  (strictly), and is unchanged otherwise.
\<close>

theorem update_stats_threshold_gates:
  fixes stats :: "'c::semiring_1_cancel KmerStats"
  assumes "r < length (read stats)"
    and "\<not> lock (read stats ! r)"
    and "n_contaminants stats \<le> length (kn_contaminated_reads_by_contaminant (read stats ! r))"
  shows "update_stats_parallel MAX_READ_LENGTH r counts stats cmd_line
           = Some (update_stats MAX_READ_LENGTH r counts stats cmd_line) \<and>
     kn_contaminated_reads (read (snd (update_stats MAX_READ_LENGTH r counts stats cmd_line)) ! r)
       = kn_contaminated_reads (read stats ! r)
         + (if kmers_loaded counts \<ge> kmer_threshold_read cmd_line then 1 else 0) \<and>
     (\<forall>i. kn_contaminated_reads_by_contaminant
             (read (snd (update_stats MAX_READ_LENGTH r counts stats cmd_line)) ! r) ! i
           = kn_contaminated_reads_by_contaminant (read stats ! r) ! i
             + (if kmers_loaded counts \<ge> kmer_threshold_read cmd_line \<and>
                   i < n_contaminants stats \<and>
                   kmers_from_contaminant counts ! i > kmer_threshold_read cmd_line
                then 1 else 0))"
proof -
  have "read (snd (update_stats MAX_READ_LENGTH r counts stats cmd_line)) ! r
          = snd (update_stats_read MAX_READ_LENGTH (n_contaminants stats) counts cmd_line (read stats ! r))"
    using assms(1) by (simp add: update_stats_def split: prod.splits)
  then show ?thesis
    using update_stats_read_threshold [OF assms(3), of MAX_READ_LENGTH counts cmd_line]
      update_stats_parallel_eq [OF assms(2), of MAX_READ_LENGTH counts cmd_line]
    by simp
qed

lemma read_loaded_stats:
  "read (loaded_stats MAXC MAXR n :: 'c::zero KmerStats)
     = [kmer_stats_read_counts_initialise MAXC MAXR (calloc_KmerStatsReadCounts MAXC MAXR),
        kmer_stats_read_counts_initialise MAXC MAXR (calloc_KmerStatsReadCounts MAXC MAXR)]"
  "n_contaminants (loaded_stats MAXC MAXR n :: 'c::zero KmerStats) = n"
  by (simp_all add: loaded_stats_def kmer_stats_initialise_def Let_def)

lemma initial_read_counts_fields:
  "lock (kmer_stats_read_counts_initialise MAXC MAXR (calloc_KmerStatsReadCounts MAXC MAXR)) = False"
  "kn_contaminated_reads (kmer_stats_read_counts_initialise MAXC MAXR (calloc_KmerStatsReadCounts MAXC MAXR)) = 0"
  "kn_contaminated_reads_by_contaminant (kmer_stats_read_counts_initialise MAXC MAXR (calloc_KmerStatsReadCounts MAXC MAXR)) = replicate MAXC 0"
  by (simp_all add: kmer_stats_read_counts_initialise_def calloc_KmerStatsReadCounts_def)

theorem update_stats_threshold_gates_witness:
  "0 < length (read (loaded_stats 2 4 2 :: 32 word KmerStats)) \<and>
   \<not> lock (read (loaded_stats 2 4 2 :: 32 word KmerStats) ! 0) \<and>
   n_contaminants (loaded_stats 2 4 2 :: 32 word KmerStats)
     \<le> length (kn_contaminated_reads_by_contaminant (read (loaded_stats 2 4 2 :: 32 word KmerStats) ! 0)) \<and>
   kn_contaminated_reads (read (snd (update_stats 4 0
       \<lparr>kmers_loaded = 8, contaminants_detected = 2, kmers_from_contaminant = [3, 5],
        unique_kmers_from_contaminant = [0, 0], assigned_contaminant = 0,
        unique_assigned_contaminant = 0\<rparr>
       (loaded_stats 2 4 2 :: 32 word KmerStats)
       \<lparr>kmer_threshold_read = 3, kmer_threshold_overall = 6, filter_unique = False,
        output_prefix = [], progress_dir = []\<rparr>)) ! 0) = 1 \<and>
   kn_contaminated_reads_by_contaminant (read (snd (update_stats 4 0
       \<lparr>kmers_loaded = 8, contaminants_detected = 2, kmers_from_contaminant = [3, 5],
        unique_kmers_from_contaminant = [0, 0], assigned_contaminant = 0,
        unique_assigned_contaminant = 0\<rparr>
       (loaded_stats 2 4 2 :: 32 word KmerStats)
       \<lparr>kmer_threshold_read = 3, kmer_threshold_overall = 6, filter_unique = False,
        output_prefix = [], progress_dir = []\<rparr>)) ! 0) ! 0 = 0 \<and>
   kn_contaminated_reads_by_contaminant (read (snd (update_stats 4 0
       \<lparr>kmers_loaded = 8, contaminants_detected = 2, kmers_from_contaminant = [3, 5],
        unique_kmers_from_contaminant = [0, 0], assigned_contaminant = 0,
        unique_assigned_contaminant = 0\<rparr>
       (loaded_stats 2 4 2 :: 32 word KmerStats)
       \<lparr>kmer_threshold_read = 3, kmer_threshold_overall = 6, filter_unique = False,
        output_prefix = [], progress_dir = []\<rparr>)) ! 0) ! 1 = 1"
proof -
  let ?s = "loaded_stats 2 4 2 :: 32 word KmerStats"
  have h1: "0 < length (read ?s)"
    by (simp add: read_loaded_stats)
  have h2: "\<not> lock (read ?s ! 0)"
    by (simp add: read_loaded_stats initial_read_counts_fields)
  have h3: "n_contaminants ?s \<le> length (kn_contaminated_reads_by_contaminant (read ?s ! 0))"
    by (simp add: read_loaded_stats initial_read_counts_fields)
  show ?thesis
    using h1 h2 h3 update_stats_threshold_gates [OF h1 h2 h3, of 4
       "\<lparr>kmers_loaded = 8, contaminants_detected = 2, kmers_from_contaminant = [3, 5],
        unique_kmers_from_contaminant = [0, 0], assigned_contaminant = 0,
        unique_assigned_contaminant = 0\<rparr>"
       "\<lparr>kmer_threshold_read = 3, kmer_threshold_overall = 6, filter_unique = False,
        output_prefix = [], progress_dir = []\<rparr>"]
    by (simp add: read_loaded_stats initial_read_counts_fields)
qed

section \<open>The lock-protected variants\<close>

lemma unlock_both_free: "\<not> both_lock b \<Longrightarrow> b\<lparr>both_lock := False\<rparr> = b"
  by (cases b) simp

lemma count_raw_parallel_eq:
  "\<not> both_lock b \<Longrightarrow>
   count_raw_parallel cl raw (flag, b) = Some (count_raw cl raw (flag, b)) \<and>
   \<not> both_lock (snd (count_raw cl raw (flag, b)))"
  by (simp add: count_raw_parallel_def count_raw_def pthread_mutex_lock_both_def
        pthread_mutex_unlock_both_def unlock_both_free)

lemma count_unique_parallel_eq:
  "\<not> both_lock b \<Longrightarrow>
   count_unique_parallel un (flag, b) = Some (count_unique un (flag, b)) \<and>
   \<not> both_lock (snd (count_unique un (flag, b)))"
  by (simp add: count_unique_parallel_def count_unique_def pthread_mutex_lock_both_def
        pthread_mutex_unlock_both_def unlock_both_free)

lemma update_stats_for_both_parallel_eq:
  assumes "\<not> both_lock (both_reads stats)"
  shows "update_stats_for_both_parallel stats cl ca cb = Some (update_stats_for_both stats cl ca cb)"
proof -
  obtain raw un where sc: "pair_scan (n_contaminants stats) cl ca cb = (raw, un)"
    by (cases "pair_scan (n_contaminants stats) cl ca cb") auto
  obtain f1 b1 where r: "count_raw cl raw (False, both_reads stats) = (f1, b1)"
    by (cases "count_raw cl raw (False, both_reads stats)") auto
  from count_raw_parallel_eq [OF assms, of cl raw False] r
  have p1: "count_raw_parallel cl raw (False, both_reads stats) = Some (f1, b1)"
    and l1: "\<not> both_lock b1" by simp_all
  from count_unique_parallel_eq [OF l1, of un f1]
  have p2: "count_unique_parallel un (f1, b1) = Some (count_unique un (f1, b1))" by simp
  show ?thesis
    by (simp add: update_stats_for_both_parallel_def update_stats_for_both_def sc r p1 p2
          split: prod.splits)
qed

lemma both_reads_loaded_stats:
  "both_reads (loaded_stats MAXC MAXR n :: 'c::zero KmerStats)
     = kmer_stats_both_reads_initialise MAXC (calloc_KmerStatsBothReads MAXC)"
  by (simp add: loaded_stats_def kmer_stats_initialise_def Let_def)

lemma both_lock_initial:
  "both_lock (kmer_stats_both_reads_initialise MAXC (calloc_KmerStatsBothReads MAXC)) = False"
  by (simp add: kmer_stats_both_reads_initialise_def)

text \<open>
  C2. In the execution of one thread, on a structure whose mutex is free, each
  lock-protected variant returns, and returns what the serial variant returns: the same
  \<open>KmerStats\<close> (mutexes free again), the same annotated \<open>counts\<close> for
  \<open>update_stats_parallel\<close>, the same boolean for \<open>update_stats_for_both_parallel\<close>.
\<close>

theorem parallel_variants_equal_serial:
  fixes stats :: "'c::semiring_1_cancel KmerStats"
  assumes "r < length (read stats)"
    and "\<not> lock (read stats ! r)" and "\<not> both_lock (both_reads stats)"
  shows "update_stats_parallel MAX_READ_LENGTH r counts stats cmd_line
           = Some (update_stats MAX_READ_LENGTH r counts stats cmd_line) \<and>
         update_stats_for_both_parallel stats cmd_line counts_a counts_b
           = Some (update_stats_for_both stats cmd_line counts_a counts_b)"
  using assms by (simp add: update_stats_parallel_eq update_stats_for_both_parallel_eq)

theorem parallel_variants_equal_serial_witness:
  "0 < length (read (loaded_stats 2 4 2 :: 32 word KmerStats)) \<and>
   \<not> lock (read (loaded_stats 2 4 2 :: 32 word KmerStats) ! 0) \<and>
   \<not> both_lock (both_reads (loaded_stats 2 4 2 :: 32 word KmerStats)) \<and>
   update_stats_parallel 4 0
       \<lparr>kmers_loaded = 8, contaminants_detected = 2, kmers_from_contaminant = [3, 5],
        unique_kmers_from_contaminant = [1, 2], assigned_contaminant = 0,
        unique_assigned_contaminant = 0\<rparr>
       (loaded_stats 2 4 2 :: 32 word KmerStats)
       \<lparr>kmer_threshold_read = 3, kmer_threshold_overall = 6, filter_unique = False,
        output_prefix = [], progress_dir = []\<rparr>
     = Some (update_stats 4 0
       \<lparr>kmers_loaded = 8, contaminants_detected = 2, kmers_from_contaminant = [3, 5],
        unique_kmers_from_contaminant = [1, 2], assigned_contaminant = 0,
        unique_assigned_contaminant = 0\<rparr>
       (loaded_stats 2 4 2 :: 32 word KmerStats)
       \<lparr>kmer_threshold_read = 3, kmer_threshold_overall = 6, filter_unique = False,
        output_prefix = [], progress_dir = []\<rparr>) \<and>
   update_stats_for_both_parallel (loaded_stats 2 4 2 :: 32 word KmerStats)
       \<lparr>kmer_threshold_read = 3, kmer_threshold_overall = 6, filter_unique = False,
        output_prefix = [], progress_dir = []\<rparr>
       \<lparr>kmers_loaded = 8, contaminants_detected = 2, kmers_from_contaminant = [3, 5],
        unique_kmers_from_contaminant = [1, 2], assigned_contaminant = 0,
        unique_assigned_contaminant = 0\<rparr>
       \<lparr>kmers_loaded = 9, contaminants_detected = 1, kmers_from_contaminant = [0, 4],
        unique_kmers_from_contaminant = [0, 4], assigned_contaminant = 0,
        unique_assigned_contaminant = 0\<rparr>
     = Some (update_stats_for_both (loaded_stats 2 4 2 :: 32 word KmerStats)
       \<lparr>kmer_threshold_read = 3, kmer_threshold_overall = 6, filter_unique = False,
        output_prefix = [], progress_dir = []\<rparr>
       \<lparr>kmers_loaded = 8, contaminants_detected = 2, kmers_from_contaminant = [3, 5],
        unique_kmers_from_contaminant = [1, 2], assigned_contaminant = 0,
        unique_assigned_contaminant = 0\<rparr>
       \<lparr>kmers_loaded = 9, contaminants_detected = 1, kmers_from_contaminant = [0, 4],
        unique_kmers_from_contaminant = [0, 4], assigned_contaminant = 0,
        unique_assigned_contaminant = 0\<rparr>)"
proof -
  let ?s = "loaded_stats 2 4 2 :: 32 word KmerStats"
  have h1: "0 < length (read ?s)"
    by (simp add: read_loaded_stats)
  have h2: "\<not> lock (read ?s ! 0)"
    by (simp add: read_loaded_stats initial_read_counts_fields)
  have h3: "\<not> both_lock (both_reads ?s)"
    by (simp add: both_reads_loaded_stats both_lock_initial)
  from h1 h2 h3 parallel_variants_equal_serial [OF h1 h2 h3]
  show ?thesis by blast
qed

section \<open>Paired classification: tiers, counters and the filter decision\<close>

lemma fold_pair_body:
  "fold (pair_body cl ca cb) is (raw, un)
     = (tier_scan cl (kmers_from_contaminant ca) (kmers_from_contaminant cb) is raw,
        tier_scan cl (unique_kmers_from_contaminant ca) (unique_kmers_from_contaminant cb) is un)"
  by (induction "is" arbitrary: raw un) (simp_all add: tier_scan_def pair_body_def)

lemma pair_scan_tiers:
  "pair_scan n cl ca cb
     = (tier_scan cl (kmers_from_contaminant ca) (kmers_from_contaminant cb) [0..<n] no_tier,
        tier_scan cl (unique_kmers_from_contaminant ca) (unique_kmers_from_contaminant cb) [0..<n] no_tier)"
  by (simp add: pair_scan_def fold_pair_body)

lemma tier_scan_Cons:
  "tier_scan cl as bs (i # is) st = tier_scan cl as bs is (tier_body cl (as ! i) (bs ! i) i st)"
  by (simp add: tier_scan_def)

lemma tier_scan_Nil: "tier_scan cl as bs [] st = st"
  by (simp add: tier_scan_def)

lemma threshold_met_tier_body:
  "threshold_met (tier_body cl a b i st) \<longleftrightarrow> threshold_met st \<or> meets_thresholds cl a b"
  by (simp add: tier_body_def Let_def)

lemma threshold_met_tier_scan:
  "threshold_met (tier_scan cl as bs is st)
     \<longleftrightarrow> threshold_met st \<or> (\<exists>i\<in>set is. meets_thresholds cl (as ! i) (bs ! i))"
  by (induction "is" arbitrary: st) (auto simp add: tier_scan_Cons tier_scan_Nil threshold_met_tier_body)

lemma tier_body_unmet:
  assumes "\<not> threshold_met st" "\<not> meets_thresholds cl a b"
  shows "one_in_both (tier_body cl a b i st) = one_in_both st + (if a \<ge> 1 \<and> b \<ge> 1 then 1 else 0)"
    and "one_in_either (tier_body cl a b i st)
           = one_in_either st + (if (a \<ge> 1 \<and> b = 0) \<or> (a = 0 \<and> b \<ge> 1) then 1 else 0)"
  using assms by (auto simp add: tier_body_def Let_def)

lemma tier_scan_unmet:
  assumes "\<not> threshold_met (tier_scan cl as bs is st)"
  shows "one_in_both (tier_scan cl as bs is st)
           = one_in_both st + int (length (filter (\<lambda>i. as ! i \<ge> 1 \<and> bs ! i \<ge> 1) is))
       \<and> one_in_either (tier_scan cl as bs is st)
           = one_in_either st
             + int (length (filter (\<lambda>i. (as ! i \<ge> 1 \<and> bs ! i = 0) \<or> (as ! i = 0 \<and> bs ! i \<ge> 1)) is))"
  using assms
proof (induction "is" arbitrary: st)
  case Nil
  then show ?case by (simp add: tier_scan_Nil)
next
  case (Cons i "is")
  from Cons.prems have u: "\<not> threshold_met st" "\<not> meets_thresholds cl (as ! i) (bs ! i)"
    by (simp_all add: threshold_met_tier_scan)
  from Cons.prems have "\<not> threshold_met (tier_scan cl as bs is (tier_body cl (as ! i) (bs ! i) i st))"
    by (simp add: tier_scan_Cons)
  from Cons.IH [OF this] tier_body_unmet [OF u, of i]
  show ?case by (simp add: tier_scan_Cons)
qed

lemma tier_scan_outcome:
  assumes "one_in_both st = 0" "one_in_either st = 0" "\<not> threshold_met st"
  shows "threshold_met (tier_scan cl as bs is st) \<or> one_in_both (tier_scan cl as bs is st) > 0
           \<or> one_in_either (tier_scan cl as bs is st) > 0
         \<longleftrightarrow> (\<exists>i\<in>set is. has_hit cl (as ! i) (bs ! i))"
proof (cases "threshold_met (tier_scan cl as bs is st)")
  case True
  then show ?thesis
    using assms by (auto simp add: threshold_met_tier_scan has_hit_def)
next
  case False
  from False have nm: "\<forall>i\<in>set is. \<not> meets_thresholds cl (as ! i) (bs ! i)"
    by (simp add: threshold_met_tier_scan)
  from tier_scan_unmet [OF False] assms
  have ob: "one_in_both (tier_scan cl as bs is st) > 0
              \<longleftrightarrow> (\<exists>i\<in>set is. as ! i \<ge> 1 \<and> bs ! i \<ge> 1)"
    and oe: "one_in_either (tier_scan cl as bs is st) > 0
              \<longleftrightarrow> (\<exists>i\<in>set is. (as ! i \<ge> 1 \<and> bs ! i = 0) \<or> (as ! i = 0 \<and> bs ! i \<ge> 1))"
    by (simp_all add: filter_empty_conv)
  show ?thesis
    unfolding ob oe has_hit_def using False nm by blast
qed

lemma count_raw_counters:
  fixes b :: "'c::semiring_1_cancel KmerStatsBothReads"
  shows "raw_counters (snd (count_raw cl raw (flag, b))) = tier_count raw (raw_counters b)"
    and "unique_counters (snd (count_raw cl raw (flag, b))) = unique_counters b"
  by (simp_all add: count_raw_def raw_counters_def unique_counters_def tier_count_def)

lemma count_unique_counters:
  fixes b :: "'c::semiring_1_cancel KmerStatsBothReads"
  shows "unique_counters (snd (count_unique un (flag, b))) = tier_count un (unique_counters b)"
    and "raw_counters (snd (count_unique un (flag, b))) = raw_counters b"
  by (simp_all add: count_unique_def raw_counters_def unique_counters_def tier_count_def)

lemma tier_counted:
  fixes c :: "'c::semiring_1_cancel \<times> 'c \<times> 'c"
  assumes "t = tier_scan cl as bs [0..<n] no_tier"
  shows "(if any_hit n cl as bs then one_incremented c (tier_count t c) else tier_count t c = c)"
proof -
  have "threshold_met t \<or> one_in_both t > 0 \<or> one_in_either t > 0 \<longleftrightarrow> any_hit n cl as bs"
    unfolding assms any_hit_def list_ex_iff
    by (rule tier_scan_outcome) (simp_all add: no_tier_def)
  then show ?thesis
    by (cases c) (auto simp add: one_incremented_def tier_count_def)
qed

text \<open>
  C3, as the code has it. A pair in which some contaminant \<open>i < n_contaminants\<close> meets
  the thresholds or has a k-mer in at least one mate adds one to exactly one of
  \<open>threshold_passed_reads\<close>, \<open>k1_both_reads_not_threshold\<close> and
  \<open>k1_either_read_not_threshold\<close>; a pair with no such contaminant leaves the three as
  they are (the chain of \<open>if\<close>s has no final \<open>else\<close>). The same holds of the three
  unique-tier counters, on the unique counts.
\<close>

theorem update_stats_for_both_counts_at_most_one:
  fixes stats :: "'c::semiring_1_cancel KmerStats"
  shows "(if any_hit (n_contaminants stats) cmd_line
               (kmers_from_contaminant counts_a) (kmers_from_contaminant counts_b)
          then one_incremented (raw_counters (both_reads stats))
                 (raw_counters (both_reads (snd (update_stats_for_both stats cmd_line counts_a counts_b))))
          else raw_counters (both_reads (snd (update_stats_for_both stats cmd_line counts_a counts_b)))
                 = raw_counters (both_reads stats)) \<and>
         (if any_hit (n_contaminants stats) cmd_line
               (unique_kmers_from_contaminant counts_a) (unique_kmers_from_contaminant counts_b)
          then one_incremented (unique_counters (both_reads stats))
                 (unique_counters (both_reads (snd (update_stats_for_both stats cmd_line counts_a counts_b))))
          else unique_counters (both_reads (snd (update_stats_for_both stats cmd_line counts_a counts_b)))
                 = unique_counters (both_reads stats))"
proof -
  let ?n = "n_contaminants stats"
  let ?raw = "tier_scan cmd_line (kmers_from_contaminant counts_a) (kmers_from_contaminant counts_b) [0..<?n] no_tier"
  let ?un = "tier_scan cmd_line (unique_kmers_from_contaminant counts_a) (unique_kmers_from_contaminant counts_b) [0..<?n] no_tier"
  let ?b = "both_reads stats"
  obtain f1 b1 where r: "count_raw cmd_line ?raw (False, ?b) = (f1, b1)"
    by (cases "count_raw cmd_line ?raw (False, ?b)") auto
  obtain f2 b2 where u: "count_unique ?un (f1, b1) = (f2, b2)"
    by (cases "count_unique ?un (f1, b1)") auto
  have res: "both_reads (snd (update_stats_for_both stats cmd_line counts_a counts_b)) = b2"
    by (simp add: update_stats_for_both_def pair_scan_tiers r u)
  have raw: "raw_counters b2 = tier_count ?raw (raw_counters ?b)"
    using count_unique_counters(2) [of ?un f1 b1] count_raw_counters(1) [of cmd_line ?raw False ?b] r u
    by simp
  have un: "unique_counters b2 = tier_count ?un (unique_counters ?b)"
    using count_unique_counters(1) [of ?un f1 b1] count_raw_counters(2) [of cmd_line ?raw False ?b] r u
    by simp
  show ?thesis
    unfolding res raw un
    using tier_counted [OF refl, of ?n cmd_line "kmers_from_contaminant counts_a"
        "kmers_from_contaminant counts_b" "raw_counters ?b"]
      tier_counted [OF refl, of ?n cmd_line "unique_kmers_from_contaminant counts_a"
        "unique_kmers_from_contaminant counts_b" "unique_counters ?b"]
    by simp
qed

text \<open>
  C3 as stated fails: a pair without a single contaminant k-mer in either mate
  increments none of the three raw-tier counters.
\<close>

theorem no_hit_pair_counts_nothing:
  "\<not> one_incremented
       (raw_counters (both_reads (loaded_stats 2 4 2 :: 32 word KmerStats)))
       (raw_counters (both_reads (snd (update_stats_for_both
          (loaded_stats 2 4 2 :: 32 word KmerStats)
          \<lparr>kmer_threshold_read = 1, kmer_threshold_overall = 2, filter_unique = False,
           output_prefix = [], progress_dir = []\<rparr>
          \<lparr>kmers_loaded = 5, contaminants_detected = 0, kmers_from_contaminant = [0, 0],
           unique_kmers_from_contaminant = [0, 0], assigned_contaminant = - 1,
           unique_assigned_contaminant = - 1\<rparr>
          \<lparr>kmers_loaded = 5, contaminants_detected = 0, kmers_from_contaminant = [0, 0],
           unique_kmers_from_contaminant = [0, 0], assigned_contaminant = - 1,
           unique_assigned_contaminant = - 1\<rparr>))))"
  by code_simp

theorem update_stats_for_both_counts_at_most_one_witness:
  "any_hit 2 \<lparr>kmer_threshold_read = 3, kmer_threshold_overall = 6, filter_unique = False,
           output_prefix = [], progress_dir = []\<rparr> [1, 0] [0, 0] \<and>
   one_incremented
       (raw_counters (both_reads (loaded_stats 2 4 2 :: 32 word KmerStats)))
       (raw_counters (both_reads (snd (update_stats_for_both
          (loaded_stats 2 4 2 :: 32 word KmerStats)
          \<lparr>kmer_threshold_read = 3, kmer_threshold_overall = 6, filter_unique = False,
           output_prefix = [], progress_dir = []\<rparr>
          \<lparr>kmers_loaded = 5, contaminants_detected = 1, kmers_from_contaminant = [1, 0],
           unique_kmers_from_contaminant = [0, 0], assigned_contaminant = 0,
           unique_assigned_contaminant = - 1\<rparr>
          \<lparr>kmers_loaded = 5, contaminants_detected = 0, kmers_from_contaminant = [0, 0],
           unique_kmers_from_contaminant = [0, 0], assigned_contaminant = - 1,
           unique_assigned_contaminant = - 1\<rparr>)))) \<and>
   unique_counters (both_reads (snd (update_stats_for_both
          (loaded_stats 2 4 2 :: 32 word KmerStats)
          \<lparr>kmer_threshold_read = 3, kmer_threshold_overall = 6, filter_unique = False,
           output_prefix = [], progress_dir = []\<rparr>
          \<lparr>kmers_loaded = 5, contaminants_detected = 1, kmers_from_contaminant = [1, 0],
           unique_kmers_from_contaminant = [0, 0], assigned_contaminant = 0,
           unique_assigned_contaminant = - 1\<rparr>
          \<lparr>kmers_loaded = 5, contaminants_detected = 0, kmers_from_contaminant = [0, 0],
           unique_kmers_from_contaminant = [0, 0], assigned_contaminant = - 1,
           unique_assigned_contaminant = - 1\<rparr>)))
     = unique_counters (both_reads (loaded_stats 2 4 2 :: 32 word KmerStats))"
proof -
  let ?cl = "\<lparr>kmer_threshold_read = 3, kmer_threshold_overall = 6, filter_unique = False,
           output_prefix = [], progress_dir = []\<rparr>"
  have h: "any_hit 2 ?cl [1, 0] [0, 0]" by code_simp
  have u: "\<not> any_hit 2 ?cl [0, 0] [0, 0]" by code_simp
  have n: "n_contaminants (loaded_stats 2 4 2 :: 32 word KmerStats) = 2"
    by (simp add: read_loaded_stats)
  show ?thesis
    using h u update_stats_for_both_counts_at_most_one
      [of "loaded_stats 2 4 2 :: 32 word KmerStats" ?cl
        "\<lparr>kmers_loaded = 5, contaminants_detected = 1, kmers_from_contaminant = [1, 0],
           unique_kmers_from_contaminant = [0, 0], assigned_contaminant = 0,
           unique_assigned_contaminant = - 1\<rparr>"
        "\<lparr>kmers_loaded = 5, contaminants_detected = 0, kmers_from_contaminant = [0, 0],
           unique_kmers_from_contaminant = [0, 0], assigned_contaminant = - 1,
           unique_assigned_contaminant = - 1\<rparr>"]
    by (simp add: n)
qed

text \<open>
  C4 at a pair the code mishandles. With \<open>kmer_threshold_read = 3\<close> and
  \<open>kmer_threshold_overall = 6\<close>, contaminant 0 has 1 and 20 k-mers in the two mates (below
  the per-read threshold) and contaminant 1 has 3 and 3 (it meets the thresholds). The pair
  is counted in \<open>threshold_passed_reads\<close>, and the per-contaminant counter that goes up
  is that of contaminant 0: the running \<open>largest_kmers\<close> still holds the 21 that
  contaminant 0 left there from the \<open>one_in_both\<close> branch.
\<close>

theorem threshold_passed_read_counted_for_contaminant_below_threshold:
  "\<not> meets_thresholds \<lparr>kmer_threshold_read = 3, kmer_threshold_overall = 6, filter_unique = False,
           output_prefix = [], progress_dir = []\<rparr> 1 20 \<and>
   meets_thresholds \<lparr>kmer_threshold_read = 3, kmer_threshold_overall = 6, filter_unique = False,
           output_prefix = [], progress_dir = []\<rparr> 3 3 \<and>
   threshold_passed_reads (both_reads (snd (update_stats_for_both
          (loaded_stats 2 4 2 :: 32 word KmerStats)
          \<lparr>kmer_threshold_read = 3, kmer_threshold_overall = 6, filter_unique = False,
           output_prefix = [], progress_dir = []\<rparr>
          \<lparr>kmers_loaded = 30, contaminants_detected = 2, kmers_from_contaminant = [1, 3],
           unique_kmers_from_contaminant = [0, 0], assigned_contaminant = 1,
           unique_assigned_contaminant = - 1\<rparr>
          \<lparr>kmers_loaded = 30, contaminants_detected = 2, kmers_from_contaminant = [20, 3],
           unique_kmers_from_contaminant = [0, 0], assigned_contaminant = 0,
           unique_assigned_contaminant = - 1\<rparr>))) = 1 \<and>
   threshold_passed_reads_by_contaminant (both_reads (snd (update_stats_for_both
          (loaded_stats 2 4 2 :: 32 word KmerStats)
          \<lparr>kmer_threshold_read = 3, kmer_threshold_overall = 6, filter_unique = False,
           output_prefix = [], progress_dir = []\<rparr>
          \<lparr>kmers_loaded = 30, contaminants_detected = 2, kmers_from_contaminant = [1, 3],
           unique_kmers_from_contaminant = [0, 0], assigned_contaminant = 1,
           unique_assigned_contaminant = - 1\<rparr>
          \<lparr>kmers_loaded = 30, contaminants_detected = 2, kmers_from_contaminant = [20, 3],
           unique_kmers_from_contaminant = [0, 0], assigned_contaminant = 0,
           unique_assigned_contaminant = - 1\<rparr>))) = [1, 0]"
  by code_simp

lemma count_flags:
  "fst (count_raw cl raw (flag, b)) = (if threshold_met raw \<and> filter_unique cl = False then True else flag)"
  "fst (count_unique un (flag, b)) = (threshold_met un \<or> flag)"
  by (simp_all add: count_raw_def count_unique_def)

text \<open>
  C5. With \<open>(raw, unique)\<close> the locals after the loop: the boolean that
  \<open>update_stats_for_both\<close> returns is
  \<open>unique.threshold_met \<or> (raw.threshold_met \<and> filter_unique == false)\<close>; a tier's
  \<open>threshold_met\<close> is set exactly when some contaminant \<open>i < n_contaminants\<close> meets the
  thresholds on that tier's counts, which is also exactly when the tier's
  \<open>threshold_passed\<close> counter goes up; and \<open>update_stats_for_both_parallel\<close>, on a free
  mutex, returns the same.
\<close>

theorem update_stats_for_both_filter_decision:
  fixes stats :: "'c::semiring_1_cancel KmerStats"
  shows "fst (update_stats_for_both stats cmd_line counts_a counts_b)
           = (threshold_met (snd (pair_scan (n_contaminants stats) cmd_line counts_a counts_b)) \<or>
              (threshold_met (fst (pair_scan (n_contaminants stats) cmd_line counts_a counts_b)) \<and>
               filter_unique cmd_line = False)) \<and>
         (threshold_met (fst (pair_scan (n_contaminants stats) cmd_line counts_a counts_b)) \<longleftrightarrow>
            (\<exists>i<n_contaminants stats.
               meets_thresholds cmd_line (kmers_from_contaminant counts_a ! i)
                                         (kmers_from_contaminant counts_b ! i))) \<and>
         (threshold_met (snd (pair_scan (n_contaminants stats) cmd_line counts_a counts_b)) \<longleftrightarrow>
            (\<exists>i<n_contaminants stats.
               meets_thresholds cmd_line (unique_kmers_from_contaminant counts_a ! i)
                                         (unique_kmers_from_contaminant counts_b ! i))) \<and>
         threshold_passed_reads (both_reads (snd (update_stats_for_both stats cmd_line counts_a counts_b)))
           = threshold_passed_reads (both_reads stats)
             + (if threshold_met (fst (pair_scan (n_contaminants stats) cmd_line counts_a counts_b))
                then 1 else 0) \<and>
         threshold_passed_reads_unique
             (both_reads (snd (update_stats_for_both stats cmd_line counts_a counts_b)))
           = threshold_passed_reads_unique (both_reads stats)
             + (if threshold_met (snd (pair_scan (n_contaminants stats) cmd_line counts_a counts_b))
                then 1 else 0) \<and>
         (\<not> both_lock (both_reads stats) \<longrightarrow>
            update_stats_for_both_parallel stats cmd_line counts_a counts_b
              = Some (update_stats_for_both stats cmd_line counts_a counts_b))"
proof -
  let ?b = "both_reads stats"
  obtain raw unique where sc: "pair_scan (n_contaminants stats) cmd_line counts_a counts_b = (raw, unique)"
    by (cases "pair_scan (n_contaminants stats) cmd_line counts_a counts_b") auto
  obtain f1 b1 where r: "count_raw cmd_line raw (False, ?b) = (f1, b1)"
    by (cases "count_raw cmd_line raw (False, ?b)") auto
  obtain f2 b2 where u: "count_unique unique (f1, b1) = (f2, b2)"
    by (cases "count_unique unique (f1, b1)") auto
  have res: "update_stats_for_both stats cmd_line counts_a counts_b = (f2, stats\<lparr>both_reads := b2\<rparr>)"
    by (simp add: update_stats_for_both_def sc r u)
  have f: "f2 = (threshold_met unique \<or> (threshold_met raw \<and> filter_unique cmd_line = False))"
    using count_flags(1) [of cmd_line raw False ?b] count_flags(2) [of unique f1 b1] r u by auto
  from sc have t: "raw = tier_scan cmd_line (kmers_from_contaminant counts_a)
                         (kmers_from_contaminant counts_b) [0..<n_contaminants stats] no_tier"
      "unique = tier_scan cmd_line (unique_kmers_from_contaminant counts_a)
                         (unique_kmers_from_contaminant counts_b) [0..<n_contaminants stats] no_tier"
    by (simp_all add: pair_scan_tiers)
  have m: "threshold_met raw \<longleftrightarrow>
            (\<exists>i<n_contaminants stats.
               meets_thresholds cmd_line (kmers_from_contaminant counts_a ! i)
                                         (kmers_from_contaminant counts_b ! i))"
     "threshold_met unique \<longleftrightarrow>
            (\<exists>i<n_contaminants stats.
               meets_thresholds cmd_line (unique_kmers_from_contaminant counts_a ! i)
                                         (unique_kmers_from_contaminant counts_b ! i))"
    unfolding t by (auto simp add: threshold_met_tier_scan no_tier_def)
  have c1: "threshold_passed_reads b2 = threshold_passed_reads ?b + (if threshold_met raw then 1 else 0)"
    using count_raw_counters(1) [of cmd_line raw False ?b] count_unique_counters(2) [of unique f1 b1] r u
    by (auto simp add: raw_counters_def tier_count_def split: if_splits)
  have c2: "threshold_passed_reads_unique b2
              = threshold_passed_reads_unique ?b + (if threshold_met unique then 1 else 0)"
    using count_raw_counters(2) [of cmd_line raw False ?b] count_unique_counters(1) [of unique f1 b1] r u
    by (auto simp add: unique_counters_def tier_count_def split: if_splits)
  show ?thesis
    unfolding res sc fst_conv snd_conv using f m c1 c2
    by (simp add: update_stats_for_both_parallel_eq [of stats cmd_line counts_a counts_b] res)
qed

theorem update_stats_for_both_filter_decision_witness:
  "\<not> both_lock (both_reads (loaded_stats 2 4 2 :: 32 word KmerStats)) \<and>
   threshold_met (fst (pair_scan 2
       \<lparr>kmer_threshold_read = 3, kmer_threshold_overall = 6, filter_unique = True,
        output_prefix = [], progress_dir = []\<rparr>
       \<lparr>kmers_loaded = 8, contaminants_detected = 2, kmers_from_contaminant = [3, 5],
        unique_kmers_from_contaminant = [1, 2], assigned_contaminant = 1,
        unique_assigned_contaminant = 1\<rparr>
       \<lparr>kmers_loaded = 9, contaminants_detected = 1, kmers_from_contaminant = [0, 4],
        unique_kmers_from_contaminant = [0, 4], assigned_contaminant = 1,
        unique_assigned_contaminant = 1\<rparr>)) \<and>
   \<not> threshold_met (snd (pair_scan 2
       \<lparr>kmer_threshold_read = 3, kmer_threshold_overall = 6, filter_unique = True,
        output_prefix = [], progress_dir = []\<rparr>
       \<lparr>kmers_loaded = 8, contaminants_detected = 2, kmers_from_contaminant = [3, 5],
        unique_kmers_from_contaminant = [1, 2], assigned_contaminant = 1,
        unique_assigned_contaminant = 1\<rparr>
       \<lparr>kmers_loaded = 9, contaminants_detected = 1, kmers_from_contaminant = [0, 4],
        unique_kmers_from_contaminant = [0, 4], assigned_contaminant = 1,
        unique_assigned_contaminant = 1\<rparr>)) \<and>
   fst (update_stats_for_both (loaded_stats 2 4 2 :: 32 word KmerStats)
       \<lparr>kmer_threshold_read = 3, kmer_threshold_overall = 6, filter_unique = True,
        output_prefix = [], progress_dir = []\<rparr>
       \<lparr>kmers_loaded = 8, contaminants_detected = 2, kmers_from_contaminant = [3, 5],
        unique_kmers_from_contaminant = [1, 2], assigned_contaminant = 1,
        unique_assigned_contaminant = 1\<rparr>
       \<lparr>kmers_loaded = 9, contaminants_detected = 1, kmers_from_contaminant = [0, 4],
        unique_kmers_from_contaminant = [0, 4], assigned_contaminant = 1,
        unique_assigned_contaminant = 1\<rparr>) = False \<and>
   map_option fst (update_stats_for_both_parallel (loaded_stats 2 4 2 :: 32 word KmerStats)
       \<lparr>kmer_threshold_read = 3, kmer_threshold_overall = 6, filter_unique = True,
        output_prefix = [], progress_dir = []\<rparr>
       \<lparr>kmers_loaded = 8, contaminants_detected = 2, kmers_from_contaminant = [3, 5],
        unique_kmers_from_contaminant = [1, 2], assigned_contaminant = 1,
        unique_assigned_contaminant = 1\<rparr>
       \<lparr>kmers_loaded = 9, contaminants_detected = 1, kmers_from_contaminant = [0, 4],
        unique_kmers_from_contaminant = [0, 4], assigned_contaminant = 1,
        unique_assigned_contaminant = 1\<rparr>) = Some False"
proof -
  let ?s = "loaded_stats 2 4 2 :: 32 word KmerStats"
  let ?cl = "\<lparr>kmer_threshold_read = 3, kmer_threshold_overall = 6, filter_unique = True,
        output_prefix = [], progress_dir = []\<rparr>"
  let ?a = "\<lparr>kmers_loaded = 8, contaminants_detected = 2, kmers_from_contaminant = [3, 5],
        unique_kmers_from_contaminant = [1, 2], assigned_contaminant = 1,
        unique_assigned_contaminant = 1\<rparr>"
  let ?b = "\<lparr>kmers_loaded = 9, contaminants_detected = 1, kmers_from_contaminant = [0, 4],
        unique_kmers_from_contaminant = [0, 4], assigned_contaminant = 1,
        unique_assigned_contaminant = 1\<rparr>"
  have h: "\<not> both_lock (both_reads ?s)"
    by (simp add: both_reads_loaded_stats both_lock_initial)
  have n: "n_contaminants ?s = 2"
    by (simp add: read_loaded_stats)
  have r: "threshold_met (fst (pair_scan 2 ?cl ?a ?b))" by code_simp
  have u: "\<not> threshold_met (snd (pair_scan 2 ?cl ?a ?b))" by code_simp
  from update_stats_for_both_filter_decision [of ?s ?cl ?a ?b] h r u
  have "fst (update_stats_for_both ?s ?cl ?a ?b) = False"
    and "update_stats_for_both_parallel ?s ?cl ?a ?b = Some (update_stats_for_both ?s ?cl ?a ?b)"
    by (simp_all add: n)
  with h r u show ?thesis by simp
qed

section \<open>Finalisation and the pair count\<close>

text \<open>
  C7 at a run without reads. After \<open>kmer_stats_initialise\<close> and the loading of one
  contaminant whose reference has no k-mers, \<open>kmer_stats_calculate\<close> divides by
  \<open>number_of_reads = 0\<close> and by \<open>contaminant_kmers[0] = 0\<close>: the percentages it
  derives are \<open>NaN\<close>, neither skipped nor a sentinel. Only
  \<open>species_read_counts_pc\<close>, which the function guards, is \<open>0\<close>.
\<close>

theorem kmer_stats_calculate_divides_by_zero:
  "number_of_reads (read (loaded_stats 2 4 1 :: 32 word KmerStats) ! 0) = 0 \<and>
   contaminant_kmers (loaded_stats 2 4 1 :: 32 word KmerStats) ! 0 = 0 \<and>
   k1_contaminaned_reads_pc (read (kmer_stats_calculate (loaded_stats 2 4 1 :: 32 word KmerStats)) ! 0) = NaN \<and>
   kn_contaminaned_reads_pc (read (kmer_stats_calculate (loaded_stats 2 4 1 :: 32 word KmerStats)) ! 0) = NaN \<and>
   k1_contaminated_reads_by_contaminant_pc
     (read (kmer_stats_calculate (loaded_stats 2 4 1 :: 32 word KmerStats)) ! 0) ! 0 = NaN \<and>
   contaminant_kmers_seen_pc
     (read (kmer_stats_calculate (loaded_stats 2 4 1 :: 32 word KmerStats)) ! 0) ! 0 = NaN \<and>
   species_read_counts_pc
     (read (kmer_stats_calculate (loaded_stats 2 4 1 :: 32 word KmerStats)) ! 0) ! 0 = Zero \<and>
   threshold_passed_reads_pc
     (both_reads (kmer_stats_calculate (loaded_stats 2 4 1 :: 32 word KmerStats))) = NaN"
  by code_simp

lemma update_stats_for_both_frame:
  fixes stats :: "'c::semiring_1_cancel KmerStats"
  shows "both_number_of_reads (both_reads (snd (update_stats_for_both stats cl ca cb)))
           = both_number_of_reads (both_reads stats)"
    and "n_contaminants (snd (update_stats_for_both stats cl ca cb)) = n_contaminants stats"
    and "both_lock (both_reads (snd (update_stats_for_both stats cl ca cb)))
           = both_lock (both_reads stats)"
    and "map snd (pair_percentages (both_reads (snd (update_stats_for_both stats cl ca cb))))
           = map snd (pair_percentages (both_reads stats))"
  by (simp_all add: update_stats_for_both_def count_raw_def count_unique_def pair_percentages_def
        split: prod.splits)

lemma classify_pair_frame:
  fixes stats :: "'c::semiring_1_cancel KmerStats"
  assumes "\<not> both_lock (both_reads stats)"
  shows "\<exists>stats'. classify_pair cl call stats = Some stats' \<and>
           \<not> both_lock (both_reads stats') \<and>
           n_contaminants stats' = n_contaminants stats \<and>
           map snd (pair_percentages (both_reads stats')) = map snd (pair_percentages (both_reads stats)) \<and>
           both_number_of_reads (both_reads stats') = both_number_of_reads (both_reads stats)"
proof -
  obtain p ca cb where call: "call = (p, ca, cb)" by (cases call) auto
  have "classify_pair cl call stats = Some (snd (update_stats_for_both stats cl ca cb))"
    using assms by (cases p) (simp_all add: classify_pair_def call update_stats_for_both_parallel_eq)
  then show ?thesis
    using assms by (simp add: update_stats_for_both_frame)
qed

lemma classify_pairs_frame:
  fixes stats :: "'c::semiring_1_cancel KmerStats"
  assumes "\<not> both_lock (both_reads stats)"
  shows "\<exists>stats'. classify_pairs cl calls stats = Some stats' \<and>
           \<not> both_lock (both_reads stats') \<and>
           n_contaminants stats' = n_contaminants stats \<and>
           map snd (pair_percentages (both_reads stats')) = map snd (pair_percentages (both_reads stats)) \<and>
           both_number_of_reads (both_reads stats') = both_number_of_reads (both_reads stats)"
  using assms
proof (induction calls arbitrary: stats)
  case Nil
  then show ?case by (simp add: classify_pairs_def)
next
  case (Cons call calls)
  from classify_pair_frame [OF Cons.prems, of cl call]
  obtain s1 where s1: "classify_pair cl call stats = Some s1" "\<not> both_lock (both_reads s1)"
      "n_contaminants s1 = n_contaminants stats"
      "map snd (pair_percentages (both_reads s1)) = map snd (pair_percentages (both_reads stats))"
      "both_number_of_reads (both_reads s1) = both_number_of_reads (both_reads stats)"
    by blast
  from Cons.IH [OF s1(2)] s1(1,3,4,5) show ?case
    by (auto simp add: classify_pairs_def)
qed

lemma calculate_both_body_frame:
  "both_number_of_reads (calculate_both_body stats i b) = both_number_of_reads b"
  "threshold_passed_reads_pc (calculate_both_body stats i b) = threshold_passed_reads_pc b"
  "k1_both_reads_not_threshold_pc (calculate_both_body stats i b) = k1_both_reads_not_threshold_pc b"
  "k1_either_read_not_threshold_pc (calculate_both_body stats i b) = k1_either_read_not_threshold_pc b"
  "threshold_passed_reads_pc_unique (calculate_both_body stats i b) = threshold_passed_reads_pc_unique b"
  "k1_both_reads_not_threshold_pc_unique (calculate_both_body stats i b) = k1_both_reads_not_threshold_pc_unique b"
  "k1_either_read_not_threshold_pc_unique (calculate_both_body stats i b) = k1_either_read_not_threshold_pc_unique b"
  by (simp_all add: calculate_both_body_def Let_def)

lemma calculate_both_loop_frame:
  "same_pair_totals b (fold (calculate_both_body stats) is b)"
  by (rule fold_invariant [where P = "same_pair_totals b"])
     (simp_all add: same_pair_totals_def calculate_both_body_frame)

lemma kmer_stats_calculate_both_scalars:
  fixes stats :: "'c::zero KmerStats"
  shows "threshold_passed_reads_pc (both_reads (kmer_stats_calculate_both stats))
       = percent (threshold_passed_reads (both_reads stats)) (both_number_of_reads (both_reads stats))"
    and "k1_both_reads_not_threshold_pc (both_reads (kmer_stats_calculate_both stats))
       = percent (k1_both_reads_not_threshold (both_reads stats)) (both_number_of_reads (both_reads stats))"
    and "k1_either_read_not_threshold_pc (both_reads (kmer_stats_calculate_both stats))
       = percent (k1_either_read_not_threshold (both_reads stats)) (both_number_of_reads (both_reads stats))"
    and "threshold_passed_reads_pc_unique (both_reads (kmer_stats_calculate_both stats))
       = percent (threshold_passed_reads_unique (both_reads stats)) (both_number_of_reads (both_reads stats))"
    and "k1_both_reads_not_threshold_pc_unique (both_reads (kmer_stats_calculate_both stats))
       = percent (k1_both_reads_not_threshold_unique (both_reads stats)) (both_number_of_reads (both_reads stats))"
    and "k1_either_read_not_threshold_pc_unique (both_reads (kmer_stats_calculate_both stats))
       = percent (k1_either_read_not_threshold_unique (both_reads stats)) (both_number_of_reads (both_reads stats))"
    and "both_number_of_reads (both_reads (kmer_stats_calculate_both stats))
       = both_number_of_reads (both_reads stats)"
  unfolding kmer_stats_calculate_both_def Let_def
  using calculate_both_loop_frame [of _ stats "[0..<n_contaminants stats]"]
  by (simp_all add: same_pair_totals_def)

lemma pair_percentages_body:
  "pair_percentages (calculate_both_body stats i b)
     = map (\<lambda>(src, pcs). (src, pcs[i := percent (src ! i) (both_number_of_reads b)]))
           (pair_percentages b)"
  by (simp add: pair_percentages_def calculate_both_body_def Let_def)

lemma fold_set_cells:
  "n \<le> length pcs \<Longrightarrow> i < n \<Longrightarrow> fold (\<lambda>i pcs. pcs[i := f i]) [0..<n] pcs ! i = f i"
proof (induction n arbitrary: i)
  case 0
  then show ?case by simp
next
  case (Suc n)
  have len: "length (fold (\<lambda>i pcs. pcs[i := f i]) [0..<n] pcs) = length pcs"
    by (rule fold_invariant [where P = "\<lambda>xs. length xs = length pcs"]) simp_all
  show ?case
    using Suc len by (cases "i = n") (simp_all add: nth_list_update)
qed

lemma pair_percentages_loop:
  "pair_percentages (fold (calculate_both_body stats) is b)
     = map (\<lambda>(src, pcs). (src, fold (\<lambda>i pcs. pcs[i := percent (src ! i) (both_number_of_reads b)]) is pcs))
           (pair_percentages b)"
proof (induction "is" arbitrary: b)
  case Nil
  then show ?case by (simp add: case_prod_unfold)
next
  case (Cons i "is")
  show ?case
    by (simp add: Cons pair_percentages_body calculate_both_body_frame case_prod_unfold comp_def)
qed

lemma kmer_stats_calculate_both_by_contaminant:
  fixes stats :: "'c::zero KmerStats"
  assumes "list_all (\<lambda>(src, pcs). n_contaminants stats \<le> length pcs) (pair_percentages (both_reads stats))"
  shows "list_all (\<lambda>(src, pcs). \<forall>i<n_contaminants stats.
                     pcs ! i = percent (src ! i) (both_number_of_reads (both_reads stats)))
           (pair_percentages (both_reads (kmer_stats_calculate_both stats)))"
proof -
  let ?b = "both_reads stats"
  define b6 where "b6 = ?b\<lparr>threshold_passed_reads_pc :=
                percent (threshold_passed_reads ?b) (both_number_of_reads ?b),
          k1_both_reads_not_threshold_pc :=
                percent (k1_both_reads_not_threshold ?b) (both_number_of_reads ?b),
          k1_either_read_not_threshold_pc :=
                percent (k1_either_read_not_threshold ?b) (both_number_of_reads ?b),
          threshold_passed_reads_pc_unique :=
                percent (threshold_passed_reads_unique ?b) (both_number_of_reads ?b),
          k1_both_reads_not_threshold_pc_unique :=
                percent (k1_both_reads_not_threshold_unique ?b) (both_number_of_reads ?b),
          k1_either_read_not_threshold_pc_unique :=
                percent (k1_either_read_not_threshold_unique ?b) (both_number_of_reads ?b)\<rparr>"
  have res: "both_reads (kmer_stats_calculate_both stats)
               = fold (calculate_both_body stats) [0..<n_contaminants stats] b6"
    by (simp add: kmer_stats_calculate_both_def Let_def b6_def)
  have pp: "pair_percentages b6 = pair_percentages ?b" and nr: "both_number_of_reads b6 = both_number_of_reads ?b"
    by (simp_all add: b6_def pair_percentages_def)
  show ?thesis
    unfolding res pair_percentages_loop pp nr
    using assms
    by (auto simp add: list_all_iff fold_set_cells)
qed

lemma initial_pair_counts:
  fixes stats0 :: "'c::semiring_1_cancel KmerStats"
  assumes "calloc_ok 0 \<and> calloc_ok 1 \<and> calloc_ok 2"
  shows "\<exists>stats1. kmer_stats_initialise MAXC MAXR calloc_ok stats0 cmd0 = Inr stats1 \<and>
           both_number_of_reads (both_reads stats1) = 0 \<and>
           \<not> both_lock (both_reads stats1) \<and>
           list_all (\<lambda>(src, pcs). length pcs = MAXC) (pair_percentages (both_reads stats1))"
  using assms
  by (simp add: kmer_stats_initialise_def Let_def kmer_stats_both_reads_initialise_def
        calloc_KmerStatsBothReads_def pair_percentages_def)

text \<open>
  C10. \<open>kmer_stats_initialise\<close> sets \<open>both_reads->number_of_reads\<close> to 0; after any
  run of \<open>update_stats_for_both\<close> and \<open>update_stats_for_both_parallel\<close> from there it
  is still 0, and one more call of either leaves it 0; and \<open>kmer_stats_calculate_both\<close>
  then divides by it: each of the six pair percentages, and each of the six per-contaminant
  ones for every contaminant, is the quotient of its counter by that 0.
\<close>

theorem pair_number_of_reads_never_counted:
  fixes stats0 :: "'c::semiring_1_cancel KmerStats"
  assumes "calloc_ok 0 \<and> calloc_ok 1 \<and> calloc_ok 2" and "n \<le> MAX_CONTAMINANTS"
  shows "\<exists>stats1 stats.
      kmer_stats_initialise MAX_CONTAMINANTS MAX_READ_LENGTH calloc_ok stats0 cmd0 = Inr stats1 \<and>
      both_number_of_reads (both_reads stats1) = 0 \<and>
      classify_pairs cmd_line calls (stats1\<lparr>n_contaminants := n\<rparr>) = Some stats \<and>
      both_number_of_reads (both_reads stats) = 0 \<and>
      both_number_of_reads (both_reads (snd (update_stats_for_both stats cmd_line counts_a counts_b))) = 0 \<and>
      map_option (\<lambda>res. both_number_of_reads (both_reads (snd res)))
          (update_stats_for_both_parallel stats cmd_line counts_a counts_b) = Some 0 \<and>
      threshold_passed_reads_pc (both_reads (kmer_stats_calculate_both stats))
        = percent (threshold_passed_reads (both_reads stats)) 0 \<and>
      k1_both_reads_not_threshold_pc (both_reads (kmer_stats_calculate_both stats))
        = percent (k1_both_reads_not_threshold (both_reads stats)) 0 \<and>
      k1_either_read_not_threshold_pc (both_reads (kmer_stats_calculate_both stats))
        = percent (k1_either_read_not_threshold (both_reads stats)) 0 \<and>
      threshold_passed_reads_pc_unique (both_reads (kmer_stats_calculate_both stats))
        = percent (threshold_passed_reads_unique (both_reads stats)) 0 \<and>
      k1_both_reads_not_threshold_pc_unique (both_reads (kmer_stats_calculate_both stats))
        = percent (k1_both_reads_not_threshold_unique (both_reads stats)) 0 \<and>
      k1_either_read_not_threshold_pc_unique (both_reads (kmer_stats_calculate_both stats))
        = percent (k1_either_read_not_threshold_unique (both_reads stats)) 0 \<and>
      list_all (\<lambda>(src, pcs). \<forall>i<n. pcs ! i = percent (src ! i) 0)
        (pair_percentages (both_reads (kmer_stats_calculate_both stats)))"
proof -
  from initial_pair_counts [OF assms(1), of MAX_CONTAMINANTS MAX_READ_LENGTH stats0 cmd0]
  obtain stats1 where
    i: "kmer_stats_initialise MAX_CONTAMINANTS MAX_READ_LENGTH calloc_ok stats0 cmd0 = Inr stats1"
    and z: "both_number_of_reads (both_reads stats1) = 0"
    and l: "\<not> both_lock (both_reads stats1)"
    and len: "list_all (\<lambda>(src, pcs). length pcs = MAX_CONTAMINANTS) (pair_percentages (both_reads stats1))"
    by blast
  let ?init = "stats1\<lparr>n_contaminants := n\<rparr>"
  have l': "\<not> both_lock (both_reads ?init)" using l by simp
  from classify_pairs_frame [OF l', of cmd_line calls]
  obtain stats where r: "classify_pairs cmd_line calls ?init = Some stats"
    and sl: "\<not> both_lock (both_reads stats)"
    and sn: "n_contaminants stats = n"
    and sp: "map snd (pair_percentages (both_reads stats)) = map snd (pair_percentages (both_reads stats1))"
    and sz: "both_number_of_reads (both_reads stats) = 0"
    using z by auto
  have "list_all (\<lambda>pcs. length pcs = MAX_CONTAMINANTS) (map snd (pair_percentages (both_reads stats1)))"
    using len by (simp add: list_all_iff case_prod_unfold)
  then have "list_all (\<lambda>pcs. length pcs = MAX_CONTAMINANTS) (map snd (pair_percentages (both_reads stats)))"
    by (simp only: sp)
  then have "list_all (\<lambda>(src, pcs). n_contaminants stats \<le> length pcs) (pair_percentages (both_reads stats))"
    using assms(2) sn by (simp add: list_all_iff case_prod_unfold)
  from kmer_stats_calculate_both_by_contaminant [OF this]
  have by_c: "list_all (\<lambda>(src, pcs). \<forall>i<n. pcs ! i = percent (src ! i) 0)
        (pair_percentages (both_reads (kmer_stats_calculate_both stats)))"
    by (simp add: sn sz)
  have par: "map_option (\<lambda>res. both_number_of_reads (both_reads (snd res)))
          (update_stats_for_both_parallel stats cmd_line counts_a counts_b) = Some 0"
    using sl sz by (simp add: update_stats_for_both_parallel_eq update_stats_for_both_frame)
  have ser: "both_number_of_reads (both_reads (snd (update_stats_for_both stats cmd_line counts_a counts_b))) = 0"
    using sz by (simp add: update_stats_for_both_frame)
  show ?thesis
    using i z r sz ser par by_c kmer_stats_calculate_both_scalars [of stats]
    by (simp add: sz)
qed

theorem pair_number_of_reads_never_counted_witness:
  "((\<lambda>k::nat. True) 0 \<and> (\<lambda>k::nat. True) 1 \<and> (\<lambda>k::nat. True) 2) \<and> (2::nat) \<le> 2 \<and>
   (\<exists>stats1 stats.
      kmer_stats_initialise 2 4 (\<lambda>k. True) (blank_stats 2 :: 32 word KmerStats)
        \<lparr>kmer_threshold_read = 3, kmer_threshold_overall = 6, filter_unique = False,
         output_prefix = [], progress_dir = []\<rparr> = Inr stats1 \<and>
      classify_pairs
        \<lparr>kmer_threshold_read = 3, kmer_threshold_overall = 6, filter_unique = False,
         output_prefix = [], progress_dir = []\<rparr>
        [(False,
          \<lparr>kmers_loaded = 8, contaminants_detected = 2, kmers_from_contaminant = [3, 5],
           unique_kmers_from_contaminant = [1, 2], assigned_contaminant = 1,
           unique_assigned_contaminant = 1\<rparr>,
          \<lparr>kmers_loaded = 9, contaminants_detected = 1, kmers_from_contaminant = [0, 4],
           unique_kmers_from_contaminant = [0, 4], assigned_contaminant = 1,
           unique_assigned_contaminant = 1\<rparr>)]
        (stats1\<lparr>n_contaminants := 2\<rparr>) = Some stats \<and>
      both_number_of_reads (both_reads stats) = 0 \<and>
      threshold_passed_reads_pc (both_reads (kmer_stats_calculate_both stats))
        = percent (threshold_passed_reads (both_reads stats)) 0)"
proof -
  let ?cl = "\<lparr>kmer_threshold_read = 3, kmer_threshold_overall = 6, filter_unique = False,
         output_prefix = [], progress_dir = []\<rparr>"
  let ?a = "\<lparr>kmers_loaded = 8, contaminants_detected = 2, kmers_from_contaminant = [3, 5],
           unique_kmers_from_contaminant = [1, 2], assigned_contaminant = 1,
           unique_assigned_contaminant = 1\<rparr>"
  let ?b = "\<lparr>kmers_loaded = 9, contaminants_detected = 1, kmers_from_contaminant = [0, 4],
           unique_kmers_from_contaminant = [0, 4], assigned_contaminant = 1,
           unique_assigned_contaminant = 1\<rparr>"
  have h1: "(\<lambda>k::nat. True) 0 \<and> (\<lambda>k::nat. True) 1 \<and> (\<lambda>k::nat. True) 2" by simp
  have h2: "(2::nat) \<le> 2" by simp
  from pair_number_of_reads_never_counted [OF h1 h2, of 4 "blank_stats 2 :: 32 word KmerStats" ?cl ?cl
      "[(False, ?a, ?b)]" ?a ?b]
  obtain stats1 stats where
    "kmer_stats_initialise 2 4 (\<lambda>k. True) (blank_stats 2 :: 32 word KmerStats) ?cl = Inr stats1"
    "classify_pairs ?cl [(False, ?a, ?b)] (stats1\<lparr>n_contaminants := 2\<rparr>) = Some stats"
    "both_number_of_reads (both_reads stats) = 0"
    "threshold_passed_reads_pc (both_reads (kmer_stats_calculate_both stats))
        = percent (threshold_passed_reads (both_reads stats)) 0"
    by blast
  with h1 h2 show ?thesis by blast
qed

section \<open>The similarity scan counts shared and unique k-mers\<close>

lemma square_at_least_iff:
  "square_at_least n m \<longleftrightarrow> n \<le> length m \<and> (\<forall>i<n. n \<le> length (m ! i))"
  by (auto simp add: square_at_least_def list_all_length)

lemma bit_set [simp]: "element_get_contaminant_bit node i > 0 \<longleftrightarrow> i \<in> node"
  by (simp add: element_get_contaminant_bit_def)

lemma incr2_square: "square_at_least n m \<Longrightarrow> square_at_least n (incr2 i j m)"
  by (cases "i < length m") (auto simp add: square_at_least_iff incr2_def nth_list_update)

lemma incr2_nth:
  "square_at_least n m \<Longrightarrow> i < n \<Longrightarrow> j < n \<Longrightarrow> a < n \<Longrightarrow>
   incr2 i j m ! a ! b = m ! a ! b + (if a = i \<and> b = j then 1 else 0)"
  by (auto simp add: square_at_least_iff incr2_def nth_list_update nth_incr)

lemma common_inner_effect:
  assumes "square_at_least n m" "i < n" "j < n" "a < n"
  shows "square_at_least n (common_inner node i j m)"
    and "common_inner node i j m ! a ! b
           = m ! a ! b + (if j \<in> node \<and> ((a = i \<and> b = j) \<or> (i \<noteq> j \<and> a = j \<and> b = i)) then 1 else 0)"
  using assms
  by (auto simp add: common_inner_def Let_def incr2_square [of n] incr2_nth [of n])

lemma common_inner_loop:
  assumes "square_at_least n m" "i < n" "\<forall>j\<in>set js. j < n" "a < n"
  shows "square_at_least n (fold (common_inner node i) js m) \<and>
         fold (common_inner node i) js m ! a ! b
           = m ! a ! b
             + of_nat (length (filter
                 (\<lambda>j. j \<in> node \<and> ((a = i \<and> b = j) \<or> (i \<noteq> j \<and> a = j \<and> b = i))) js))"
  using assms
proof (induction js arbitrary: m)
  case Nil
  then show ?case by simp
next
  case (Cons j js)
  from Cons.prems have j: "j < n" by simp
  note e = common_inner_effect [OF Cons.prems(1,2) j Cons.prems(4), of node]
  from Cons.prems have "\<forall>j\<in>set js. j < n" by simp
  from Cons.IH [OF e(1) Cons.prems(2) this Cons.prems(4)] e(2) [of b]
  show ?case by (simp add: ac_simps)
qed

lemma filter_single:
  "distinct xs \<Longrightarrow> filter (\<lambda>j. j = k \<and> P) xs = (if P \<and> k \<in> set xs then [k] else [])"
  by (induction xs) auto

lemma common_outer_effect:
  fixes m :: "'c::semiring_1_cancel list list"
  assumes "square_at_least n m" "i < n" "a < n" "b < n"
  shows "square_at_least n (common_outer n node i m)"
    and "common_outer n node i m ! a ! b
           = m ! a ! b + (if a \<in> node \<and> b \<in> node \<and> i = min a b then 1 else 0)"
proof -
  let ?c = "\<lambda>j. j \<in> node \<and> ((a = i \<and> b = j) \<or> (i \<noteq> j \<and> a = j \<and> b = i))"
  have js: "\<forall>j\<in>set [i..<n]. j < n" by simp
  note l = common_inner_loop [OF assms(1,2) js assms(3), of node b]
  show "square_at_least n (common_outer n node i m)"
    using l assms(1) by (simp add: common_outer_def)
  show "common_outer n node i m ! a ! b
           = m ! a ! b + (if a \<in> node \<and> b \<in> node \<and> i = min a b then 1 else 0)"
  proof (cases "i \<in> node")
    case False
    then have "\<not> (a \<in> node \<and> b \<in> node \<and> i = min a b)"
      by (auto simp add: min_def split: if_splits)
    with False show ?thesis by (simp add: common_outer_def)
  next
    case True
    have cnt: "length (filter ?c [i..<n]) = (if a \<in> node \<and> b \<in> node \<and> i = min a b then 1 else 0)"
    proof (cases "a = i")
      case a: True
      have "?c = (\<lambda>j. j = b \<and> b \<in> node)"
        using a by (auto simp add: fun_eq_iff)
      then have f: "filter ?c [i..<n] = (if b \<in> node \<and> b \<in> set [i..<n] then [b] else [])"
        by (simp only: filter_single [OF distinct_upt])
      have "length (filter ?c [i..<n]) = (if b \<in> node \<and> i \<le> b \<and> b < n then 1 else 0)"
        unfolding f by simp
      also have "\<dots> = (if a \<in> node \<and> b \<in> node \<and> i = min a b then 1 else 0)"
        using a True assms(4) by (auto simp add: min_def)
      finally show ?thesis .
    next
      case a: False
      have "?c = (\<lambda>j. j = a \<and> (a \<in> node \<and> b = i))"
        using a by (auto simp add: fun_eq_iff)
      then have f: "filter ?c [i..<n] = (if (a \<in> node \<and> b = i) \<and> a \<in> set [i..<n] then [a] else [])"
        by (simp only: filter_single [OF distinct_upt])
      have "length (filter ?c [i..<n]) = (if a \<in> node \<and> b = i \<and> i \<le> a \<and> a < n then 1 else 0)"
        unfolding f by simp
      also have "\<dots> = (if a \<in> node \<and> b \<in> node \<and> i = min a b then 1 else 0)"
        using a True assms(3) by (auto simp add: min_def)
      finally show ?thesis .
    qed
    show ?thesis
      using True l unfolding cnt by (simp add: common_outer_def)
  qed
qed

lemma common_outer_loop:
  fixes m :: "'c::semiring_1_cancel list list"
  assumes "square_at_least n m" "\<forall>i\<in>set is. i < n" "a < n" "b < n"
  shows "square_at_least n (fold (common_outer n node) is m) \<and>
         fold (common_outer n node) is m ! a ! b
           = m ! a ! b
             + of_nat (length (filter (\<lambda>i. i = min a b \<and> (a \<in> node \<and> b \<in> node)) is))"
  using assms
proof (induction "is" arbitrary: m)
  case Nil
  then show ?case by simp
next
  case (Cons i "is")
  from Cons.prems have i: "i < n" by simp
  note e = common_outer_effect [OF Cons.prems(1) i Cons.prems(3,4), of node]
  from Cons.prems have "\<forall>i\<in>set is. i < n" by simp
  from Cons.IH [OF e(1) this Cons.prems(3,4)] e(2)
  show ?case by (auto simp add: ac_simps)
qed

lemma check_kmers_in_common_effect:
  fixes stats :: "'c::semiring_1_cancel KmerStats"
  assumes "square_at_least (n_contaminants stats) (kmers_in_common stats)"
    "a < n_contaminants stats" "b < n_contaminants stats"
  shows "square_at_least (n_contaminants stats) (kmers_in_common (check_kmers_in_common node stats))"
    and "kmers_in_common (check_kmers_in_common node stats) ! a ! b
           = kmers_in_common stats ! a ! b + (if a \<in> node \<and> b \<in> node then 1 else 0)"
    and "n_contaminants (check_kmers_in_common node stats) = n_contaminants stats"
    and "unique_kmers (check_kmers_in_common node stats) = unique_kmers stats"
proof -
  let ?n = "n_contaminants stats"
  have rng: "\<forall>i\<in>set [0..<?n]. i < ?n" by simp
  note l = common_outer_loop [OF assms(1) rng assms(2,3), of node]
  have "min a b < ?n" using assms by simp
  then have "length (filter (\<lambda>i. i = min a b \<and> (a \<in> node \<and> b \<in> node)) [0..<?n])
          = (if a \<in> node \<and> b \<in> node then 1 else 0)"
    by (simp add: filter_single)
  then show "kmers_in_common (check_kmers_in_common node stats) ! a ! b
           = kmers_in_common stats ! a ! b + (if a \<in> node \<and> b \<in> node then 1 else 0)"
    using l by (simp add: check_kmers_in_common_def)
  show "square_at_least ?n (kmers_in_common (check_kmers_in_common node stats))"
    using l by (simp add: check_kmers_in_common_def)
qed (simp_all add: check_kmers_in_common_def)

lemma kmers_in_common_traverse:
  fixes stats :: "'c::semiring_1_cancel KmerStats"
  assumes "square_at_least (n_contaminants stats) (kmers_in_common stats)"
    "a < n_contaminants stats" "b < n_contaminants stats"
  shows "square_at_least (n_contaminants stats)
           (kmers_in_common (hash_table_traverse_with_data check_kmers_in_common stats hash)) \<and>
         n_contaminants (hash_table_traverse_with_data check_kmers_in_common stats hash)
           = n_contaminants stats \<and>
         unique_kmers (hash_table_traverse_with_data check_kmers_in_common stats hash)
           = unique_kmers stats \<and>
         kmers_in_common (hash_table_traverse_with_data check_kmers_in_common stats hash) ! a ! b
           = kmers_in_common stats ! a ! b
             + of_nat (length (filter (\<lambda>node. a \<in> node \<and> b \<in> node) hash))"
  using assms
proof (induction hash arbitrary: stats)
  case Nil
  then show ?case by (simp add: hash_table_traverse_with_data_def)
next
  case (Cons node hash)
  note e = check_kmers_in_common_effect [OF Cons.prems, of node]
  have "square_at_least (n_contaminants (check_kmers_in_common node stats))
          (kmers_in_common (check_kmers_in_common node stats))"
    "a < n_contaminants (check_kmers_in_common node stats)"
    "b < n_contaminants (check_kmers_in_common node stats)"
    using e Cons.prems by simp_all
  from Cons.IH [OF this] e
  show ?case by (simp add: hash_table_traverse_with_data_def ac_simps)
qed

lemma unique_loop_one:
  "unique_loop node is (k, 1)
     = (case filter (\<lambda>i. i \<in> node) is of [] \<Rightarrow> (k, 1) | x # xs \<Rightarrow> (x, 2))"
  by (induction "is" arbitrary: k) simp_all

lemma unique_loop_zero:
  "unique_loop node is (k, 0)
     = (case filter (\<lambda>i. i \<in> node) is of
          [] \<Rightarrow> (k, 0) | [x] \<Rightarrow> (x, 1) | x # y # ys \<Rightarrow> (y, 2))"
  by (induction "is" arbitrary: k) (simp_all add: unique_loop_one split: list.splits)

lemma distinct_singleton_set: "distinct xs \<Longrightarrow> xs = [i] \<longleftrightarrow> set xs = {i}"
proof (cases xs)
  case Nil
  then show ?thesis by simp
next
  case (Cons x ys)
  assume "distinct xs"
  with Cons show ?thesis by (cases ys) auto
qed

lemma only_bit:
  "filter (\<lambda>k. k \<in> node) [0..<n] = [i] \<longleftrightarrow> node \<inter> {0..<n} = {i}"
proof -
  have "set (filter (\<lambda>k. k \<in> node) [0..<n]) = node \<inter> {0..<n}" by auto
  then show ?thesis
    using distinct_singleton_set [of "filter (\<lambda>k. k \<in> node) [0..<n]" i] by simp
qed

lemma check_unique_kmers_effect:
  fixes stats :: "'c::semiring_1_cancel KmerStats"
  assumes "n_contaminants stats \<le> length (unique_kmers stats)"
  shows "unique_kmers (check_unique_kmers node stats) ! i
           = unique_kmers stats ! i + (if node \<inter> {0..<n_contaminants stats} = {i} then 1 else 0)"
    and "length (unique_kmers (check_unique_kmers node stats)) = length (unique_kmers stats)"
    and "n_contaminants (check_unique_kmers node stats) = n_contaminants stats"
    and "kmers_in_common (check_unique_kmers node stats) = kmers_in_common stats"
proof -
  let ?n = "n_contaminants stats"
  let ?f = "filter (\<lambda>k. k \<in> node) [0..<?n]"
  show "unique_kmers (check_unique_kmers node stats) ! i
           = unique_kmers stats ! i + (if node \<inter> {0..<?n} = {i} then 1 else 0)"
  proof (cases ?f)
    case Nil
    then have "\<not> ?f = [i]" by simp
    then have "node \<inter> {0..<?n} \<noteq> {i}" using only_bit [of node ?n i] by blast
    with Nil show ?thesis
      by (simp add: check_unique_kmers_def unique_loop_zero)
  next
    case (Cons x xs)
    show ?thesis
    proof (cases xs)
      case Nil
      with Cons have f: "?f = [x]" by simp
      then have "x \<in> set ?f" by simp
      then have x: "x < length (unique_kmers stats)" using assms by simp
      have "node \<inter> {0..<?n} = {i} \<longleftrightarrow> ?f = [i]"
        by (rule only_bit [symmetric])
      then have "node \<inter> {0..<?n} = {i} \<longleftrightarrow> x = i"
        unfolding f by simp
      with f x show ?thesis
        by (simp add: check_unique_kmers_def unique_loop_zero nth_incr)
    next
      case c2: (Cons y ys)
      with Cons have f: "?f = x # y # ys" by simp
      then have "\<not> ?f = [i]" by simp
      then have "node \<inter> {0..<?n} \<noteq> {i}" using only_bit [of node ?n i] by blast
      with f show ?thesis
        by (simp add: check_unique_kmers_def unique_loop_zero)
    qed
  qed
qed (simp_all add: check_unique_kmers_def split: prod.splits)

lemma unique_kmers_traverse:
  fixes stats :: "'c::semiring_1_cancel KmerStats"
  assumes "n_contaminants stats \<le> length (unique_kmers stats)"
  shows "length (unique_kmers (hash_table_traverse_with_data check_unique_kmers stats hash))
           = length (unique_kmers stats) \<and>
         n_contaminants (hash_table_traverse_with_data check_unique_kmers stats hash)
           = n_contaminants stats \<and>
         kmers_in_common (hash_table_traverse_with_data check_unique_kmers stats hash)
           = kmers_in_common stats \<and>
         unique_kmers (hash_table_traverse_with_data check_unique_kmers stats hash) ! i
           = unique_kmers stats ! i
             + of_nat (length (filter (\<lambda>node. node \<inter> {0..<n_contaminants stats} = {i}) hash))"
  using assms
proof (induction hash arbitrary: stats)
  case Nil
  then show ?case by (simp add: hash_table_traverse_with_data_def)
next
  case (Cons node hash)
  note e = check_unique_kmers_effect [OF Cons.prems, of node]
  have "n_contaminants (check_unique_kmers node stats) \<le> length (unique_kmers (check_unique_kmers node stats))"
    using e Cons.prems by simp
  from Cons.IH [OF this] e(1) [of i] e(2,3,4)
  show ?case by (simp add: hash_table_traverse_with_data_def ac_simps)
qed

text \<open>
  C9. After the two traversals of a table, for contaminants \<open>i, j < n_contaminants\<close>:
  \<open>kmers_in_common[i][j]\<close> has grown by the number of stored k-mers whose bitset holds
  both \<open>i\<close> and \<open>j\<close> (on the diagonal: that holds \<open>i\<close>), so that a matrix that
  was symmetric, as the zeroed one is, stays symmetric; and \<open>unique_kmers[i]\<close> has grown
  by the number of stored k-mers whose only bit below \<open>n_contaminants\<close> is \<open>i\<close>. On
  the table \<open>{0}, {0,1}, {1}\<close> and zeroed counters this gives the matrix
  \<open>[[2,1],[1,2]]\<close> and the unique counts \<open>[1,1]\<close>, as the instance after the theorem
  shows.
\<close>

theorem scan_counts_shared_and_unique_kmers:
  fixes stats :: "'c::semiring_1_cancel KmerStats"
  assumes "square_at_least (n_contaminants stats) (kmers_in_common stats)"
    and "n_contaminants stats \<le> length (unique_kmers stats)"
    and "i < n_contaminants stats" and "j < n_contaminants stats"
  shows "kmers_in_common (scan_contaminant_kmers hash stats) ! i ! j
           = kmers_in_common stats ! i ! j
             + of_nat (length (filter (\<lambda>node. i \<in> node \<and> j \<in> node) hash)) \<and>
         kmers_in_common (scan_contaminant_kmers hash stats) ! i ! i
           = kmers_in_common stats ! i ! i + of_nat (length (filter (\<lambda>node. i \<in> node) hash)) \<and>
         (kmers_in_common stats ! i ! j = kmers_in_common stats ! j ! i \<longrightarrow>
            kmers_in_common (scan_contaminant_kmers hash stats) ! i ! j
              = kmers_in_common (scan_contaminant_kmers hash stats) ! j ! i) \<and>
         unique_kmers (scan_contaminant_kmers hash stats) ! i
           = unique_kmers stats ! i
             + of_nat (length (filter (\<lambda>node. node \<inter> {0..<n_contaminants stats} = {i}) hash))"
proof -
  let ?s1 = "hash_table_traverse_with_data check_kmers_in_common stats hash"
  note c = kmers_in_common_traverse [OF assms(1)]
  have u1: "n_contaminants ?s1 \<le> length (unique_kmers ?s1)"
    using c [OF assms(3,4), of hash] assms(2) by simp
  note u = unique_kmers_traverse [OF u1, of hash i]
  have n1: "n_contaminants ?s1 = n_contaminants stats" and uk: "unique_kmers ?s1 = unique_kmers stats"
    using c [OF assms(3,4), of hash] by simp_all
  have m: "kmers_in_common (scan_contaminant_kmers hash stats) = kmers_in_common ?s1"
    using u by (simp add: scan_contaminant_kmers_def)
  have sym: "(\<lambda>node. j \<in> node \<and> i \<in> node) = (\<lambda>node. i \<in> node \<and> j \<in> node)"
    by (auto simp add: fun_eq_iff)
  show ?thesis
    unfolding m
    using c [OF assms(3,4), of hash] c [OF assms(4,3), of hash] c [OF assms(3,3), of hash] u
    by (simp add: scan_contaminant_kmers_def n1 uk sym)
qed

theorem scan_counts_shared_and_unique_kmers_witness:
  "square_at_least (n_contaminants (loaded_stats 2 4 2 :: 32 word KmerStats))
     (kmers_in_common (loaded_stats 2 4 2 :: 32 word KmerStats)) \<and>
   n_contaminants (loaded_stats 2 4 2 :: 32 word KmerStats)
     \<le> length (unique_kmers (loaded_stats 2 4 2 :: 32 word KmerStats)) \<and>
   0 < n_contaminants (loaded_stats 2 4 2 :: 32 word KmerStats) \<and>
   1 < n_contaminants (loaded_stats 2 4 2 :: 32 word KmerStats) \<and>
   kmers_in_common (scan_contaminant_kmers [{0}, {0, 1}, {1}]
      (loaded_stats 2 4 2 :: 32 word KmerStats)) ! 0 ! 1 = 1 \<and>
   kmers_in_common (scan_contaminant_kmers [{0}, {0, 1}, {1}]
      (loaded_stats 2 4 2 :: 32 word KmerStats)) ! 1 ! 0 = 1 \<and>
   kmers_in_common (scan_contaminant_kmers [{0}, {0, 1}, {1}]
      (loaded_stats 2 4 2 :: 32 word KmerStats)) ! 0 ! 0 = 2 \<and>
   unique_kmers (scan_contaminant_kmers [{0}, {0, 1}, {1}]
      (loaded_stats 2 4 2 :: 32 word KmerStats)) ! 0 = 1 \<and>
   kmers_in_common (scan_contaminant_kmers [{0}, {0, 1}, {1}]
      (loaded_stats 2 4 2 :: 32 word KmerStats)) = [[2, 1], [1, 2]] \<and>
   unique_kmers (scan_contaminant_kmers [{0}, {0, 1}, {1}]
      (loaded_stats 2 4 2 :: 32 word KmerStats)) = [1, 1]"
proof -
  let ?s = "loaded_stats 2 4 2 :: 32 word KmerStats"
  let ?h = "[{0}, {0, 1}, {1}] :: HashTable"
  have m0: "kmers_in_common ?s = [[0, 0], [0, 0]]" and u0: "unique_kmers ?s = [0, 0]"
    and n: "n_contaminants ?s = 2"
    by code_simp+
  have h1: "square_at_least (n_contaminants ?s) (kmers_in_common ?s)"
    unfolding m0 n by code_simp
  have h2: "n_contaminants ?s \<le> length (unique_kmers ?s)"
    unfolding u0 n by simp
  have h3: "0 < n_contaminants ?s" and h4: "1 < n_contaminants ?s"
    unfolding n by simp_all
  have c1: "length (filter (\<lambda>node. (0::nat) \<in> node \<and> (1::nat) \<in> node) ?h) = 1"
    and c2: "length (filter (\<lambda>node. (0::nat) \<in> node) ?h) = 2"
    and c3: "length (filter (\<lambda>node. node \<inter> {0..<2} = {0::nat}) ?h) = 1"
    by auto
  from scan_counts_shared_and_unique_kmers [OF h1 h2 h3 h4, of ?h]
  have e: "kmers_in_common (scan_contaminant_kmers ?h ?s) ! 0 ! 1 = 1"
    "kmers_in_common (scan_contaminant_kmers ?h ?s) ! 1 ! 0 = 1"
    "kmers_in_common (scan_contaminant_kmers ?h ?s) ! 0 ! 0 = 2"
    "unique_kmers (scan_contaminant_kmers ?h ?s) ! 0 = 1"
    unfolding n c1 c2 c3 m0 u0 by auto
  have full: "kmers_in_common (scan_contaminant_kmers ?h ?s) = [[2, 1], [1, 2]]"
    "unique_kmers (scan_contaminant_kmers ?h ?s) = [1, 1]"
    by code_simp+
  from h1 h2 h3 h4 e full show ?thesis by simp
qed

section \<open>Files that do not open\<close>

lemma write_or_report_opened:
  "fopen_ok c f \<Longrightarrow> Wrote f lines \<in> set (write_or_report c f lines)"
  by (simp add: write_or_report_def)

lemma write_or_report_failed:
  "\<not> fopen_ok c f \<Longrightarrow> cannot_open f \<in> set (write_or_report c f lines)"
  by (simp add: write_or_report_def)

lemma write_or_report_wrote:
  "Wrote g ls \<in> set (write_or_report c f lines) \<Longrightarrow> fopen_ok c g"
  by (auto simp add: write_or_report_def cannot_open_def split: if_splits)

lemma progress_files_three:
  "progress_files cmd_line r
     = [progress_files cmd_line r ! 0, progress_files cmd_line r ! 1, progress_files cmd_line r ! 2]"
  by (simp add: progress_files_def)

lemma progress_of_read_events:
  assumes "f \<in> set (progress_files cmd_line r)"
  shows "fopen_ok c f \<Longrightarrow> \<exists>lines. Wrote f lines \<in> set (progress_of_read c stats cmd_line r)"
    and "\<not> fopen_ok c f \<Longrightarrow> cannot_open f \<in> set (progress_of_read c stats cmd_line r)"
proof -
  have "set (progress_files cmd_line r)
          = {progress_files cmd_line r ! 0, progress_files cmd_line r ! 1, progress_files cmd_line r ! 2}"
    by (subst progress_files_three) simp
  with assms
  have f: "f = progress_files cmd_line r ! 0 \<or> f = progress_files cmd_line r ! 1
             \<or> f = progress_files cmd_line r ! 2"
    by blast
  show "\<exists>lines. Wrote f lines \<in> set (progress_of_read c stats cmd_line r)" if "fopen_ok c f"
    using f that write_or_report_opened [of c]
    unfolding progress_of_read_def Let_def set_append
    by blast
  show "cannot_open f \<in> set (progress_of_read c stats cmd_line r)" if "\<not> fopen_ok c f"
    using f that write_or_report_failed [of c]
    unfolding progress_of_read_def Let_def set_append
    by blast
qed

lemma progress_of_read_wrote:
  "Wrote g ls \<in> set (progress_of_read c stats cmd_line r) \<Longrightarrow> fopen_ok c g"
  unfolding progress_of_read_def Let_def set_append
  using write_or_report_wrote [of g ls c] by blast

lemma kmer_stats_write_progress_events:
  assumes "malloc_ok c 0"
  shows "snd (kmer_stats_write_progress c stats cmd_line) = Inr ()"
    and "r < number_of_files stats \<Longrightarrow> f \<in> set (progress_files cmd_line r) \<Longrightarrow> fopen_ok c f
           \<Longrightarrow> \<exists>lines. Wrote f lines \<in> set (fst (kmer_stats_write_progress c stats cmd_line))"
    and "r < number_of_files stats \<Longrightarrow> f \<in> set (progress_files cmd_line r) \<Longrightarrow> \<not> fopen_ok c f
           \<Longrightarrow> cannot_open f \<in> set (fst (kmer_stats_write_progress c stats cmd_line))"
    and "Wrote g ls \<in> set (fst (kmer_stats_write_progress c stats cmd_line)) \<Longrightarrow> fopen_ok c g"
proof -
  have log: "set (fst (kmer_stats_write_progress c stats cmd_line))
      = {Printed [Text (''Updating...'' @ nl)]}
        \<union> (\<Union>r\<in>{0..<number_of_files stats}. set (progress_of_read c stats cmd_line r))"
    using assms by (simp add: kmer_stats_write_progress_def Let_def)
  show "snd (kmer_stats_write_progress c stats cmd_line) = Inr ()"
    using assms by (simp add: kmer_stats_write_progress_def Let_def)
  show "\<exists>lines. Wrote f lines \<in> set (fst (kmer_stats_write_progress c stats cmd_line))"
    if "r < number_of_files stats" "f \<in> set (progress_files cmd_line r)" "fopen_ok c f"
  proof -
    from progress_of_read_events(1) [OF that(2,3), of stats]
    obtain lines where "Wrote f lines \<in> set (progress_of_read c stats cmd_line r)" by blast
    moreover have "r \<in> {0..<number_of_files stats}" using that(1) by simp
    ultimately show ?thesis unfolding log by blast
  qed
  show "cannot_open f \<in> set (fst (kmer_stats_write_progress c stats cmd_line))"
    if "r < number_of_files stats" "f \<in> set (progress_files cmd_line r)" "\<not> fopen_ok c f"
  proof -
    have "r \<in> {0..<number_of_files stats}" using that(1) by simp
    with progress_of_read_events(2) [OF that(2,3), of stats]
    show ?thesis unfolding log by blast
  qed
  show "fopen_ok c g" if "Wrote g ls \<in> set (fst (kmer_stats_write_progress c stats cmd_line))"
    using that progress_of_read_wrote [of g ls c stats cmd_line]
    unfolding log by blast
qed

lemma open_step_fold:
  fixes log :: "'c event list"
  shows "snd (fold (\<lambda>filename (log, ok).
             if \<not> ok then (log, ok)
             else if \<not> fopen_ok c filename then (log @ [cannot_open filename], False)
             else (log @ [Printed [Text (''Opened '' @ filename @ nl)]], True))
          fs (log, ok0)) = (ok0 \<and> (\<forall>f\<in>set fs. fopen_ok c f)) \<and>
         set log \<subseteq> set (fst (fold (\<lambda>filename (log, ok).
             if \<not> ok then (log, ok)
             else if \<not> fopen_ok c filename then (log @ [cannot_open filename], False)
             else (log @ [Printed [Text (''Opened '' @ filename @ nl)]], True))
          fs (log, ok0))) \<and>
         (ok0 \<and> (\<exists>f\<in>set fs. \<not> fopen_ok c f) \<longrightarrow>
            (\<exists>f\<in>set fs. \<not> fopen_ok c f \<and>
               (cannot_open f :: 'c event) \<in> set (fst (fold (\<lambda>filename (log, ok).
             if \<not> ok then (log, ok)
             else if \<not> fopen_ok c filename then (log @ [cannot_open filename], False)
             else (log @ [Printed [Text (''Opened '' @ filename @ nl)]], True))
          fs (log, ok0)))))"
proof (induction fs arbitrary: log ok0)
  case Nil
  then show ?case by simp
next
  case (Cons f fs)
  let ?step = "\<lambda>filename (log :: 'c event list, ok).
             if \<not> ok then (log, ok)
             else if \<not> fopen_ok c filename then (log @ [cannot_open filename], False)
             else (log @ [Printed [Text (''Opened '' @ filename @ nl)]], True)"
  show ?case
  proof (cases "ok0")
    case False
    with Cons [of log False] show ?thesis by simp
  next
    case True
    show ?thesis
    proof (cases "fopen_ok c f")
      case ok: True
      with True Cons [of "log @ [Printed [Text (''Opened '' @ f @ nl)]]" True]
      show ?thesis by auto
    next
      case ok: False
      have "cannot_open f \<in> set (log @ [cannot_open f :: 'c event])" by simp
      with ok True Cons [of "log @ [cannot_open f]" False]
      show ?thesis by auto
    qed
  qed
qed

lemma open_or_exit_fails:
  assumes "\<exists>f\<in>set fs. \<not> fopen_ok c f"
  shows "\<not> snd (open_or_exit c log fs) \<and>
         (\<exists>f\<in>set fs. \<not> fopen_ok c f \<and> cannot_open f \<in> set (fst (open_or_exit c log fs)))"
  using assms open_step_fold [of c fs log True]
  unfolding open_or_exit_def by blast

lemma kmer_stats_compare_fails:
  fixes stats :: "'c::semiring_1_cancel KmerStats"
  assumes "2 \<le> n_contaminants stats" "\<forall>k<4. malloc_ok c k"
    "\<exists>f\<in>set (similarity_files cmd_line). \<not> fopen_ok c f"
  shows "snd (kmer_stats_compare_contaminant_kmers c hash stats cmd_line) = Inl 1 \<and>
         (\<exists>f\<in>set (similarity_files cmd_line). \<not> fopen_ok c f \<and>
            cannot_open f \<in> set (fst (kmer_stats_compare_contaminant_kmers c hash stats cmd_line)))"
proof -
  let ?log = "[Printed [Text (nl @ ''Comparing contaminant kmers...'' @ nl)]] :: 'c event list"
  obtain log' ok where o: "open_or_exit c ?log (similarity_files cmd_line) = (log', ok)"
    by (cases "open_or_exit c ?log (similarity_files cmd_line)") auto
  from open_or_exit_fails [OF assms(3), of ?log] o
  have ok: "\<not> ok"
    and e: "\<exists>f\<in>set (similarity_files cmd_line). \<not> fopen_ok c f \<and> cannot_open f \<in> set log'"
    by simp_all
  have m: "malloc_ok c 0" "malloc_ok c 1" "malloc_ok c 2" "malloc_ok c 3"
    using assms(2) by simp_all
  have res: "kmer_stats_compare_contaminant_kmers c hash stats cmd_line
          = (log' @ map (\<lambda>filename. Wrote filename [])
                        (takeWhile (fopen_ok c) (similarity_files cmd_line)), Inl 1)"
    unfolding kmer_stats_compare_contaminant_kmers_def Let_def o
    using assms(1) m ok by simp
  show ?thesis
    unfolding res using e by auto
qed

text \<open>
  C8 as stated fails: when \<open>fopen\<close> fails for \<open>out_kmer_similarity_pc.txt\<close>,
  \<open>kmer_stats_compare_contaminant_kmers\<close> calls \<open>exit(1)\<close>.
\<close>

theorem similarity_file_open_failure_is_fatal:
  "snd (kmer_stats_compare_contaminant_kmers
          \<lparr>malloc_ok = \<lambda>k. True, fopen_ok = \<lambda>f. f \<noteq> ''out_kmer_similarity_pc.txt''\<rparr>
          [{0}, {0, 1}, {1}] (loaded_stats 2 4 2 :: 32 word KmerStats)
          \<lparr>kmer_threshold_read = 3, kmer_threshold_overall = 6, filter_unique = False,
           output_prefix = ''out_'', progress_dir = ''prog''\<rparr>) = Inl 1"
  by code_simp

text \<open>
  C8, as the code has it (memory allocation succeeding). \<open>kmer_stats_write_progress\<close>
  returns whatever \<open>fopen\<close> does: each of its files that opens is written, and each
  that does not open is reported (\<open>Error: can't open ...\<close>) and not written.
  \<open>kmer_stats_compare_contaminant_kmers\<close>, with two contaminants or more, reports the
  first of its four files that does not open and ends the run with \<open>exit(1)\<close>.
\<close>

theorem open_failure_skips_progress_file_and_ends_comparison:
  fixes stats :: "'c::semiring_1_cancel KmerStats"
  assumes "list_all (malloc_ok c) [0, 1, 2, 3]"
  shows "snd (kmer_stats_write_progress c stats cmd_line) = Inr () \<and>
         (\<forall>r<number_of_files stats. \<forall>f\<in>set (progress_files cmd_line r).
            if fopen_ok c f
            then \<exists>lines. Wrote f lines \<in> set (fst (kmer_stats_write_progress c stats cmd_line))
            else cannot_open f \<in> set (fst (kmer_stats_write_progress c stats cmd_line)) \<and>
                 (\<forall>lines. Wrote f lines \<notin> set (fst (kmer_stats_write_progress c stats cmd_line)))) \<and>
         (2 \<le> n_contaminants stats \<and> (\<exists>f\<in>set (similarity_files cmd_line). \<not> fopen_ok c f) \<longrightarrow>
            snd (kmer_stats_compare_contaminant_kmers c hash stats cmd_line) = Inl 1 \<and>
            (\<exists>f\<in>set (similarity_files cmd_line). \<not> fopen_ok c f \<and>
               cannot_open f \<in> set (fst (kmer_stats_compare_contaminant_kmers c hash stats cmd_line))))"
proof -
  from assms have m0: "malloc_ok c 0" and m: "\<forall>k<4. malloc_ok c k"
    by (simp_all add: less_Suc_eq numeral_Bit0 numeral_3_eq_3 flip: less_Suc_eq_le)
  note p = kmer_stats_write_progress_events [OF m0, where stats = stats and cmd_line = cmd_line]
  have "\<forall>r<number_of_files stats. \<forall>f\<in>set (progress_files cmd_line r).
            if fopen_ok c f
            then \<exists>lines. Wrote f lines \<in> set (fst (kmer_stats_write_progress c stats cmd_line))
            else cannot_open f \<in> set (fst (kmer_stats_write_progress c stats cmd_line)) \<and>
                 (\<forall>lines. Wrote f lines \<notin> set (fst (kmer_stats_write_progress c stats cmd_line)))"
    using p(2,3,4) by (metis (full_types))
  then show ?thesis
    using p(1) kmer_stats_compare_fails [where stats = stats and c = c and cmd_line = cmd_line and hash = hash] m by blast
qed

theorem open_failure_skips_progress_file_and_ends_comparison_witness:
  "list_all (malloc_ok \<lparr>malloc_ok = \<lambda>k. True,
       fopen_ok = \<lambda>f. f \<noteq> ''prog/data_overall_r1.txt'' \<and> f \<noteq> ''out_kmer_similarity_pc.txt''\<rparr>)
     [0, 1, 2, 3] \<and>
   snd (kmer_stats_write_progress
          \<lparr>malloc_ok = \<lambda>k. True,
           fopen_ok = \<lambda>f. f \<noteq> ''prog/data_overall_r1.txt'' \<and> f \<noteq> ''out_kmer_similarity_pc.txt''\<rparr>
          ((loaded_stats 2 4 2 :: 32 word KmerStats)\<lparr>number_of_files := 1\<rparr>)
          \<lparr>kmer_threshold_read = 3, kmer_threshold_overall = 6, filter_unique = False,
           output_prefix = ''out_'', progress_dir = ''prog''\<rparr>) = Inr () \<and>
   cannot_open ''prog/data_overall_r1.txt''
     \<in> set (fst (kmer_stats_write_progress
          \<lparr>malloc_ok = \<lambda>k. True,
           fopen_ok = \<lambda>f. f \<noteq> ''prog/data_overall_r1.txt'' \<and> f \<noteq> ''out_kmer_similarity_pc.txt''\<rparr>
          ((loaded_stats 2 4 2 :: 32 word KmerStats)\<lparr>number_of_files := 1\<rparr>)
          \<lparr>kmer_threshold_read = 3, kmer_threshold_overall = 6, filter_unique = False,
           output_prefix = ''out_'', progress_dir = ''prog''\<rparr>)) \<and>
   (\<exists>lines. Wrote ''prog/largest_contaminant_r1.txt'' lines
     \<in> set (fst (kmer_stats_write_progress
          \<lparr>malloc_ok = \<lambda>k. True,
           fopen_ok = \<lambda>f. f \<noteq> ''prog/data_overall_r1.txt'' \<and> f \<noteq> ''out_kmer_similarity_pc.txt''\<rparr>
          ((loaded_stats 2 4 2 :: 32 word KmerStats)\<lparr>number_of_files := 1\<rparr>)
          \<lparr>kmer_threshold_read = 3, kmer_threshold_overall = 6, filter_unique = False,
           output_prefix = ''out_'', progress_dir = ''prog''\<rparr>))) \<and>
   snd (kmer_stats_compare_contaminant_kmers
          \<lparr>malloc_ok = \<lambda>k. True,
           fopen_ok = \<lambda>f. f \<noteq> ''prog/data_overall_r1.txt'' \<and> f \<noteq> ''out_kmer_similarity_pc.txt''\<rparr>
          [{0}, {0, 1}, {1}]
          ((loaded_stats 2 4 2 :: 32 word KmerStats)\<lparr>number_of_files := 1\<rparr>)
          \<lparr>kmer_threshold_read = 3, kmer_threshold_overall = 6, filter_unique = False,
           output_prefix = ''out_'', progress_dir = ''prog''\<rparr>) = Inl 1"
proof -
  let ?c = "\<lparr>malloc_ok = \<lambda>k. True,
           fopen_ok = \<lambda>f. f \<noteq> ''prog/data_overall_r1.txt'' \<and> f \<noteq> ''out_kmer_similarity_pc.txt''\<rparr>"
  let ?s = "(loaded_stats 2 4 2 :: 32 word KmerStats)\<lparr>number_of_files := 1\<rparr>"
  let ?cl = "\<lparr>kmer_threshold_read = 3, kmer_threshold_overall = 6, filter_unique = False,
           output_prefix = ''out_'', progress_dir = ''prog''\<rparr>"
  have h: "list_all (malloc_ok ?c) [0, 1, 2, 3]" by simp
  have r: "0 < number_of_files ?s" by simp
  have f1: "''prog/data_overall_r1.txt'' \<in> set (progress_files ?cl 0)"
    and f3: "''prog/largest_contaminant_r1.txt'' \<in> set (progress_files ?cl 0)"
    by code_simp+
  have o1: "\<not> fopen_ok ?c ''prog/data_overall_r1.txt''"
    and o3: "fopen_ok ?c ''prog/largest_contaminant_r1.txt''"
    by simp_all
  have n: "2 \<le> n_contaminants ?s" by (simp add: read_loaded_stats)
  have g: "\<exists>f\<in>set (similarity_files ?cl). \<not> fopen_ok ?c f"
    by (simp add: similarity_files_def)
  note t = open_failure_skips_progress_file_and_ends_comparison
             [OF h, where stats = ?s and cmd_line = ?cl and hash = "[{0}, {0, 1}, {1}]"]
  note a = t [THEN conjunct1]
  note files = t [THEN conjunct2, THEN conjunct1, rule_format, OF r]
  note b = files [OF f1, unfolded if_not_P [OF o1], THEN conjunct1]
  note d = files [OF f3, unfolded if_P [OF o3]]
  note e = t [THEN conjunct2, THEN conjunct2, rule_format, OF conjI [OF n g], THEN conjunct1]
  show ?thesis
    by (intro conjI) (rule h a b d e)+
qed

end
